theory Spec2Isabelle
  imports Complex_Main "HOL-Library.AList"
begin

section \<open>JavaScript numbers\<close>

text \<open>
  The program computes with JavaScript numbers obtained from decimal strings by
  \<^verbatim>\<open>parseFloat\<close>. A number is an IEEE 754 binary64 value: \<open>NaN\<close>, one of the two
  infinities, or a finite value \<open>Fin q\<close>, where the rational \<open>q\<close> is the value of the
  double. Every arithmetic operation rounds its exact result to the nearest double, ties to
  even (\<open>dbl\<close> below), overflowing to an infinity and underflowing through the subnormal
  range to zero. The two zeros are not told apart: the program divides only by
  \<^verbatim>\<open>Math.max(lastValue, 0.01)\<close>, which is never zero, and no other operation it uses
  depends on the sign of a zero.
\<close>

datatype jsnum = NaN | NegInf | Fin rat | PosInf

subsection \<open>Rounding to binary64\<close>

text \<open>The number of binary digits of a positive integer, \<open>0\<close> for the others.\<close>

function bits :: "int \<Rightarrow> int" where
  "bits n = (if n \<le> 0 then 0 else 1 + bits (n div 2))"
  by pat_completeness auto
termination
  by (relation "measure nat") auto

definition pow2 :: "int \<Rightarrow> rat" where
  "pow2 k = (if 0 \<le> k then 2 ^ nat k else 1 / 2 ^ nat (- k))"

text \<open>The binary exponent of a positive rational \<open>q\<close>: the \<open>e\<close> with \<open>2\<^sup>e \<le> q < 2\<^sup>e\<^sup>+\<^sup>1\<close>.\<close>

definition ilog2 :: "rat \<Rightarrow> int" where
  "ilog2 q =
     (let (a, b) = quotient_of q;
          k = bits a - bits b
      in if pow2 k \<le> q then k else k - 1)"

text \<open>The nearest integer, the even one of the two when they are equally near.\<close>

definition roundEven :: "rat \<Rightarrow> int" where
  "roundEven r =
     (let f = \<lfloor>r\<rfloor>; d = r - of_int f
      in if d < 1 / 2 then f else if 1 / 2 < d then f + 1 else if even f then f else f + 1)"

text \<open>
  The double nearest to a rational. A double has a significand of 53 bits; the spacing of
  the doubles around a value of binary exponent \<open>e\<close> is \<open>2\<^sup>e\<^sup>-\<^sup>5\<^sup>2\<close>, and \<open>2\<^sup>-\<^sup>1\<^sup>0\<^sup>7\<^sup>4\<close> in the
  subnormal range. A value that rounds to \<open>2\<^sup>1\<^sup>0\<^sup>2\<^sup>4\<close> or lies above it is an infinity.
\<close>

definition dbl :: "rat \<Rightarrow> jsnum" where
  "dbl q =
     (if q = 0 then Fin 0
      else
        let a = \<bar>q\<bar>; e = ilog2 a
        in if 1023 < e then (if q < 0 then NegInf else PosInf)
           else
             let s = max e (- 1022) - 52;
                 m = roundEven (a / pow2 s)
             in if s = 971 \<and> m = 2 ^ 53 then (if q < 0 then NegInf else PosInf)
                else Fin ((if q < 0 then - 1 else 1) * of_int m * pow2 s))"

subsection \<open>Operations\<close>

fun js_neg :: "jsnum \<Rightarrow> jsnum" where
  "js_neg NaN = NaN"
| "js_neg NegInf = PosInf"
| "js_neg PosInf = NegInf"
| "js_neg (Fin a) = Fin (- a)"

fun js_abs :: "jsnum \<Rightarrow> jsnum" where
  "js_abs NaN = NaN"
| "js_abs NegInf = PosInf"
| "js_abs PosInf = PosInf"
| "js_abs (Fin a) = Fin \<bar>a\<bar>"

text \<open>\<open>a < b\<close> of JavaScript: false as soon as one side is \<open>NaN\<close>.\<close>

fun js_lt :: "jsnum \<Rightarrow> jsnum \<Rightarrow> bool" where
  "js_lt NaN _ = False"
| "js_lt _ NaN = False"
| "js_lt (Fin a) (Fin b) = (a < b)"
| "js_lt NegInf NegInf = False"
| "js_lt NegInf _ = True"
| "js_lt _ NegInf = False"
| "js_lt PosInf _ = False"
| "js_lt _ PosInf = True"

definition js_gt :: "jsnum \<Rightarrow> jsnum \<Rightarrow> bool" where
  "js_gt a b = js_lt b a"

text \<open>\<open>Math.max(a, b)\<close>: \<open>NaN\<close> if either argument is \<open>NaN\<close>.\<close>

definition js_max :: "jsnum \<Rightarrow> jsnum \<Rightarrow> jsnum" where
  "js_max a b = (if a = NaN \<or> b = NaN then NaN else if js_lt a b then b else a)"

fun js_sub :: "jsnum \<Rightarrow> jsnum \<Rightarrow> jsnum" where
  "js_sub NaN _ = NaN"
| "js_sub _ NaN = NaN"
| "js_sub (Fin a) (Fin b) = dbl (a - b)"
| "js_sub PosInf PosInf = NaN"
| "js_sub NegInf NegInf = NaN"
| "js_sub PosInf _ = PosInf"
| "js_sub NegInf _ = NegInf"
| "js_sub _ PosInf = NegInf"
| "js_sub _ NegInf = PosInf"

text \<open>The sign of a number that is not \<open>NaN\<close>: \<open>-1\<close>, \<open>0\<close> or \<open>1\<close>.\<close>

fun js_sign :: "jsnum \<Rightarrow> int" where
  "js_sign NaN = 0"
| "js_sign NegInf = - 1"
| "js_sign PosInf = 1"
| "js_sign (Fin a) = (if a < 0 then - 1 else if a = 0 then 0 else 1)"

definition inf_of_sign :: "int \<Rightarrow> jsnum" where
  "inf_of_sign s = (if s < 0 then NegInf else if s = 0 then NaN else PosInf)"

fun js_mul :: "jsnum \<Rightarrow> jsnum \<Rightarrow> jsnum" where
  "js_mul NaN _ = NaN"
| "js_mul _ NaN = NaN"
| "js_mul (Fin a) (Fin b) = dbl (a * b)"
| "js_mul a b = inf_of_sign (js_sign a * js_sign b)"

text \<open>
  Division. A finite non-zero value divided by zero is an infinity (the zero is taken as
  positive), \<open>0 / 0\<close> and \<open>Infinity / Infinity\<close> are \<open>NaN\<close>.
\<close>

fun js_div :: "jsnum \<Rightarrow> jsnum \<Rightarrow> jsnum" where
  "js_div NaN _ = NaN"
| "js_div _ NaN = NaN"
| "js_div (Fin a) (Fin b) = (if b = 0 then inf_of_sign (js_sign (Fin a)) else dbl (a / b))"
| "js_div (Fin a) _ = Fin 0"
| "js_div a (Fin b) = inf_of_sign (js_sign a * (if b < 0 then - 1 else 1))"
| "js_div _ _ = NaN"

subsection \<open>\<^verbatim>\<open>parseFloat\<close>\<close>

text \<open>
  \<^verbatim>\<open>parseFloat\<close> skips leading white space and reads the longest prefix that is a decimal
  literal: an optional sign, then \<^verbatim>\<open>Infinity\<close> or digits with an optional fraction and an
  optional exponent. No such prefix gives \<open>NaN\<close>. \<open>strDecimal\<close> is the mathematical
  value of the literal; \<open>parseFloat\<close> returns the double nearest to it, so that
  \<^verbatim>\<open>'101.000000000000001'\<close> is \<open>101\<close> and \<^verbatim>\<open>'1e309'\<close> is \<open>Infinity\<close>. Strings are byte
  strings, so the white space is that of ASCII.
\<close>

definition isDigit :: "char \<Rightarrow> bool" where
  "isDigit c = (c \<in> set ''0123456789'')"

definition isWhite :: "char \<Rightarrow> bool" where
  "isWhite c = (c \<in> set [CHR '' '', CHR 0x09, CHR 0x0A, CHR 0x0B, CHR 0x0C, CHR 0x0D])"

definition digitVal :: "char \<Rightarrow> int" where
  "digitVal c = of_char c - 48"

definition digitsVal :: "string \<Rightarrow> int" where
  "digitsVal ds = foldl (\<lambda>a c. 10 * a + digitVal c) 0 ds"

definition pow10 :: "int \<Rightarrow> rat" where
  "pow10 e = (if 0 \<le> e then 10 ^ nat e else 1 / 10 ^ nat (- e))"

definition expDigits :: "string \<Rightarrow> int \<Rightarrow> int" where
  "expDigits s sg =
     (let ds = takeWhile isDigit s in if ds = [] then 0 else sg * digitsVal ds)"

fun exponentPart :: "string \<Rightarrow> int" where
  "exponentPart [] = 0"
| "exponentPart (c # t) =
     (if c = CHR ''e'' \<or> c = CHR ''E'' then
        (case t of
           [] \<Rightarrow> 0
         | s # u \<Rightarrow>
             if s = CHR ''+'' then expDigits u 1
             else if s = CHR ''-'' then expDigits u (- 1)
             else expDigits t 1)
      else 0)"

definition strDecimal :: "string \<Rightarrow> jsnum" where
  "strDecimal s =
     (if take 8 s = ''Infinity'' then PosInf
      else
        let ip = takeWhile isDigit s;
            r1 = dropWhile isDigit s;
            fp = (case r1 of [] \<Rightarrow> [] | c # t \<Rightarrow> if c = CHR ''.'' then takeWhile isDigit t else []);
            r2 = (case r1 of [] \<Rightarrow> [] | c # t \<Rightarrow> if c = CHR ''.'' then dropWhile isDigit t else r1)
        in if ip = [] \<and> fp = [] then NaN
           else Fin (of_int (digitsVal (ip @ fp)) / 10 ^ length fp * pow10 (exponentPart r2)))"

text \<open>The Number value of a mathematical value.\<close>

fun toNumber :: "jsnum \<Rightarrow> jsnum" where
  "toNumber (Fin q) = dbl q"
| "toNumber x = x"

definition parseFloat :: "string \<Rightarrow> jsnum" where
  "parseFloat s =
     (case dropWhile isWhite s of
        [] \<Rightarrow> NaN
      | c # r \<Rightarrow>
          if c = CHR ''-'' then js_neg (toNumber (strDecimal r))
          else if c = CHR ''+'' then toNumber (strDecimal r)
          else toNumber (strDecimal (c # r)))"

section \<open>Data model (\<^verbatim>\<open>types/index.ts\<close>)\<close>

text \<open>
  The interfaces \<^verbatim>\<open>Market\<close>, \<^verbatim>\<open>Position\<close> and \<^verbatim>\<open>TradingStatus\<close>. The fields \<^verbatim>\<open>id\<close> and
  \<^verbatim>\<open>value\<close> carry a suffix, since HOL has these names already. Optional fields of
  \<^verbatim>\<open>Market\<close> that no modelled function reads, and the always empty \<^verbatim>\<open>recentTrades\<close>, are
  left out.
\<close>

record Market =
  id_mkt :: string
  question :: string
  slug :: string

record Position =
  id_pos :: string
  market :: Market
  outcome :: string
  quantity :: string
  price :: string
  value_pos :: string
  timestamp :: string

record TradingStatus =
  user :: string
  totalPositions :: nat
  totalValue :: string
  openPositions :: "Position list"
  lastUpdated :: string

subsection \<open>JavaScript \<^verbatim>\<open>Map\<close>\<close>

text \<open>
  A \<^verbatim>\<open>Map\<close> is a list of entries in insertion order with distinct keys. \<^verbatim>\<open>set\<close> on a
  key already present replaces the value in place, and appends otherwise, which is
  \<^const>\<open>AList.update\<close>; \<^verbatim>\<open>get\<close> is \<^const>\<open>map_of\<close>.
\<close>

type_synonym ('k, 'v) jsmap = "('k \<times> 'v) list"

definition has :: "('k, 'v) jsmap \<Rightarrow> 'k \<Rightarrow> bool" where
  "has m k = (k \<in> set (map fst m))"

text \<open>\<^verbatim>\<open>new Map(positions.map((p) => [p.id, p]))\<close>\<close>

definition positionsMap :: "Position list \<Rightarrow> (string, Position) jsmap" where
  "positionsMap ps = foldl (\<lambda>m p. AList.update (id_pos p) p m) [] ps"

section \<open>Change detection (\<^verbatim>\<open>monitor/account-monitor.ts\<close>)\<close>

text \<open>The literal \<^verbatim>\<open>0.01\<close>: the double nearest to one hundredth.\<close>

definition hundredth :: jsnum where
  "hundredth = dbl (1 / 100)"

text \<open>
  The test \<^verbatim>\<open>Math.abs(currentQty - lastQty) > Math.max(1, lastQty * 0.01)\<close> that
  \<^verbatim>\<open>detectChanges\<close> and \<^verbatim>\<open>logChanges\<close> both apply to a position found in both snapshots.
\<close>

definition quantityChanged :: "Position \<Rightarrow> Position \<Rightarrow> bool" where
  "quantityChanged currentPos lastPos =
     (let currentQty = parseFloat (quantity currentPos);
          lastQty = parseFloat (quantity lastPos)
      in js_gt (js_abs (js_sub currentQty lastQty))
               (js_max (Fin 1) (js_mul lastQty hundredth)))"

text \<open>
  The first loop of \<^verbatim>\<open>detectChanges\<close>, over the entries of the current map: \<open>True\<close> when
  the loop returns \<^verbatim>\<open>true\<close>, \<open>False\<close> when it runs to its end.
\<close>

fun newOrResized :: "(string, Position) jsmap \<Rightarrow> (string, Position) jsmap \<Rightarrow> bool" where
  "newOrResized lastPositionsMap [] = False"
| "newOrResized lastPositionsMap ((i, currentPos) # rest) =
     (case map_of lastPositionsMap i of
        None \<Rightarrow> True
      | Some lastPos \<Rightarrow>
          if quantityChanged currentPos lastPos then True
          else newOrResized lastPositionsMap rest)"

text \<open>The second loop: some key of the last map is missing from the current map.\<close>

fun removed :: "(string, Position) jsmap \<Rightarrow> string list \<Rightarrow> bool" where
  "removed currentPositionsMap [] = False"
| "removed currentPositionsMap (i # rest) =
     (if \<not> has currentPositionsMap i then True else removed currentPositionsMap rest)"

text \<open>The final test of \<^verbatim>\<open>detectChanges\<close>, on the aggregate values.\<close>

definition totalValueChanged :: "TradingStatus \<Rightarrow> TradingStatus \<Rightarrow> bool" where
  "totalValueChanged current last_st =
     (let lastValue = parseFloat (totalValue last_st);
          currentValue = parseFloat (totalValue current)
      in js_gt (js_div (js_abs (js_sub currentValue lastValue)) (js_max lastValue hundredth))
               hundredth)"

definition detectChanges :: "TradingStatus \<Rightarrow> TradingStatus option \<Rightarrow> bool" where
  "detectChanges current last_st =
     (case last_st of
        None \<Rightarrow> True
      | Some l \<Rightarrow>
          if length (openPositions current) \<noteq> length (openPositions l) then True
          else
            let currentPositionsMap = positionsMap (openPositions current);
                lastPositionsMap = positionsMap (openPositions l)
            in if newOrResized lastPositionsMap currentPositionsMap then True
               else if removed currentPositionsMap (map fst lastPositionsMap) then True
               else totalValueChanged current l)"

text \<open>
  The list \<^verbatim>\<open>updatedPositions\<close> that \<^verbatim>\<open>logChanges\<close> builds and reports as
  ``Positions updated'': the current positions whose quantity moved, each with the old and
  the new quantity string.
\<close>

definition updatedPositions :: "TradingStatus \<Rightarrow> TradingStatus \<Rightarrow> (Position \<times> string \<times> string) list" where
  "updatedPositions last_st current =
     concat (map (\<lambda>currentPos.
        case find (\<lambda>lp. id_pos lp = id_pos currentPos) (openPositions last_st) of
          None \<Rightarrow> []
        | Some lastPos \<Rightarrow>
            if quantityChanged currentPos lastPos
            then [(currentPos, quantity lastPos, quantity currentPos)] else [])
      (openPositions current))"

section \<open>Trade execution (\<^verbatim>\<open>trading/trade-executor.ts\<close>)\<close>

datatype side = Buy | Sell

text \<open>
  Error texts. The three validation messages are template strings that render two
  numbers; they are kept as constructors carrying the numbers. Every other message is
  the string itself.
\<close>

datatype message =
    Msg string
  | BelowMinimum jsnum jsnum
  | ExceedsMaximum jsnum jsnum
  | PositionExceedsMaximum jsnum jsnum

text \<open>
  The configuration after the constructor has filled in its defaults, with the fields the
  executor and the monitor read. The two callbacks \<^verbatim>\<open>onTradeExecuted\<close> and \<^verbatim>\<open>onTradeError\<close>
  default to functions that do nothing and are modelled so. \<^verbatim>\<open>maxRetryAttempts\<close> and
  \<^verbatim>\<open>retryDelay\<close> are integers (the loader reads them with \<^verbatim>\<open>parseInt\<close>).
\<close>

record CopyTradingConfig =
  enabled :: bool
  dryRun :: bool
  positionSizeMultiplier :: jsnum
  maxPositionSize :: jsnum
  maxTradeSize :: jsnum
  minTradeSize :: jsnum
  maxRetryAttempts :: int
  retryDelay :: int

text \<open>
  \<^verbatim>\<open>TradeExecutionResult\<close>. \<^verbatim>\<open>executedQuantity\<close> and \<^verbatim>\<open>executedPrice\<close> hold the number that
  the source renders with \<^verbatim>\<open>toFixed(4)\<close>; \<^verbatim>\<open>transactionHash\<close> is never set.
\<close>

record TradeExecutionResult =
  success :: bool
  position :: Position
  orderId :: "string option"
  executedQuantity :: "jsnum option"
  executedPrice :: "jsnum option"
  error :: "message option"
  dryRun_res :: bool
  retryCount :: nat

text \<open>
  A document of the \<^verbatim>\<open>Trade\<close> collection (\<^verbatim>\<open>models/Trade.ts\<close>), without its quantity,
  price and date fields. The collection has a unique index on
  \<open>(positionId, traderAddress, side)\<close>. Its second index lets documents expire after
  thirty days; in the model no document expires.
\<close>

record ITrade =
  positionId :: string
  traderAddress :: string
  marketId :: string
  outcome_doc :: string
  side_doc :: side
  orderId_doc :: "string option"
  dryRun_doc :: bool
  success_doc :: bool
  error_doc :: "message option"

text \<open>The argument of \<^verbatim>\<open>createAndPostOrder\<close>; the order type is always GTC.\<close>

record Order =
  tokenID :: string
  price_ord :: jsnum
  size_ord :: jsnum
  side_ord :: side

subsection \<open>The world outside the executor\<close>

text \<open>
  What the database and the exchange answer is not decided by the program. It is given by
  an environment: the answer to the \<open>k\<close>-th database operation (is the connection up,
  does the query throw, does the save throw), to the \<open>k\<close>-th key derivation (\<open>Some m\<close>:
  it throws with message \<open>m\<close>) and to the \<open>k\<close>-th order submission (\<open>Inl m\<close>: it throws
  with message \<open>m\<close>; \<open>Inr oid\<close>: the order identifier). A save that the validation of the
  schema rejects is a save that throws.
\<close>

record Env =
  isDatabaseConnected :: "nat \<Rightarrow> bool"
  findOneThrows :: "nat \<Rightarrow> bool"
  saveThrows :: "nat \<Rightarrow> bool"
  createOrDeriveApiKey :: "nat \<Rightarrow> string option"
  createAndPostOrder :: "nat \<Rightarrow> string + string"

text \<open>
  The state outside the monitor: the trade collection, the number of database operations
  and key derivations so far, the orders submitted so far, the flag \<^verbatim>\<open>apiKeyCreated\<close> of the
  executor, the delays waited for so far, each with the number of orders that had been
  submitted when the wait began, and the results that \<^verbatim>\<open>executeBuy\<close> and \<^verbatim>\<open>executeSell\<close>
  have returned to the monitor, each with its side and trader.
\<close>

record World =
  trades :: "ITrade list"
  dbClock :: nat
  orders :: "Order list"
  keyCalls :: nat
  apiKeyCreated :: bool
  sleeps :: "(nat \<times> int) list"
  executions :: "(side \<times> string \<times> TradeExecutionResult) list"

text \<open>A computation that may throw: \<open>Inl\<close> carries the message of the error.\<close>

type_synonym 'a attempt = "(string \<times> World) + ('a \<times> World)"

definition initialize :: "CopyTradingConfig \<Rightarrow> Env \<Rightarrow> World \<Rightarrow> unit attempt" where
  "initialize cfg env w =
     (if dryRun cfg then Inr ((), w)
      else
        let w' = w\<lparr>keyCalls := keyCalls w + 1\<rparr>
        in case createOrDeriveApiKey env (keyCalls w) of
             Some m \<Rightarrow> Inl (''Failed to initialize trade executor: '' @ m, w')
           | None \<Rightarrow> Inr ((), w'\<lparr>apiKeyCreated := True\<rparr>))"

text \<open>
  \<^verbatim>\<open>isDuplicateTrade\<close>: a success document for the position, trader and side exists.
  Without a connection, or when the query throws, the answer is \<^verbatim>\<open>false\<close>.
\<close>

definition isDuplicateTrade ::
  "Env \<Rightarrow> World \<Rightarrow> string \<Rightarrow> string \<Rightarrow> side \<Rightarrow> bool \<times> World" where
  "isDuplicateTrade env w pId trader sd =
     (let k = dbClock w; w' = w\<lparr>dbClock := k + 1\<rparr>
      in if \<not> isDatabaseConnected env k then (False, w')
         else if findOneThrows env k then (False, w')
         else (list_ex (\<lambda>d. positionId d = pId \<and> traderAddress d = trader \<and>
                              side_doc d = sd \<and> success_doc d) (trades w), w'))"

text \<open>The document that \<^verbatim>\<open>saveTrade\<close> builds with \<^verbatim>\<open>new TradeModel\<close>.\<close>

definition tradeDocument :: "TradeExecutionResult \<Rightarrow> string \<Rightarrow> ITrade" where
  "tradeDocument result trader =
     \<lparr>positionId = id_pos (position result),
      traderAddress = trader,
      marketId = id_mkt (market (position result)),
      outcome_doc = outcome (position result),
      side_doc = (if value_pos (position result) \<noteq> [] then Buy else Sell),
      orderId_doc = orderId result,
      dryRun_doc = dryRun_res result,
      success_doc = success result,
      error_doc = error result\<rparr>"

text \<open>Two documents with the same key of the unique index.\<close>

definition sameKey :: "ITrade \<Rightarrow> ITrade \<Rightarrow> bool" where
  "sameKey a b =
     (positionId a = positionId b \<and> traderAddress a = traderAddress b \<and> side_doc a = side_doc b)"

text \<open>
  \<^verbatim>\<open>saveTrade\<close>: nothing is written unless the database is connected and the result is a
  success. An error of the save, among them the violation of the unique index, is caught
  and logged.
\<close>

definition saveTrade :: "Env \<Rightarrow> World \<Rightarrow> TradeExecutionResult \<Rightarrow> string \<Rightarrow> World" where
  "saveTrade env w result trader =
     (let k = dbClock w; w' = w\<lparr>dbClock := k + 1\<rparr>
      in if \<not> isDatabaseConnected env k \<or> \<not> success result then w'
         else if saveThrows env k then w'
         else
           let trade = tradeDocument result trader
           in if list_ex (sameKey trade) (trades w) then w'
              else w'\<lparr>trades := trades w @ [trade]\<rparr>)"

text \<open>The body of the \<^verbatim>\<open>try\<close> block of \<^verbatim>\<open>executeBuy\<close>.\<close>

definition executeBuyTry ::
  "CopyTradingConfig \<Rightarrow> Env \<Rightarrow> World \<Rightarrow> Position \<Rightarrow> string \<Rightarrow> TradeExecutionResult
    \<Rightarrow> TradeExecutionResult attempt" where
  "executeBuyTry cfg env w pos trader result =
     (let (dup, w1) = isDuplicateTrade env w (id_pos pos) trader Buy
      in if dup then Inr (result\<lparr>error := Some (Msg ''Duplicate trade'')\<rparr>, w1)
         else
           let tokenId = id_pos pos
           in if tokenId = [] then Inl (''Position ID (token ID) is missing'', w1)
              else
                let baseQuantity = parseFloat (quantity pos);
                    tradeQuantity = js_mul baseQuantity (positionSizeMultiplier cfg);
                    tradePrice = parseFloat (price pos);
                    tradeValue = js_mul tradeQuantity tradePrice
                in if js_lt tradeValue (minTradeSize cfg)
                   then Inr (result\<lparr>error := Some (BelowMinimum tradeValue (minTradeSize cfg))\<rparr>, w1)
                   else if js_gt tradeValue (maxTradeSize cfg)
                   then Inr (result\<lparr>error := Some (ExceedsMaximum tradeValue (maxTradeSize cfg))\<rparr>, w1)
                   else
                     let positionValue =
                           js_mul (parseFloat (if value_pos pos = [] then ''0'' else value_pos pos))
                                  (positionSizeMultiplier cfg)
                     in if js_gt positionValue (maxPositionSize cfg)
                        then Inr (result\<lparr>error :=
                                    Some (PositionExceedsMaximum positionValue (maxPositionSize cfg))\<rparr>, w1)
                        else if dryRun cfg then
                          let r = result\<lparr>success := True,
                                         executedQuantity := Some tradeQuantity,
                                         executedPrice := Some tradePrice\<rparr>
                          in Inr (r, saveTrade env w1 r trader)
                        else
                          case (if apiKeyCreated w1 then Inr ((), w1) else initialize cfg env w1) of
                            Inl e \<Rightarrow> Inl e
                          | Inr (u, w2) \<Rightarrow>
                              let w3 = w2\<lparr>orders := orders w2 @
                                         [\<lparr>tokenID = tokenId, price_ord = tradePrice,
                                           size_ord = tradeQuantity, side_ord = Buy\<rparr>]\<rparr>
                              in case createAndPostOrder env (length (orders w2)) of
                                   Inl m \<Rightarrow> Inl (m, w3)
                                 | Inr oid \<Rightarrow>
                                     let r = result\<lparr>success := True,
                                                    orderId := Some oid,
                                                    executedQuantity := Some tradeQuantity,
                                                    executedPrice := Some tradePrice\<rparr>
                                     in Inr (r, saveTrade env w3 r trader))"

text \<open>
  \<^verbatim>\<open>executeBuy\<close>: the \<^verbatim>\<open>try\<close> block, and the \<^verbatim>\<open>catch\<close> block that waits and calls
  \<^verbatim>\<open>executeBuy\<close> again while \<^verbatim>\<open>retryCount < maxRetryAttempts\<close>.
\<close>

function executeBuy ::
  "CopyTradingConfig \<Rightarrow> Env \<Rightarrow> World \<Rightarrow> Position \<Rightarrow> string \<Rightarrow> nat
    \<Rightarrow> TradeExecutionResult \<times> World" where
  "executeBuy cfg env w pos trader rc =
     (let result = \<lparr>success = False, position = pos, orderId = None,
                     executedQuantity = None, executedPrice = None, error = None,
                     dryRun_res = dryRun cfg, retryCount = rc\<rparr>
      in case executeBuyTry cfg env w pos trader result of
           Inr rw \<Rightarrow> rw
         | Inl (m, w1) \<Rightarrow>
             if int rc < maxRetryAttempts cfg
             then executeBuy cfg env (w1\<lparr>sleeps := sleeps w1 @ [(length (orders w1), retryDelay cfg)]\<rparr>) pos trader (rc + 1)
             else
               let r = result\<lparr>error := Some (Msg (if m = [] then ''Unknown error'' else m))\<rparr>
               in (r, saveTrade env w1 r trader))"
  by pat_completeness auto
termination
  by (relation "measure (\<lambda>(cfg, env, w, pos, trader, rc). nat (maxRetryAttempts cfg - int rc))") auto

text \<open>The body of the \<^verbatim>\<open>try\<close> block of \<^verbatim>\<open>executeSell\<close>.\<close>

definition executeSellTry ::
  "CopyTradingConfig \<Rightarrow> Env \<Rightarrow> World \<Rightarrow> Position \<Rightarrow> string \<Rightarrow> TradeExecutionResult
    \<Rightarrow> TradeExecutionResult attempt" where
  "executeSellTry cfg env w pos trader result =
     (let tokenId = id_pos pos
      in if tokenId = [] then Inl (''Position ID (token ID) is missing'', w)
         else
           let baseQuantity = parseFloat (quantity pos);
               tradeQuantity = js_mul baseQuantity (positionSizeMultiplier cfg);
               tradePrice = parseFloat (price pos)
           in if dryRun cfg then
                let r = result\<lparr>success := True,
                               executedQuantity := Some tradeQuantity,
                               executedPrice := Some tradePrice\<rparr>
                in Inr (r, saveTrade env w r trader)
              else
                case (if apiKeyCreated w then Inr ((), w) else initialize cfg env w) of
                  Inl e \<Rightarrow> Inl e
                | Inr (u, w2) \<Rightarrow>
                    let w3 = w2\<lparr>orders := orders w2 @
                               [\<lparr>tokenID = tokenId, price_ord = tradePrice,
                                 size_ord = tradeQuantity, side_ord = Sell\<rparr>]\<rparr>
                    in case createAndPostOrder env (length (orders w2)) of
                         Inl m \<Rightarrow> Inl (m, w3)
                       | Inr oid \<Rightarrow>
                           let r = result\<lparr>success := True,
                                          orderId := Some oid,
                                          executedQuantity := Some tradeQuantity,
                                          executedPrice := Some tradePrice\<rparr>
                           in Inr (r, saveTrade env w3 r trader))"

function executeSell ::
  "CopyTradingConfig \<Rightarrow> Env \<Rightarrow> World \<Rightarrow> Position \<Rightarrow> string \<Rightarrow> nat
    \<Rightarrow> TradeExecutionResult \<times> World" where
  "executeSell cfg env w pos trader rc =
     (let result = \<lparr>success = False, position = pos, orderId = None,
                     executedQuantity = None, executedPrice = None, error = None,
                     dryRun_res = dryRun cfg, retryCount = rc\<rparr>
      in case executeSellTry cfg env w pos trader result of
           Inr rw \<Rightarrow> rw
         | Inl (m, w1) \<Rightarrow>
             if int rc < maxRetryAttempts cfg
             then executeSell cfg env (w1\<lparr>sleeps := sleeps w1 @ [(length (orders w1), retryDelay cfg)]\<rparr>) pos trader (rc + 1)
             else
               let r = result\<lparr>error := Some (Msg (if m = [] then ''Unknown error'' else m))\<rparr>
               in (r, saveTrade env w1 r trader))"
  by pat_completeness auto
termination
  by (relation "measure (\<lambda>(cfg, env, w, pos, trader, rc). nat (maxRetryAttempts cfg - int rc))") auto

section \<open>The copy trading monitor (\<^verbatim>\<open>trading/copy-trading-monitor.ts\<close>)\<close>

text \<open>
  The counters of \<^verbatim>\<open>CopyTradingStatus\<close>. \<^verbatim>\<open>totalVolume\<close> and \<^verbatim>\<open>lastTradeTime\<close>, a rendered
  sum and a clock reading, are left out, as are the copies of two configuration flags.
\<close>

record CopyTradingStatus =
  totalTradesExecuted :: nat
  totalTradesFailed :: nat
  tradersMonitored :: nat
  activePositions :: nat

text \<open>
  The fields of \<^verbatim>\<open>CopyTradingMonitor\<close>: the counters, \<^verbatim>\<open>executedPositions\<close> (trader to the
  set of position identifiers bought and not yet sold) and \<^verbatim>\<open>targetPositions\<close> (trader to
  the position map of the last status handled).
\<close>

record CopyTradingMonitor =
  stats :: CopyTradingStatus
  executedPositions :: "string \<rightharpoonup> string set"
  targetPositions :: "(string, (string, Position) jsmap) jsmap"

text \<open>The state the constructor builds for the target addresses.\<close>

definition newMonitor :: "string list \<Rightarrow> CopyTradingMonitor" where
  "newMonitor targetAddresses =
     \<lparr>stats = \<lparr>totalTradesExecuted = 0, totalTradesFailed = 0,
                tradersMonitored = length targetAddresses, activePositions = 0\<rparr>,
      executedPositions = map_of (map (\<lambda>a. (a, {})) targetAddresses),
      targetPositions = foldl (\<lambda>m a. AList.update a [] m) [] targetAddresses\<rparr>"

text \<open>
  One round of the loop over \<^verbatim>\<open>newPositions\<close>, on the world, the counters and the set
  \<^verbatim>\<open>executedForTrader\<close>. \<^verbatim>\<open>executeBuy\<close> catches its own errors and always returns a result,
  and the logging before it reads fields that the type \<^verbatim>\<open>Position\<close> guarantees, so the
  \<^verbatim>\<open>catch\<close> block of the loop is never entered. The same holds for the loop over
  \<^verbatim>\<open>closedPositions\<close>.
\<close>

definition buyStep ::
  "CopyTradingConfig \<Rightarrow> Env \<Rightarrow> string \<Rightarrow> Position
    \<Rightarrow> World \<times> CopyTradingStatus \<times> string set \<Rightarrow> World \<times> CopyTradingStatus \<times> string set" where
  "buyStep cfg env trader pos acc =
     (case acc of (w, st, executedForTrader) \<Rightarrow>
        let (result, w1) = executeBuy cfg env w pos trader 0;
            w2 = w1\<lparr>executions := executions w1 @ [(Buy, trader, result)]\<rparr>
        in if success result
           then (w2, st\<lparr>totalTradesExecuted := totalTradesExecuted st + 1\<rparr>,
                 insert (id_pos pos) executedForTrader)
           else (w2, st\<lparr>totalTradesFailed := totalTradesFailed st + 1\<rparr>, executedForTrader))"

definition sellStep ::
  "CopyTradingConfig \<Rightarrow> Env \<Rightarrow> string \<Rightarrow> Position
    \<Rightarrow> World \<times> CopyTradingStatus \<times> string set \<Rightarrow> World \<times> CopyTradingStatus \<times> string set" where
  "sellStep cfg env trader pos acc =
     (case acc of (w, st, executedForTrader) \<Rightarrow>
        let (result, w1) = executeSell cfg env w pos trader 0;
            w2 = w1\<lparr>executions := executions w1 @ [(Sell, trader, result)]\<rparr>
        in if success result
           then (w2, st\<lparr>totalTradesExecuted := totalTradesExecuted st + 1\<rparr>,
                 executedForTrader - {id_pos pos})
           else (w2, st\<lparr>totalTradesFailed := totalTradesFailed st + 1\<rparr>, executedForTrader))"

definition handleStatusUpdate ::
  "CopyTradingConfig \<Rightarrow> Env \<Rightarrow> CopyTradingMonitor \<Rightarrow> World \<Rightarrow> TradingStatus \<Rightarrow> string
    \<Rightarrow> CopyTradingMonitor \<times> World" where
  "handleStatusUpdate cfg env mon w status trader =
     (let currentPositions = positionsMap (openPositions status);
          lastPositions = (case map_of (targetPositions mon) trader of
                             None \<Rightarrow> [] | Some lp \<Rightarrow> lp);
          executedForTrader = (case executedPositions mon trader of
                                 None \<Rightarrow> {} | Some ex \<Rightarrow> ex);
          newPositions = map snd (filter (\<lambda>(i, p). \<not> has lastPositions i \<and> i \<notin> executedForTrader)
                                         currentPositions);
          closedPositions = map snd (filter (\<lambda>(i, p). \<not> has currentPositions i \<and> i \<in> executedForTrader)
                                            lastPositions);
          acc1 = foldl (\<lambda>acc pos. buyStep cfg env trader pos acc)
                       (w, stats mon, executedForTrader) newPositions;
          (w2, st2, executed2) = foldl (\<lambda>acc pos. sellStep cfg env trader pos acc) acc1 closedPositions;
          targetPositions2 = AList.update trader currentPositions (targetPositions mon)
      in (mon\<lparr>stats := st2\<lparr>activePositions := sum_list (map (\<lambda>(a, ps). length ps) targetPositions2)\<rparr>,
               executedPositions := (case executedPositions mon trader of
                                       None \<Rightarrow> executedPositions mon
                                     | Some ex \<Rightarrow> (executedPositions mon)(trader \<mapsto> executed2)),
               targetPositions := targetPositions2\<rparr>,
          w2))"

text \<open>
  The monitor handling a sequence of status updates delivered for one trader, when the
  handlers do not overlap: each call of \<^verbatim>\<open>handleStatusUpdate\<close> has run to its end when the
  next status is delivered. The source does not enforce this: \<^verbatim>\<open>handleStatusUpdate\<close> is
  asynchronous and the callback that the constructor hands to the account monitor does not
  await it. Handlers that overlap are modelled further down.
\<close>

fun handleInTurn ::
  "CopyTradingConfig \<Rightarrow> Env \<Rightarrow> string \<Rightarrow> CopyTradingMonitor \<times> World \<Rightarrow> TradingStatus list
    \<Rightarrow> CopyTradingMonitor \<times> World" where
  "handleInTurn cfg env trader mw [] = mw"
| "handleInTurn cfg env trader mw (status # rest) =
     handleInTurn cfg env trader (handleStatusUpdate cfg env (fst mw) (snd mw) status trader) rest"

text \<open>The results with \<^verbatim>\<open>success = true\<close> that a log holds for a side, trader and position.\<close>

definition successes :: "side \<Rightarrow> string \<Rightarrow> string \<Rightarrow> (side \<times> string \<times> TradeExecutionResult) list \<Rightarrow> nat" where
  "successes sd trader i lg =
     length (filter (\<lambda>(s, t, r). s = sd \<and> t = trader \<and> id_pos (position r) = i \<and> success r) lg)"

text \<open>The attempts that a log holds for a side, trader and position.\<close>

definition attempts :: "side \<Rightarrow> string \<Rightarrow> string \<Rightarrow> (side \<times> string \<times> TradeExecutionResult) list \<Rightarrow> nat" where
  "attempts sd trader i lg =
     length (filter (\<lambda>(s, t, r). s = sd \<and> t = trader \<and> id_pos (position r) = i) lg)"

section \<open>Notions used in the statements\<close>

text \<open>
  The order that \<^verbatim>\<open>executeBuy\<close>, respectively \<^verbatim>\<open>executeSell\<close>, submits for a position: the
  token, the parsed price, and the parsed quantity scaled by \<^verbatim>\<open>positionSizeMultiplier\<close>.
\<close>

definition buyOrder :: "CopyTradingConfig \<Rightarrow> Position \<Rightarrow> Order" where
  "buyOrder cfg pos = \<lparr>tokenID = id_pos pos, price_ord = parseFloat (price pos),
      size_ord = js_mul (parseFloat (quantity pos)) (positionSizeMultiplier cfg), side_ord = Buy\<rparr>"

definition sellOrder :: "CopyTradingConfig \<Rightarrow> Position \<Rightarrow> Order" where
  "sellOrder cfg pos = \<lparr>tokenID = id_pos pos, price_ord = parseFloat (price pos),
      size_ord = js_mul (parseFloat (quantity pos)) (positionSizeMultiplier cfg), side_ord = Sell\<rparr>"

text \<open>A position passes the three limit checks of \<^verbatim>\<open>executeBuy\<close>.\<close>

definition passesLimits :: "CopyTradingConfig \<Rightarrow> Position \<Rightarrow> bool" where
  "passesLimits cfg pos =
     (let notional = js_mul (js_mul (parseFloat (quantity pos)) (positionSizeMultiplier cfg))
                            (parseFloat (price pos));
          positionValue = js_mul (parseFloat (if value_pos pos = [] then ''0'' else value_pos pos))
                                 (positionSizeMultiplier cfg)
      in \<not> js_lt notional (minTradeSize cfg) \<and> \<not> js_gt notional (maxTradeSize cfg)
         \<and> \<not> js_gt positionValue (maxPositionSize cfg))"

text \<open>The message of the first limit check that fails.\<close>

definition limitError :: "CopyTradingConfig \<Rightarrow> Position \<Rightarrow> message" where
  "limitError cfg pos =
     (let notional = js_mul (js_mul (parseFloat (quantity pos)) (positionSizeMultiplier cfg))
                            (parseFloat (price pos));
          positionValue = js_mul (parseFloat (if value_pos pos = [] then ''0'' else value_pos pos))
                                 (positionSizeMultiplier cfg)
      in if js_lt notional (minTradeSize cfg) then BelowMinimum notional (minTradeSize cfg)
         else if js_gt notional (maxTradeSize cfg) then ExceedsMaximum notional (maxTradeSize cfg)
         else PositionExceedsMaximum positionValue (maxPositionSize cfg))"

text \<open>
  The waits between \<open>n + 1\<close> attempts when \<open>before\<close> orders had been submitted earlier:
  the \<open>k\<close>-th wait begins when \<open>before + k\<close> orders have been submitted.
\<close>

definition waits :: "nat \<Rightarrow> nat \<Rightarrow> int \<Rightarrow> (nat \<times> int) list" where
  "waits before n delay = map (\<lambda>k. (before + k + 1, delay)) [0..<n]"

text \<open>The world after the API key has been derived.\<close>

definition withKey :: "World \<Rightarrow> World" where
  "withKey w = w\<lparr>keyCalls := keyCalls w + 1, apiKeyCreated := True\<rparr>"

text \<open>The collection holds a success document for a position, trader and side.\<close>

definition successDoc :: "string \<Rightarrow> string \<Rightarrow> side \<Rightarrow> ITrade list \<Rightarrow> bool" where
  "successDoc i trader sd ts =
     list_ex (\<lambda>d. positionId d = i \<and> traderAddress d = trader \<and> side_doc d = sd \<and> success_doc d) ts"

text \<open>The world after one call of \<^verbatim>\<open>isDuplicateTrade\<close>.\<close>

definition dupWorld :: "World \<Rightarrow> World" where
  "dupWorld w = w\<lparr>dbClock := dbClock w + 1\<rparr>"

text \<open>\<^verbatim>\<open>if (!this.apiKeyCreated) await this.initialize()\<close>\<close>

definition keyStep :: "CopyTradingConfig \<Rightarrow> Env \<Rightarrow> World \<Rightarrow> unit attempt" where
  "keyStep cfg env w = (if apiKeyCreated w then Inr ((), w) else initialize cfg env w)"

text \<open>A result turned into a success, with the scaled quantity and the price.\<close>

definition filled ::
  "CopyTradingConfig \<Rightarrow> Position \<Rightarrow> TradeExecutionResult \<Rightarrow> string option \<Rightarrow> TradeExecutionResult" where
  "filled cfg pos res oid =
     res\<lparr>success := True, orderId := oid,
         executedQuantity := Some (js_mul (parseFloat (quantity pos)) (positionSizeMultiplier cfg)),
         executedPrice := Some (parseFloat (price pos))\<rparr>"

definition filledBy :: "CopyTradingConfig \<Rightarrow> Position \<Rightarrow> TradeExecutionResult \<Rightarrow> bool" where
  "filledBy cfg pos r \<longleftrightarrow>
     executedQuantity r = Some (js_mul (parseFloat (quantity pos)) (positionSizeMultiplier cfg))
     \<and> executedPrice r = Some (parseFloat (price pos))"

text \<open>
  What the attempts of a call may change before the final save: orders and delays are
  appended and the database clock advances; the collection and the log of results stay.
\<close>

definition frame :: "World \<Rightarrow> World \<Rightarrow> bool" where
  "frame w w1 \<longleftrightarrow> trades w1 = trades w \<and> executions w1 = executions w
     \<and> (\<exists>ys. orders w1 = orders w @ ys) \<and> (\<exists>ds. sleeps w1 = sleeps w @ ds) \<and> dbClock w \<le> dbClock w1"

text \<open>The world after a success: such changes, then \<^verbatim>\<open>saveTrade\<close> of the result.\<close>

definition saved :: "Env \<Rightarrow> string \<Rightarrow> World \<Rightarrow> TradeExecutionResult \<Rightarrow> World \<Rightarrow> bool" where
  "saved env trader w r w1 \<longleftrightarrow> (\<exists>w3. frame w w3 \<and> w1 = saveTrade env w3 r trader)"

text \<open>The set \<^verbatim>\<open>executedForTrader\<close> and the map \<^verbatim>\<open>lastPositions\<close> that \<^verbatim>\<open>handleStatusUpdate\<close> reads first.\<close>

definition executedOf :: "CopyTradingMonitor \<Rightarrow> string \<Rightarrow> string set" where
  "executedOf mon trader = (case executedPositions mon trader of None \<Rightarrow> {} | Some ex \<Rightarrow> ex)"

definition lastOf :: "CopyTradingMonitor \<Rightarrow> string \<Rightarrow> (string, Position) jsmap" where
  "lastOf mon trader = (case map_of (targetPositions mon) trader of None \<Rightarrow> [] | Some lp \<Rightarrow> lp)"

text \<open>The arrays \<^verbatim>\<open>newPositions\<close> and \<^verbatim>\<open>closedPositions\<close> that \<^verbatim>\<open>handleStatusUpdate\<close> computes.\<close>

definition newPositions :: "CopyTradingMonitor \<Rightarrow> TradingStatus \<Rightarrow> string \<Rightarrow> Position list" where
  "newPositions mon status trader =
     map snd (filter (\<lambda>(i, p). \<not> has (lastOf mon trader) i \<and> i \<notin> executedOf mon trader)
                     (positionsMap (openPositions status)))"

definition closedPositions :: "CopyTradingMonitor \<Rightarrow> TradingStatus \<Rightarrow> string \<Rightarrow> Position list" where
  "closedPositions mon status trader =
     map snd (filter (\<lambda>(i, p). \<not> has (positionsMap (openPositions status)) i \<and> i \<in> executedOf mon trader)
                     (lastOf mon trader))"

text \<open>The calls behind a log of results: side, trader and position.\<close>

definition calls :: "(side \<times> string \<times> TradeExecutionResult) list \<Rightarrow> (side \<times> string \<times> Position) list" where
  "calls lg = map (\<lambda>(sd, t, r). (sd, t, position r)) lg"

text \<open>Every entry of a position map is stored under the identifier of its position.\<close>

definition keyed :: "(string, Position) jsmap \<Rightarrow> bool" where
  "keyed m \<longleftrightarrow> (\<forall>(i, p) \<in> set m. id_pos p = i)"


text \<open>Every document of the collection is a success.\<close>

definition allSuccess :: "ITrade list \<Rightarrow> bool" where
  "allSuccess ts \<longleftrightarrow> (\<forall>d \<in> set ts. success_doc d)"

text \<open>The results with \<^verbatim>\<open>success = false\<close> that a log holds for a side, trader and position.\<close>

definition failures :: "side \<Rightarrow> string \<Rightarrow> string \<Rightarrow> (side \<times> string \<times> TradeExecutionResult) list \<Rightarrow> nat" where
  "failures sd trader i lg =
     length (filter (\<lambda>(s, t, r). s = sd \<and> t = trader \<and> id_pos (position r) = i \<and> \<not> success r) lg)"

text \<open>A collection extended by success documents.\<close>

definition grows :: "ITrade list \<Rightarrow> ITrade list \<Rightarrow> bool" where
  "grows ts ts' \<longleftrightarrow> (\<exists>us. ts' = ts @ us \<and> (\<forall>d \<in> set us. success_doc d))"


text \<open>The position is in the last map of the trader and not in the executed set.\<close>

definition parked :: "string \<Rightarrow> string \<Rightarrow> CopyTradingMonitor \<Rightarrow> bool" where
  "parked trader i mon \<longleftrightarrow> keyed (lastOf mon trader) \<and> has (lastOf mon trader) i
     \<and> i \<notin> executedOf mon trader"

section \<open>Handlers that overlap\<close>

text \<open>
  \<^verbatim>\<open>handleStatusUpdate\<close> is an \<^verbatim>\<open>async\<close> function, and the callback of the constructor calls
  it without \<^verbatim>\<open>await\<close>. A call runs without interruption up to the first \<^verbatim>\<open>await\<close> inside
  \<^verbatim>\<open>executeBuy\<close> or \<^verbatim>\<open>executeSell\<close>: by then it has read \<^verbatim>\<open>targetPositions\<close> and the
  executed set and has computed \<^verbatim>\<open>currentPositions\<close>, \<^verbatim>\<open>newPositions\<close> and
  \<^verbatim>\<open>closedPositions\<close>. What follows, \<open>executeTrades\<close>, runs the two loops over these arrays
  on the world, the counters and the executed set as they are by then, and at last sets
  \<^verbatim>\<open>targetPositions\<close>.
\<close>

definition executeTrades ::
  "CopyTradingConfig \<Rightarrow> Env \<Rightarrow> CopyTradingMonitor \<Rightarrow> World \<Rightarrow> string
    \<Rightarrow> (string, Position) jsmap \<Rightarrow> Position list \<Rightarrow> Position list
    \<Rightarrow> CopyTradingMonitor \<times> World" where
  "executeTrades cfg env mon w trader currentPositions news closeds =
     (let acc1 = foldl (\<lambda>acc pos. buyStep cfg env trader pos acc)
                       (w, stats mon, executedOf mon trader) news;
          (w2, st2, executed2) = foldl (\<lambda>acc pos. sellStep cfg env trader pos acc) acc1 closeds;
          targetPositions2 = AList.update trader currentPositions (targetPositions mon)
      in (mon\<lparr>stats := st2\<lparr>activePositions := sum_list (map (\<lambda>(a, ps). length ps) targetPositions2)\<rparr>,
               executedPositions := (case executedPositions mon trader of
                                       None \<Rightarrow> executedPositions mon
                                     | Some ex \<Rightarrow> (executedPositions mon)(trader \<mapsto> executed2)),
               targetPositions := targetPositions2\<rparr>,
          w2))"

text \<open>
  Two status updates for one trader, the second delivered while the handler of the first
  awaits its first trade. Both handlers have computed their arrays from the monitor as it
  was before either trade. The operations that the second handler awaits complete, here,
  after the first handler has finished.
\<close>

definition handleOverlapping ::
  "CopyTradingConfig \<Rightarrow> Env \<Rightarrow> CopyTradingMonitor \<Rightarrow> World \<Rightarrow> string
    \<Rightarrow> TradingStatus \<Rightarrow> TradingStatus \<Rightarrow> CopyTradingMonitor \<times> World" where
  "handleOverlapping cfg env mon w trader status1 status2 =
     (let current1 = positionsMap (openPositions status1);
          new1 = newPositions mon status1 trader;
          closed1 = closedPositions mon status1 trader;
          current2 = positionsMap (openPositions status2);
          new2 = newPositions mon status2 trader;
          closed2 = closedPositions mon status2 trader;
          (mon1, w1) = executeTrades cfg env mon w trader current1 new1 closed1
      in executeTrades cfg env mon1 w1 trader current2 new2 closed2)"

section \<open>Concrete inputs\<close>

text \<open>Positions, statuses, configurations and environments on which the model is run.\<close>

definition ex_position :: "string \<Rightarrow> string \<Rightarrow> string \<Rightarrow> string \<Rightarrow> Position" where
  "ex_position i q p v =
     \<lparr>id_pos = i, market = \<lparr>id_mkt = ''m1'', question = ''Will it rain?'', slug = ''rain''\<rparr>,
      outcome = ''Yes'', quantity = q, price = p, value_pos = v, timestamp = ''t0''\<rparr>"

definition ex_status :: "string \<Rightarrow> Position list \<Rightarrow> TradingStatus" where
  "ex_status tv ps =
     \<lparr>user = ''0xT'', totalPositions = length ps, totalValue = tv, openPositions = ps,
      lastUpdated = ''t1''\<rparr>"

definition ex_a50 :: Position where "ex_a50 = ex_position ''a'' ''50'' ''1'' ''50''"

definition ex_a506 :: Position where "ex_a506 = ex_position ''a'' ''50.6'' ''1'' ''50.6''"

definition ex_a200 :: Position where "ex_a200 = ex_position ''a'' ''200'' ''1'' ''200''"

definition ex_a202 :: Position where "ex_a202 = ex_position ''a'' ''202'' ''1'' ''202''"

definition ex_a203 :: Position where "ex_a203 = ex_position ''a'' ''203'' ''1'' ''203''"

definition ex_a101 :: Position where "ex_a101 = ex_position ''a'' ''101'' ''1'' ''101''"

definition ex_a10201 :: Position where "ex_a10201 = ex_position ''a'' ''102.01'' ''1'' ''102.01''"

text \<open>
  A live configuration that halves the copied quantity, and a position of 100 units at
  price 2 and value 200: the order is for 50 units, its notional is 100.
\<close>

definition ex_cfg :: CopyTradingConfig where
  "ex_cfg = \<lparr>enabled = True, dryRun = False, positionSizeMultiplier = Fin (1 / 2),
             maxPositionSize = Fin 10000, maxTradeSize = Fin 5000, minTradeSize = Fin 1,
             maxRetryAttempts = 3, retryDelay = 1000\<rparr>"

text \<open>The same configuration with one limit tightened, or in dry-run mode.\<close>

definition ex_cfg_min200 :: CopyTradingConfig where "ex_cfg_min200 = ex_cfg\<lparr>minTradeSize := Fin 200\<rparr>"
definition ex_cfg_max50 :: CopyTradingConfig where "ex_cfg_max50 = ex_cfg\<lparr>maxTradeSize := Fin 50\<rparr>"
definition ex_cfg_pos50 :: CopyTradingConfig where "ex_cfg_pos50 = ex_cfg\<lparr>maxPositionSize := Fin 50\<rparr>"
definition ex_cfg_dry :: CopyTradingConfig where "ex_cfg_dry = ex_cfg\<lparr>dryRun := True\<rparr>"
definition ex_cfg_min29 :: CopyTradingConfig where "ex_cfg_min29 = ex_cfg\<lparr>minTradeSize := Fin 29\<rparr>"
definition ex_cfg_neg :: CopyTradingConfig where "ex_cfg_neg = ex_cfg\<lparr>maxRetryAttempts := - 1\<rparr>"

definition ex_p :: Position where "ex_p = ex_position ''tok'' ''100'' ''2'' ''200''"

text \<open>
  A position of 200 units at price 0.29: the order is for 100 units, and its notional, the
  double product of 100 and 0.29, is 28.999999999999996.
\<close>

definition ex_q29 :: Position where "ex_q29 = ex_position ''tok'' ''200'' ''0.29'' ''58''"

text \<open>A position without identifier.\<close>

definition ex_noid :: Position where "ex_noid = ex_position [] ''100'' ''2'' ''200''"

text \<open>
  Environments in which no database operation and no key derivation throws: the database
  is connected or not, and the exchange answers every order with the given function.
\<close>

definition ex_env :: "bool \<Rightarrow> (nat \<Rightarrow> string + string) \<Rightarrow> Env" where
  "ex_env db clob = \<lparr>isDatabaseConnected = (\<lambda>k. db), findOneThrows = (\<lambda>k. False),
                     saveThrows = (\<lambda>k. False), createOrDeriveApiKey = (\<lambda>k. None),
                     createAndPostOrder = clob\<rparr>"

definition ex_env_reject :: Env where "ex_env_reject = ex_env True (\<lambda>k. Inl ''boom'')"

definition ex_env_accept :: Env where "ex_env_accept = ex_env True (\<lambda>k. Inr ''order-1'')"

definition ex_env_offline :: Env where "ex_env_offline = ex_env False (\<lambda>k. Inr ''order-1'')"

text \<open>An environment in which every order and every key derivation throws.\<close>

definition ex_env_nokey :: Env where
  "ex_env_nokey = ex_env_reject\<lparr>createOrDeriveApiKey := (\<lambda>k. Some ''no key'')\<rparr>"

definition ex_world :: "ITrade list \<Rightarrow> World" where
  "ex_world ts = \<lparr>trades = ts, dbClock = 0, orders = [], keyCalls = 0, apiKeyCreated = True,
                  sleeps = [], executions = []\<rparr>"

text \<open>A success document for the position \<open>ex_p\<close> and the trader \<^verbatim>\<open>0xT\<close>.\<close>

definition ex_doc :: "side \<Rightarrow> ITrade" where
  "ex_doc sd = \<lparr>positionId = ''tok'', traderAddress = ''0xT'', marketId = ''m1'',
                outcome_doc = ''Yes'', side_doc = sd, orderId_doc = Some ''order-0'',
                dryRun_doc = False, success_doc = True, error_doc = None\<rparr>"

text \<open>A monitor for the trader \<^verbatim>\<open>0xT\<close>, a status that lists \<open>ex_p\<close> and one that lists nothing.\<close>

definition ex_mon0 :: CopyTradingMonitor where "ex_mon0 = newMonitor [''0xT'']"

definition ex_open :: TradingStatus where "ex_open = ex_status ''200'' [ex_p]"

definition ex_empty :: TradingStatus where "ex_empty = ex_status ''0'' []"

text \<open>A later status that still lists \<open>ex_p\<close>, with a total value that has moved by five percent.\<close>

definition ex_open2 :: TradingStatus where "ex_open2 = ex_status ''210'' [ex_p]"

text \<open>The monitor and the world after the first status, when the exchange accepts the buy and when it rejects it.\<close>

definition ex_after_buy :: "CopyTradingMonitor \<times> World" where
  "ex_after_buy = handleStatusUpdate ex_cfg ex_env_accept ex_mon0 (ex_world []) ex_open ''0xT''"

definition ex_after_fail :: "CopyTradingMonitor \<times> World" where
  "ex_after_fail = handleStatusUpdate ex_cfg ex_env_reject ex_mon0 (ex_world []) ex_open ''0xT''"

section \<open>Properties of change detection\<close>

subsection \<open>Position maps without repeated identifiers\<close>

lemma update_fresh: "k \<notin> fst ` set m \<Longrightarrow> AList.update k v m = m @ [(k, v)]"
  by (induction m) auto

lemma foldl_update_distinct:
  "distinct (map id_pos ps) \<Longrightarrow> id_pos ` set ps \<inter> fst ` set m = {} \<Longrightarrow>
   foldl (\<lambda>m p. AList.update (id_pos p) p m) m ps = m @ map (\<lambda>p. (id_pos p, p)) ps"
proof (induction ps arbitrary: m)
  case Nil
  then show ?case by simp
next
  case (Cons p ps)
  from Cons.prems have fresh: "id_pos p \<notin> fst ` set m" by auto
  have step: "AList.update (id_pos p) p m = m @ [(id_pos p, p)]"
    using fresh by (rule update_fresh)
  have d: "distinct (map id_pos ps)" using Cons.prems by simp
  have disj: "id_pos ` set ps \<inter> fst ` set (m @ [(id_pos p, p)]) = {}"
    using Cons.prems by auto
  show ?case using Cons.IH [OF d disj] step by simp
qed

lemma positionsMap_distinct:
  "distinct (map id_pos ps) \<Longrightarrow> positionsMap ps = map (\<lambda>p. (id_pos p, p)) ps"
  using foldl_update_distinct [of ps "[]"] by (simp add: positionsMap_def)

lemma map_of_positions:
  "distinct (map id_pos ps) \<Longrightarrow>
   map_of (map (\<lambda>p. (id_pos p, p)) ps) i = Some l \<longleftrightarrow> l \<in> set ps \<and> id_pos l = i"
proof -
  assume d: "distinct (map id_pos ps)"
  have "distinct (map fst (map (\<lambda>p. (id_pos p, p)) ps))"
    using d by (simp add: comp_def)
  then have "map_of (map (\<lambda>p. (id_pos p, p)) ps) i = Some l \<longleftrightarrow>
             (i, l) \<in> set (map (\<lambda>p. (id_pos p, p)) ps)"
    by (rule map_of_eq_Some_iff)
  then show ?thesis by auto
qed

subsection \<open>What \<^verbatim>\<open>detectChanges\<close> computes\<close>

lemma newOrResized_iff:
  "newOrResized lm cm \<longleftrightarrow>
   (\<exists>(i, c) \<in> set cm. case map_of lm i of None \<Rightarrow> True | Some l \<Rightarrow> quantityChanged c l)"
  by (induction cm) (auto split: option.splits)

lemma removed_iff: "removed cm ks \<longleftrightarrow> (\<exists>i \<in> set ks. \<not> has cm i)"
  by (induction ks) auto

lemma detectChanges_distinct:
  assumes dc: "distinct (map id_pos (openPositions cur))"
    and dl: "distinct (map id_pos (openPositions lst))"
    and ids: "id_pos ` set (openPositions cur) = id_pos ` set (openPositions lst)"
  shows "detectChanges cur (Some lst) \<longleftrightarrow>
         (\<exists>c \<in> set (openPositions cur). \<exists>l \<in> set (openPositions lst).
            id_pos c = id_pos l \<and> quantityChanged c l) \<or> totalValueChanged cur lst"
proof -
  have len: "length (openPositions cur) = length (openPositions lst)"
  proof -
    have "card (id_pos ` set (openPositions cur)) = length (openPositions cur)"
      using dc distinct_card [of "map id_pos (openPositions cur)"] by simp
    moreover have "card (id_pos ` set (openPositions lst)) = length (openPositions lst)"
      using dl distinct_card [of "map id_pos (openPositions lst)"] by simp
    ultimately show ?thesis using ids by simp
  qed
  have nr: "newOrResized (positionsMap (openPositions lst)) (positionsMap (openPositions cur)) \<longleftrightarrow>
        (\<exists>c \<in> set (openPositions cur). \<exists>l \<in> set (openPositions lst).
            id_pos c = id_pos l \<and> quantityChanged c l)" (is "?L \<longleftrightarrow> ?R")
  proof
    assume ?L
    then obtain c where c: "c \<in> set (openPositions cur)"
      and h: "case map_of (map (\<lambda>p. (id_pos p, p)) (openPositions lst)) (id_pos c) of
                None \<Rightarrow> True | Some l \<Rightarrow> quantityChanged c l"
      by (auto simp: newOrResized_iff positionsMap_distinct dc dl)
    from c ids have "id_pos c \<in> id_pos ` set (openPositions lst)" by blast
    then obtain l where l: "l \<in> set (openPositions lst)" "id_pos l = id_pos c" by auto
    then have "map_of (map (\<lambda>p. (id_pos p, p)) (openPositions lst)) (id_pos c) = Some l"
      using map_of_positions [OF dl] by simp
    with h have "quantityChanged c l" by simp
    with c l show ?R by metis
  next
    assume ?R
    then obtain c l where c: "c \<in> set (openPositions cur)" and l: "l \<in> set (openPositions lst)"
      and e: "id_pos c = id_pos l" and q: "quantityChanged c l" by auto
    have "map_of (map (\<lambda>p. (id_pos p, p)) (openPositions lst)) (id_pos c) = Some l"
      using map_of_positions [OF dl] l e by simp
    with c q show ?L
      by (auto simp: newOrResized_iff positionsMap_distinct dc dl intro!: bexI [of _ c])
  qed
  have rm: "\<not> removed (positionsMap (openPositions cur)) (map fst (positionsMap (openPositions lst)))"
    using ids by (auto simp: removed_iff positionsMap_distinct dc dl has_def)
  show ?thesis
    using len nr rm by (auto simp: detectChanges_def Let_def)
qed


lemmas ex_defs = ex_position_def ex_status_def ex_a50_def ex_a506_def ex_a200_def ex_a203_def
  ex_a202_def ex_a101_def ex_a10201_def

lemma find_distinct:
  "distinct (map f xs) \<Longrightarrow> x \<in> set xs \<Longrightarrow> find (\<lambda>y. f y = f x) xs = Some x"
  by (induction xs) (auto simp: image_iff)

lemma updatedPositions_member:
  assumes dl: "distinct (map id_pos (openPositions lst))"
    and c: "currentPos \<in> set (openPositions cur)"
    and l: "lastPos \<in> set (openPositions lst)"
    and e: "id_pos currentPos = id_pos lastPos"
  shows "(currentPos, quantity lastPos, quantity currentPos) \<in> set (updatedPositions lst cur)
         \<longleftrightarrow> quantityChanged currentPos lastPos"
proof -
  have f: "find (\<lambda>lp. id_pos lp = id_pos currentPos) (openPositions lst) = Some lastPos"
    using find_distinct [OF dl l] e by simp
  show ?thesis
  proof
    assume "(currentPos, quantity lastPos, quantity currentPos) \<in> set (updatedPositions lst cur)"
    then obtain c' where "c' \<in> set (openPositions cur)"
      and m: "(currentPos, quantity lastPos, quantity currentPos) \<in> set
           (case find (\<lambda>lp. id_pos lp = id_pos c') (openPositions lst) of
              None \<Rightarrow> []
            | Some lastPos \<Rightarrow>
                if quantityChanged c' lastPos then [(c', quantity lastPos, quantity c')] else [])"
      by (auto simp: updatedPositions_def)
    from m have "c' = currentPos" by (auto split: option.splits if_splits)
    with m f show "quantityChanged currentPos lastPos" by (auto split: if_splits)
  next
    assume "quantityChanged currentPos lastPos"
    with f c show "(currentPos, quantity lastPos, quantity currentPos) \<in> set (updatedPositions lst cur)"
      by (auto simp: updatedPositions_def intro!: bexI [of _ currentPos])
  qed
qed

lemma quantityChanged_detect:
  assumes dc: "distinct (map id_pos (openPositions cur))"
    and dl: "distinct (map id_pos (openPositions lst))"
    and c: "currentPos \<in> set (openPositions cur)"
    and l: "lastPos \<in> set (openPositions lst)"
    and e: "id_pos currentPos = id_pos lastPos"
    and q: "quantityChanged currentPos lastPos"
  shows "detectChanges cur (Some lst)"
proof -
  have "map_of (map (\<lambda>p. (id_pos p, p)) (openPositions lst)) (id_pos currentPos) = Some lastPos"
    using map_of_positions [OF dl] l e by simp
  with c q have "newOrResized (positionsMap (openPositions lst)) (positionsMap (openPositions cur))"
    by (auto simp: newOrResized_iff positionsMap_distinct dc dl intro!: bexI [of _ currentPos])
  then show ?thesis by (simp add: detectChanges_def Let_def)
qed


text \<open>
  C6 (as amended). Take a position found in both snapshots, none of which lists an
  identifier twice. The position is reported in \<^verbatim>\<open>updatedPositions\<close> if and only if
  \<^verbatim>\<open>Math.abs(newQty - oldQty) > Math.max(1, oldQty * 0.01)\<close> holds of the parsed quantities,
  each operation being that of double arithmetic, and then \<^verbatim>\<open>detectChanges\<close> returns
  \<^verbatim>\<open>true\<close>.
\<close>

theorem resize_threshold:
  assumes dc: "distinct (map id_pos (openPositions cur))"
    and dl: "distinct (map id_pos (openPositions lst))"
    and c: "currentPos \<in> set (openPositions cur)"
    and l: "lastPos \<in> set (openPositions lst)"
    and e: "id_pos currentPos = id_pos lastPos"
  shows "((currentPos, quantity lastPos, quantity currentPos) \<in> set (updatedPositions lst cur)
            \<longleftrightarrow> js_gt (js_abs (js_sub (parseFloat (quantity currentPos)) (parseFloat (quantity lastPos))))
                      (js_max (Fin 1) (js_mul (parseFloat (quantity lastPos)) hundredth)))
       \<and> (js_gt (js_abs (js_sub (parseFloat (quantity currentPos)) (parseFloat (quantity lastPos))))
                 (js_max (Fin 1) (js_mul (parseFloat (quantity lastPos)) hundredth))
            \<longrightarrow> detectChanges cur (Some lst))"
proof -
  have q: "quantityChanged currentPos lastPos \<longleftrightarrow>
           js_gt (js_abs (js_sub (parseFloat (quantity currentPos)) (parseFloat (quantity lastPos))))
                 (js_max (Fin 1) (js_mul (parseFloat (quantity lastPos)) hundredth))"
    by (simp add: quantityChanged_def Let_def)
  have m: "(currentPos, quantity lastPos, quantity currentPos) \<in> set (updatedPositions lst cur)
           \<longleftrightarrow> quantityChanged currentPos lastPos"
    using dl c l e by (rule updatedPositions_member)
  have d: "quantityChanged currentPos lastPos \<Longrightarrow> detectChanges cur (Some lst)"
    using dc dl c l e by (rule quantityChanged_detect)
  show ?thesis using q m d by blast
qed

text \<open>
  The instances: from 200 to 203 the change 3 exceeds the threshold 2 and is reported;
  from 200 to 202 the change equals the threshold and is not.
\<close>

theorem resize_threshold_witness:
  "distinct (map id_pos (openPositions (ex_status ''200'' [ex_a203])))
   \<and> distinct (map id_pos (openPositions (ex_status ''200'' [ex_a202])))
   \<and> distinct (map id_pos (openPositions (ex_status ''200'' [ex_a200])))
   \<and> id_pos ex_a203 = id_pos ex_a200 \<and> id_pos ex_a202 = id_pos ex_a200
   \<and> parseFloat (quantity ex_a200) = Fin 200
   \<and> parseFloat (quantity ex_a203) = Fin 203
   \<and> parseFloat (quantity ex_a202) = Fin 202
   \<and> js_mul (Fin 200) hundredth = Fin 2
   \<and> (ex_a203, quantity ex_a200, quantity ex_a203) \<in>
        set (updatedPositions (ex_status ''200'' [ex_a200]) (ex_status ''200'' [ex_a203]))
   \<and> detectChanges (ex_status ''200'' [ex_a203]) (Some (ex_status ''200'' [ex_a200]))
   \<and> (ex_a202, quantity ex_a200, quantity ex_a202) \<notin>
        set (updatedPositions (ex_status ''200'' [ex_a200]) (ex_status ''200'' [ex_a202]))"
proof -
  have d: "distinct (map id_pos (openPositions (ex_status ''200'' [ex_a203])))"
    "distinct (map id_pos (openPositions (ex_status ''200'' [ex_a202])))"
    "distinct (map id_pos (openPositions (ex_status ''200'' [ex_a200])))"
    by (simp_all add: ex_defs)
  have m: "ex_a203 \<in> set (openPositions (ex_status ''200'' [ex_a203]))"
    "ex_a202 \<in> set (openPositions (ex_status ''200'' [ex_a202]))"
    "ex_a200 \<in> set (openPositions (ex_status ''200'' [ex_a200]))"
    by (simp_all add: ex_defs)
  have e: "id_pos ex_a203 = id_pos ex_a200" "id_pos ex_a202 = id_pos ex_a200"
    by (simp_all add: ex_defs)
  have p: "parseFloat (quantity ex_a200) = Fin 200" "parseFloat (quantity ex_a203) = Fin 203"
    "parseFloat (quantity ex_a202) = Fin 202" "js_mul (Fin 200) hundredth = Fin 2"
    by code_simp+
  have t3: "js_gt (js_abs (js_sub (parseFloat (quantity ex_a203)) (parseFloat (quantity ex_a200))))
                  (js_max (Fin 1) (js_mul (parseFloat (quantity ex_a200)) hundredth))"
    by code_simp
  have t2: "\<not> js_gt (js_abs (js_sub (parseFloat (quantity ex_a202)) (parseFloat (quantity ex_a200))))
                    (js_max (Fin 1) (js_mul (parseFloat (quantity ex_a200)) hundredth))"
    by code_simp
  have above: "(ex_a203, quantity ex_a200, quantity ex_a203) \<in>
        set (updatedPositions (ex_status ''200'' [ex_a200]) (ex_status ''200'' [ex_a203]))
      \<and> detectChanges (ex_status ''200'' [ex_a203]) (Some (ex_status ''200'' [ex_a200]))"
    using resize_threshold [OF d(1) d(3) m(1) m(3) e(1)] t3 by blast
  have exact: "(ex_a202, quantity ex_a200, quantity ex_a202) \<notin>
        set (updatedPositions (ex_status ''200'' [ex_a200]) (ex_status ''200'' [ex_a202]))"
    using resize_threshold [OF d(2) d(3) m(2) m(3) e(2)] t2 by blast
  show ?thesis using d e p above exact by simp
qed

text \<open>
  C6 as stated fails in both of its particular cases. The quantity string \<^verbatim>\<open>'50.6'\<close> is
  \<^verbatim>\<open>'50'\<close> plus one percent plus a tenth: the change stays under the floor of 1 and nothing
  is reported. The quantity string \<^verbatim>\<open>'102.01'\<close> is \<^verbatim>\<open>'101'\<close> plus exactly one percent: in
  double arithmetic the difference is 1.0100000000000051, the threshold is 1.01, and the
  position is reported.
\<close>

theorem resize_threshold_counterexample:
  "strDecimal (quantity ex_a50) = Fin 50
   \<and> strDecimal (quantity ex_a506) = Fin (50 + 50 * (1 / 100) + 1 / 10)
   \<and> updatedPositions (ex_status ''50'' [ex_a50]) (ex_status ''50'' [ex_a506]) = []
   \<and> \<not> detectChanges (ex_status ''50'' [ex_a506]) (Some (ex_status ''50'' [ex_a50]))
   \<and> strDecimal (quantity ex_a101) = Fin 101
   \<and> strDecimal (quantity ex_a10201) = Fin (101 + 101 * (1 / 100))
   \<and> updatedPositions (ex_status ''50'' [ex_a101]) (ex_status ''50'' [ex_a10201])
       = [(ex_a10201, ''101'', ''102.01'')]
   \<and> detectChanges (ex_status ''50'' [ex_a10201]) (Some (ex_status ''50'' [ex_a101]))"
  by code_simp

text \<open>
  C7 (as amended). For two statuses that list the same identifiers, none twice, and whose
  quantity changes all stay at or below the threshold, \<^verbatim>\<open>detectChanges\<close> returns the result
  of its last test,
  \<^verbatim>\<open>Math.abs(currentValue - lastValue) / Math.max(lastValue, 0.01) > 0.01\<close> on the parsed
  aggregate values, each operation being that of double arithmetic.
\<close>

theorem drift_threshold:
  assumes dc: "distinct (map id_pos (openPositions cur))"
    and dl: "distinct (map id_pos (openPositions lst))"
    and ids: "id_pos ` set (openPositions cur) = id_pos ` set (openPositions lst)"
    and small: "\<forall>c \<in> set (openPositions cur). \<forall>l \<in> set (openPositions lst).
                  id_pos c = id_pos l \<longrightarrow> \<not> quantityChanged c l"
  shows "detectChanges cur (Some lst) \<longleftrightarrow>
         js_gt (js_div (js_abs (js_sub (parseFloat (totalValue cur)) (parseFloat (totalValue lst))))
                       (js_max (parseFloat (totalValue lst)) hundredth))
               hundredth"
proof -
  have "detectChanges cur (Some lst) = totalValueChanged cur lst"
    using detectChanges_distinct [OF dc dl ids] small by blast
  then show ?thesis by (simp add: totalValueChanged_def Let_def)
qed

text \<open>
  The instances: with the quantity going from 50 to 50.6, an aggregate value that goes
  from 100 to 100.5 is no change, and one that goes from 100 to 102 is a change.
\<close>

theorem drift_threshold_witness:
  "distinct (map id_pos (openPositions (ex_status ''100.5'' [ex_a506])))
   \<and> distinct (map id_pos (openPositions (ex_status ''102'' [ex_a506])))
   \<and> distinct (map id_pos (openPositions (ex_status ''100'' [ex_a50])))
   \<and> id_pos ` set (openPositions (ex_status ''100.5'' [ex_a506])) = id_pos ` set (openPositions (ex_status ''100'' [ex_a50]))
   \<and> id_pos ` set (openPositions (ex_status ''102'' [ex_a506])) = id_pos ` set (openPositions (ex_status ''100'' [ex_a50]))
   \<and> \<not> quantityChanged ex_a506 ex_a50
   \<and> \<not> detectChanges (ex_status ''100.5'' [ex_a506]) (Some (ex_status ''100'' [ex_a50]))
   \<and> detectChanges (ex_status ''102'' [ex_a506]) (Some (ex_status ''100'' [ex_a50]))"
proof -
  have h1: "distinct (map id_pos (openPositions (ex_status ''100.5'' [ex_a506])))"
    and h1': "distinct (map id_pos (openPositions (ex_status ''102'' [ex_a506])))"
    and h2: "distinct (map id_pos (openPositions (ex_status ''100'' [ex_a50])))"
    and h3: "id_pos ` set (openPositions (ex_status ''100.5'' [ex_a506])) = id_pos ` set (openPositions (ex_status ''100'' [ex_a50]))"
    and h3': "id_pos ` set (openPositions (ex_status ''102'' [ex_a506])) = id_pos ` set (openPositions (ex_status ''100'' [ex_a50]))"
    by (simp_all add: ex_defs)
  have q: "\<not> quantityChanged ex_a506 ex_a50"
    by code_simp
  have h4: "\<forall>c \<in> set (openPositions (ex_status ''100.5'' [ex_a506])).
            \<forall>l \<in> set (openPositions (ex_status ''100'' [ex_a50])).
              id_pos c = id_pos l \<longrightarrow> \<not> quantityChanged c l"
    and h4': "\<forall>c \<in> set (openPositions (ex_status ''102'' [ex_a506])).
            \<forall>l \<in> set (openPositions (ex_status ''100'' [ex_a50])).
              id_pos c = id_pos l \<longrightarrow> \<not> quantityChanged c l"
    using q by (simp_all add: ex_status_def)
  have t: "\<not> js_gt (js_div (js_abs (js_sub (parseFloat (totalValue (ex_status ''100.5'' [ex_a506])))
                                              (parseFloat (totalValue (ex_status ''100'' [ex_a50])))))
                            (js_max (parseFloat (totalValue (ex_status ''100'' [ex_a50]))) hundredth))
                    hundredth"
    by code_simp
  have t': "js_gt (js_div (js_abs (js_sub (parseFloat (totalValue (ex_status ''102'' [ex_a506])))
                                           (parseFloat (totalValue (ex_status ''100'' [ex_a50])))))
                          (js_max (parseFloat (totalValue (ex_status ''100'' [ex_a50]))) hundredth))
                  hundredth"
    by code_simp
  have n: "\<not> detectChanges (ex_status ''100.5'' [ex_a506]) (Some (ex_status ''100'' [ex_a50]))"
    using drift_threshold [OF h1 h2 h3 h4] t by blast
  have y: "detectChanges (ex_status ''102'' [ex_a506]) (Some (ex_status ''100'' [ex_a50]))"
    using drift_threshold [OF h1' h2 h3' h4'] t' by blast
  show ?thesis
    using h1 h1' h2 h3 h3' q n y by simp
qed

text \<open>
  C7 as stated fails: the same position in both statuses and an aggregate value that
  goes from 100 to 200 make \<^verbatim>\<open>detectChanges\<close> return \<^verbatim>\<open>true\<close>.
\<close>

theorem drift_counterexample:
  "map id_pos (openPositions (ex_status ''200'' [ex_a50])) = map id_pos (openPositions (ex_status ''100'' [ex_a50]))
   \<and> \<not> quantityChanged ex_a50 ex_a50
   \<and> detectChanges (ex_status ''200'' [ex_a50]) (Some (ex_status ''100'' [ex_a50]))"
  by code_simp

text \<open>
  Double arithmetic at work. The string \<^verbatim>\<open>'101.000000000000001'\<close> parses to 101, and
  \<^verbatim>\<open>'1e309'\<close> to \<open>Infinity\<close>. The product of 100 and 0.29 is below 29, and that of 40 and
  0.07 is above 2.8. An aggregate value that goes from 7 to 7.07 has moved by more than
  \<^verbatim>\<open>0.01\<close>, one that goes from 100 to 101 has not.
\<close>

lemma double_arithmetic:
  "parseFloat ''101.000000000000001'' = Fin 101
   \<and> parseFloat ''1e309'' = PosInf
   \<and> parseFloat ''-1e309'' = NegInf
   \<and> parseFloat ''0.5'' = Fin (1 / 2)
   \<and> parseFloat ''  12.5e-1x'' = Fin (5 / 4)
   \<and> parseFloat ''abc'' = NaN
   \<and> parseFloat ''0.29'' = Fin (5224175567749775 / 2 ^ 54)
   \<and> hundredth = Fin (5764607523034235 / 2 ^ 59)
   \<and> js_lt (js_mul (Fin 100) (parseFloat ''0.29'')) (Fin 29)
   \<and> js_gt (js_mul (Fin 40) (parseFloat ''0.07'')) (parseFloat ''2.8'')
   \<and> totalValueChanged (ex_status ''7.07'' []) (ex_status ''7'' [])
   \<and> \<not> totalValueChanged (ex_status ''101'' []) (ex_status ''100'' [])
   \<and> \<not> quantityChanged (ex_position ''a'' ''101.000000000000001'' ''1'' ''1'')
                         (ex_position ''a'' ''100'' ''1'' ''1'')"
  by code_simp

section \<open>Properties of trade execution\<close>

declare executeBuy.simps [simp del] executeSell.simps [simp del]

subsection \<open>Retries against an exchange that always throws\<close>

lemma dup_clock: "snd (isDuplicateTrade env w i t sd) = w\<lparr>dbClock := dbClock w + 1\<rparr>"
  by (simp add: isDuplicateTrade_def Let_def)

lemma save_fields [simp]:
  "orders (saveTrade env w r t) = orders w"
  "sleeps (saveTrade env w r t) = sleeps w"
  "executions (saveTrade env w r t) = executions w"
  "apiKeyCreated (saveTrade env w r t) = apiKeyCreated w"
  "keyCalls (saveTrade env w r t) = keyCalls w"
  "dbClock (saveTrade env w r t) = dbClock w + 1"
  by (simp_all add: saveTrade_def Let_def)

lemma save_failed [simp]: "\<not> success r \<Longrightarrow> trades (saveTrade env w r t) = trades w"
  by (simp add: saveTrade_def Let_def)

lemma dup_no_doc:
  "\<not> successDoc i t sd (trades w) \<Longrightarrow> isDuplicateTrade env w i t sd = (False, w\<lparr>dbClock := dbClock w + 1\<rparr>)"
  by (simp add: isDuplicateTrade_def successDoc_def Let_def)

lemma executeBuyTry_submit:
  assumes nd: "isDuplicateTrade env w (id_pos pos) trader Buy = (False, w1)"
    and tok: "id_pos pos \<noteq> []"
    and ok: "passesLimits cfg pos"
    and live: "\<not> dryRun cfg"
    and key: "apiKeyCreated w"
  shows "executeBuyTry cfg env w pos trader result =
     (case createAndPostOrder env (length (orders w)) of
        Inl m \<Rightarrow> Inl (m, w\<lparr>dbClock := dbClock w + 1, orders := orders w @ [buyOrder cfg pos]\<rparr>)
      | Inr oid \<Rightarrow>
          Inr (result\<lparr>success := True, orderId := Some oid,
                      executedQuantity := Some (size_ord (buyOrder cfg pos)),
                      executedPrice := Some (price_ord (buyOrder cfg pos))\<rparr>,
               saveTrade env (w\<lparr>dbClock := dbClock w + 1, orders := orders w @ [buyOrder cfg pos]\<rparr>)
                 (result\<lparr>success := True, orderId := Some oid,
                      executedQuantity := Some (size_ord (buyOrder cfg pos)),
                      executedPrice := Some (price_ord (buyOrder cfg pos))\<rparr>) trader))"
proof -
  have w1: "w1 = w\<lparr>dbClock := dbClock w + 1\<rparr>"
    using nd dup_clock [of env w "id_pos pos" trader Buy] by simp
  show ?thesis
    using nd tok ok live key
    by (simp add: executeBuyTry_def w1 passesLimits_def Let_def buyOrder_def split: sum.splits)
qed

lemma executeSellTry_submit:
  assumes tok: "id_pos pos \<noteq> []"
    and live: "\<not> dryRun cfg"
    and key: "apiKeyCreated w"
  shows "executeSellTry cfg env w pos trader result =
     (case createAndPostOrder env (length (orders w)) of
        Inl m \<Rightarrow> Inl (m, w\<lparr>orders := orders w @ [sellOrder cfg pos]\<rparr>)
      | Inr oid \<Rightarrow>
          Inr (result\<lparr>success := True, orderId := Some oid,
                      executedQuantity := Some (size_ord (sellOrder cfg pos)),
                      executedPrice := Some (price_ord (sellOrder cfg pos))\<rparr>,
               saveTrade env (w\<lparr>orders := orders w @ [sellOrder cfg pos]\<rparr>)
                 (result\<lparr>success := True, orderId := Some oid,
                      executedQuantity := Some (size_ord (sellOrder cfg pos)),
                      executedPrice := Some (price_ord (sellOrder cfg pos))\<rparr>) trader))"
  using tok live key
  by (simp add: executeSellTry_def Let_def sellOrder_def split: sum.splits)

lemma waits_Suc: "waits before (Suc n) delay = (before + 1, delay) # waits (before + 1) n delay"
  by (simp add: waits_def map_upt_Suc del: upt_Suc)

lemma executeBuy_all_throw:
  "id_pos pos \<noteq> [] \<Longrightarrow> passesLimits cfg pos \<Longrightarrow> \<not> dryRun cfg \<Longrightarrow>
   \<forall>k. \<exists>m. createAndPostOrder env k = Inl m \<Longrightarrow>
   apiKeyCreated w \<Longrightarrow> \<not> successDoc (id_pos pos) trader Buy (trades w) \<Longrightarrow>
         int rc \<le> maxRetryAttempts cfg \<Longrightarrow>
         (case executeBuy cfg env w pos trader rc of (r, w') \<Rightarrow>
            orders w' = orders w @ replicate (nat (maxRetryAttempts cfg - int rc) + 1) (buyOrder cfg pos)
          \<and> sleeps w' = sleeps w @ waits (length (orders w)) (nat (maxRetryAttempts cfg - int rc)) (retryDelay cfg)
          \<and> \<not> success r \<and> trades w' = trades w \<and> int (retryCount r) = maxRetryAttempts cfg
          \<and> (\<exists>m. createAndPostOrder env (length (orders w) + nat (maxRetryAttempts cfg - int rc)) = Inl m
                 \<and> error r = Some (Msg (if m = [] then ''Unknown error'' else m))))"
proof (induction cfg env w pos trader rc rule: executeBuy.induct)
  case (1 cfg env w pos trader rc)
  let ?res = "\<lparr>success = False, position = pos, orderId = None,
                executedQuantity = None, executedPrice = None, error = None,
                dryRun_res = dryRun cfg, retryCount = rc\<rparr>"
  let ?w3 = "w\<lparr>dbClock := dbClock w + 1, orders := orders w @ [buyOrder cfg pos]\<rparr>"
  note tok = "1.prems"(1) and ok = "1.prems"(2) and live = "1.prems"(3) and throws = "1.prems"(4)
    and key = "1.prems"(5) and nodoc = "1.prems"(6) and le = "1.prems"(7)
  from throws obtain m where m: "createAndPostOrder env (length (orders w)) = Inl m" by blast
  have nd: "isDuplicateTrade env w (id_pos pos) trader Buy = (False, w\<lparr>dbClock := dbClock w + 1\<rparr>)"
    using nodoc by (rule dup_no_doc)
  have body: "executeBuyTry cfg env w pos trader ?res = Inl (m, ?w3)"
    using executeBuyTry_submit [OF nd tok ok live key, of ?res] m by simp
  show ?case
  proof (cases "int rc < maxRetryAttempts cfg")
    case True
    let ?w4 = "?w3\<lparr>sleeps := sleeps ?w3 @ [(length (orders ?w3), retryDelay cfg)]\<rparr>"
    have ih: "case executeBuy cfg env ?w4 pos trader (rc + 1) of (r, w') \<Rightarrow>
            orders w' = orders ?w4 @ replicate (nat (maxRetryAttempts cfg - int (rc + 1)) + 1) (buyOrder cfg pos)
          \<and> sleeps w' = sleeps ?w4 @ waits (length (orders ?w4)) (nat (maxRetryAttempts cfg - int (rc + 1))) (retryDelay cfg)
          \<and> \<not> success r \<and> trades w' = trades ?w4 \<and> int (retryCount r) = maxRetryAttempts cfg
          \<and> (\<exists>m. createAndPostOrder env (length (orders ?w4) + nat (maxRetryAttempts cfg - int (rc + 1))) = Inl m
                 \<and> error r = Some (Msg (if m = [] then ''Unknown error'' else m)))"
      using "1.IH" [OF refl body refl True] "1.prems" True by simp
    have unf: "executeBuy cfg env w pos trader rc = executeBuy cfg env ?w4 pos trader (rc + 1)"
      by (subst executeBuy.simps) (simp add: body True)
    have n1: "nat (maxRetryAttempts cfg - int rc) = Suc (nat (maxRetryAttempts cfg - int (rc + 1)))"
      using True by simp
    have idx: "length (orders ?w4) + nat (maxRetryAttempts cfg - int (rc + 1))
               = length (orders w) + nat (maxRetryAttempts cfg - int rc)"
      using True by simp
    show ?thesis
      using ih unfolding unf n1 idx [symmetric]
      by (auto simp: replicate_append_same waits_Suc split: prod.splits)
  next
    case False
    with le have eq: "maxRetryAttempts cfg = int rc" by simp
    have unf: "executeBuy cfg env w pos trader rc =
          (?res\<lparr>error := Some (Msg (if m = [] then ''Unknown error'' else m))\<rparr>,
           saveTrade env ?w3 (?res\<lparr>error := Some (Msg (if m = [] then ''Unknown error'' else m))\<rparr>) trader)"
      by (subst executeBuy.simps) (simp add: body False Let_def)
    show ?thesis
      unfolding unf using m eq by (simp add: waits_def)
  qed
qed

lemma executeSell_all_throw:
  "id_pos pos \<noteq> [] \<Longrightarrow> \<not> dryRun cfg \<Longrightarrow>
   \<forall>k. \<exists>m. createAndPostOrder env k = Inl m \<Longrightarrow>
   apiKeyCreated w \<Longrightarrow> int rc \<le> maxRetryAttempts cfg \<Longrightarrow>
         (case executeSell cfg env w pos trader rc of (r, w') \<Rightarrow>
            orders w' = orders w @ replicate (nat (maxRetryAttempts cfg - int rc) + 1) (sellOrder cfg pos)
          \<and> sleeps w' = sleeps w @ waits (length (orders w)) (nat (maxRetryAttempts cfg - int rc)) (retryDelay cfg)
          \<and> \<not> success r \<and> trades w' = trades w \<and> int (retryCount r) = maxRetryAttempts cfg
          \<and> (\<exists>m. createAndPostOrder env (length (orders w) + nat (maxRetryAttempts cfg - int rc)) = Inl m
                 \<and> error r = Some (Msg (if m = [] then ''Unknown error'' else m))))"
proof (induction cfg env w pos trader rc rule: executeSell.induct)
  case (1 cfg env w pos trader rc)
  note tok = "1.prems"(1) and live = "1.prems"(2) and throws = "1.prems"(3)
    and key = "1.prems"(4) and le = "1.prems"(5)
  let ?res = "\<lparr>success = False, position = pos, orderId = None,
                executedQuantity = None, executedPrice = None, error = None,
                dryRun_res = dryRun cfg, retryCount = rc\<rparr>"
  let ?w3 = "w\<lparr>orders := orders w @ [sellOrder cfg pos]\<rparr>"
  from throws obtain m where m: "createAndPostOrder env (length (orders w)) = Inl m" by blast
  have body: "executeSellTry cfg env w pos trader ?res = Inl (m, ?w3)"
    using executeSellTry_submit [OF tok live key, of env trader ?res] m by simp
  show ?case
  proof (cases "int rc < maxRetryAttempts cfg")
    case True
    let ?w4 = "?w3\<lparr>sleeps := sleeps ?w3 @ [(length (orders ?w3), retryDelay cfg)]\<rparr>"
    have ih: "case executeSell cfg env ?w4 pos trader (rc + 1) of (r, w') \<Rightarrow>
            orders w' = orders ?w4 @ replicate (nat (maxRetryAttempts cfg - int (rc + 1)) + 1) (sellOrder cfg pos)
          \<and> sleeps w' = sleeps ?w4 @ waits (length (orders ?w4)) (nat (maxRetryAttempts cfg - int (rc + 1))) (retryDelay cfg)
          \<and> \<not> success r \<and> trades w' = trades ?w4 \<and> int (retryCount r) = maxRetryAttempts cfg
          \<and> (\<exists>m. createAndPostOrder env (length (orders ?w4) + nat (maxRetryAttempts cfg - int (rc + 1))) = Inl m
                 \<and> error r = Some (Msg (if m = [] then ''Unknown error'' else m)))"
      using "1.IH" [OF refl body refl True] "1.prems" True by simp
    have unf: "executeSell cfg env w pos trader rc = executeSell cfg env ?w4 pos trader (rc + 1)"
      by (subst executeSell.simps) (simp add: body True)
    have n1: "nat (maxRetryAttempts cfg - int rc) = Suc (nat (maxRetryAttempts cfg - int (rc + 1)))"
      using True by simp
    have idx: "length (orders ?w4) + nat (maxRetryAttempts cfg - int (rc + 1))
               = length (orders w) + nat (maxRetryAttempts cfg - int rc)"
      using True by simp
    show ?thesis
      using ih unfolding unf n1 idx [symmetric]
      by (auto simp: replicate_append_same waits_Suc split: prod.splits)
  next
    case False
    with le have eq: "maxRetryAttempts cfg = int rc" by simp
    have unf: "executeSell cfg env w pos trader rc =
          (?res\<lparr>error := Some (Msg (if m = [] then ''Unknown error'' else m))\<rparr>,
           saveTrade env ?w3 (?res\<lparr>error := Some (Msg (if m = [] then ''Unknown error'' else m))\<rparr>) trader)"
      by (subst executeSell.simps) (simp add: body False Let_def)
    show ?thesis
      unfolding unf using m eq by (simp add: waits_def)
  qed
qed

text \<open>
  A first attempt that has to derive the API key, and derives it, goes on like one that
  finds the key.
\<close>

lemma executeBuyTry_key:
  assumes tok: "id_pos pos \<noteq> []"
    and ok: "passesLimits cfg pos"
    and live: "\<not> dryRun cfg"
    and nodoc: "\<not> successDoc (id_pos pos) trader Buy (trades w)"
    and nokey: "\<not> apiKeyCreated w"
    and derive: "createOrDeriveApiKey env (keyCalls w) = None"
  shows "executeBuyTry cfg env w pos trader result = executeBuyTry cfg env (withKey w) pos trader result"
proof (cases w)
  case (fields ts clock os calls key ss es)
  show ?thesis
    using tok ok live nodoc nokey derive unfolding fields
    by (simp add: executeBuyTry_def isDuplicateTrade_def successDoc_def passesLimits_def Let_def
        initialize_def withKey_def split: sum.splits)
qed

lemma executeBuy_key:
  assumes tok: "id_pos pos \<noteq> []"
    and ok: "passesLimits cfg pos"
    and live: "\<not> dryRun cfg"
    and nodoc: "\<not> successDoc (id_pos pos) trader Buy (trades w)"
    and nokey: "\<not> apiKeyCreated w"
    and derive: "createOrDeriveApiKey env (keyCalls w) = None"
  shows "executeBuy cfg env w pos trader rc = executeBuy cfg env (withKey w) pos trader rc"
  by (subst executeBuy.simps, subst (2) executeBuy.simps)
     (simp add: executeBuyTry_key [OF tok ok live nodoc nokey derive])

lemma executeSellTry_key:
  assumes tok: "id_pos pos \<noteq> []"
    and live: "\<not> dryRun cfg"
    and nokey: "\<not> apiKeyCreated w"
    and derive: "createOrDeriveApiKey env (keyCalls w) = None"
  shows "executeSellTry cfg env w pos trader result = executeSellTry cfg env (withKey w) pos trader result"
proof (cases w)
  case (fields ts clock os calls key ss es)
  show ?thesis
    using tok live nokey derive unfolding fields
    by (simp add: executeSellTry_def Let_def initialize_def withKey_def split: sum.splits)
qed

lemma executeSell_key:
  assumes tok: "id_pos pos \<noteq> []"
    and live: "\<not> dryRun cfg"
    and nokey: "\<not> apiKeyCreated w"
    and derive: "createOrDeriveApiKey env (keyCalls w) = None"
  shows "executeSell cfg env w pos trader rc = executeSell cfg env (withKey w) pos trader rc"
  by (subst executeSell.simps, subst (2) executeSell.simps)
     (simp add: executeSellTry_key [OF tok live nokey derive])

lemma executeBuy_all_throw_key:
  assumes tok: "id_pos pos \<noteq> []"
    and ok: "passesLimits cfg pos"
    and live: "\<not> dryRun cfg"
    and throws: "\<forall>k. \<exists>m. createAndPostOrder env k = Inl m"
    and key: "apiKeyCreated w \<or> createOrDeriveApiKey env (keyCalls w) = None"
    and nodoc: "\<not> successDoc (id_pos pos) trader Buy (trades w)"
    and le: "int rc \<le> maxRetryAttempts cfg"
  shows "case executeBuy cfg env w pos trader rc of (r, w') \<Rightarrow>
            orders w' = orders w @ replicate (nat (maxRetryAttempts cfg - int rc) + 1) (buyOrder cfg pos)
          \<and> sleeps w' = sleeps w @ waits (length (orders w)) (nat (maxRetryAttempts cfg - int rc)) (retryDelay cfg)
          \<and> \<not> success r \<and> trades w' = trades w \<and> int (retryCount r) = maxRetryAttempts cfg
          \<and> (\<exists>m. createAndPostOrder env (length (orders w) + nat (maxRetryAttempts cfg - int rc)) = Inl m
                 \<and> error r = Some (Msg (if m = [] then ''Unknown error'' else m)))"
proof (cases "apiKeyCreated w")
  case True
  with tok ok live throws nodoc le show ?thesis by (intro executeBuy_all_throw)
next
  case False
  with key have derive: "createOrDeriveApiKey env (keyCalls w) = None" by simp
  have e: "executeBuy cfg env w pos trader rc = executeBuy cfg env (withKey w) pos trader rc"
    using tok ok live nodoc False derive by (rule executeBuy_key)
  have k: "apiKeyCreated (withKey w)" and nodoc': "\<not> successDoc (id_pos pos) trader Buy (trades (withKey w))"
    using nodoc by (simp_all add: withKey_def)
  have f: "orders (withKey w) = orders w" "sleeps (withKey w) = sleeps w" "trades (withKey w) = trades w"
    by (simp_all add: withKey_def)
  show ?thesis
    using executeBuy_all_throw [OF tok ok live throws k nodoc' le] unfolding e f .
qed

lemma executeSell_all_throw_key:
  assumes tok: "id_pos pos \<noteq> []"
    and live: "\<not> dryRun cfg"
    and throws: "\<forall>k. \<exists>m. createAndPostOrder env k = Inl m"
    and key: "apiKeyCreated w \<or> createOrDeriveApiKey env (keyCalls w) = None"
    and le: "int rc \<le> maxRetryAttempts cfg"
  shows "case executeSell cfg env w pos trader rc of (r, w') \<Rightarrow>
            orders w' = orders w @ replicate (nat (maxRetryAttempts cfg - int rc) + 1) (sellOrder cfg pos)
          \<and> sleeps w' = sleeps w @ waits (length (orders w)) (nat (maxRetryAttempts cfg - int rc)) (retryDelay cfg)
          \<and> \<not> success r \<and> trades w' = trades w \<and> int (retryCount r) = maxRetryAttempts cfg
          \<and> (\<exists>m. createAndPostOrder env (length (orders w) + nat (maxRetryAttempts cfg - int rc)) = Inl m
                 \<and> error r = Some (Msg (if m = [] then ''Unknown error'' else m)))"
proof (cases "apiKeyCreated w")
  case True
  with tok live throws le show ?thesis by (intro executeSell_all_throw)
next
  case False
  with key have derive: "createOrDeriveApiKey env (keyCalls w) = None" by simp
  have e: "executeSell cfg env w pos trader rc = executeSell cfg env (withKey w) pos trader rc"
    using tok live False derive by (rule executeSell_key)
  have k: "apiKeyCreated (withKey w)"
    by (simp add: withKey_def)
  have f: "orders (withKey w) = orders w" "sleeps (withKey w) = sleeps w" "trades (withKey w) = trades w"
    by (simp_all add: withKey_def)
  show ?thesis
    using executeSell_all_throw [OF tok live throws k le] unfolding e f .
qed

text \<open>
  C3 (as amended). Take a position with an identifier, a live configuration with
  \<^verbatim>\<open>maxRetryAttempts = n\<close>, \<open>n\<close> not negative, and a world in which the API key exists or
  its derivation succeeds. If every submission throws, then \<^verbatim>\<open>executeSell\<close> submits exactly
  \<open>n + 1\<close> orders, waits \<^verbatim>\<open>retryDelay\<close> after each of the first \<open>n\<close> of them, and so between
  consecutive attempts, and returns a failure that carries the message of the last error.
  \<^verbatim>\<open>executeBuy\<close> does the same when the position passes the limits and the collection holds
  no success document for the buy.
\<close>

theorem retry_bound:
  assumes tok: "id_pos pos \<noteq> []"
    and live: "\<not> dryRun cfg"
    and key: "apiKeyCreated w \<or> createOrDeriveApiKey env (keyCalls w) = None"
    and n: "maxRetryAttempts cfg = int n"
    and throws: "\<forall>k. \<exists>m. createAndPostOrder env k = Inl m"
  shows "orders (snd (executeSell cfg env w pos trader 0)) = orders w @ replicate (n + 1) (sellOrder cfg pos)
       \<and> sleeps (snd (executeSell cfg env w pos trader 0))
           = sleeps w @ waits (length (orders w)) n (retryDelay cfg)
       \<and> \<not> success (fst (executeSell cfg env w pos trader 0))
       \<and> (\<exists>m. createAndPostOrder env (length (orders w) + n) = Inl m
              \<and> error (fst (executeSell cfg env w pos trader 0))
                  = Some (Msg (if m = [] then ''Unknown error'' else m)))
       \<and> (passesLimits cfg pos \<and> \<not> successDoc (id_pos pos) trader Buy (trades w) \<longrightarrow>
            orders (snd (executeBuy cfg env w pos trader 0)) = orders w @ replicate (n + 1) (buyOrder cfg pos)
          \<and> sleeps (snd (executeBuy cfg env w pos trader 0))
              = sleeps w @ waits (length (orders w)) n (retryDelay cfg)
          \<and> \<not> success (fst (executeBuy cfg env w pos trader 0))
          \<and> (\<exists>m. createAndPostOrder env (length (orders w) + n) = Inl m
                 \<and> error (fst (executeBuy cfg env w pos trader 0))
                     = Some (Msg (if m = [] then ''Unknown error'' else m))))"
proof -
  have le: "int 0 \<le> maxRetryAttempts cfg" using n by simp
  have s: "case executeSell cfg env w pos trader 0 of (r, w') \<Rightarrow>
            orders w' = orders w @ replicate (nat (maxRetryAttempts cfg - int 0) + 1) (sellOrder cfg pos)
          \<and> sleeps w' = sleeps w @ waits (length (orders w)) (nat (maxRetryAttempts cfg - int 0)) (retryDelay cfg)
          \<and> \<not> success r \<and> trades w' = trades w \<and> int (retryCount r) = maxRetryAttempts cfg
          \<and> (\<exists>m. createAndPostOrder env (length (orders w) + nat (maxRetryAttempts cfg - int 0)) = Inl m
                 \<and> error r = Some (Msg (if m = [] then ''Unknown error'' else m)))"
    using tok live throws key le by (rule executeSell_all_throw_key)
  have sf: "orders (snd (executeSell cfg env w pos trader 0)) = orders w @ replicate (n + 1) (sellOrder cfg pos)"
    "sleeps (snd (executeSell cfg env w pos trader 0)) = sleeps w @ waits (length (orders w)) n (retryDelay cfg)"
    "\<not> success (fst (executeSell cfg env w pos trader 0))"
    "\<exists>m. createAndPostOrder env (length (orders w) + n) = Inl m
              \<and> error (fst (executeSell cfg env w pos trader 0))
                  = Some (Msg (if m = [] then ''Unknown error'' else m))"
    using s n by (simp_all add: case_prod_beta)
  have bf: "orders (snd (executeBuy cfg env w pos trader 0)) = orders w @ replicate (n + 1) (buyOrder cfg pos)
          \<and> sleeps (snd (executeBuy cfg env w pos trader 0))
              = sleeps w @ waits (length (orders w)) n (retryDelay cfg)
          \<and> \<not> success (fst (executeBuy cfg env w pos trader 0))
          \<and> (\<exists>m. createAndPostOrder env (length (orders w) + n) = Inl m
                 \<and> error (fst (executeBuy cfg env w pos trader 0))
                     = Some (Msg (if m = [] then ''Unknown error'' else m)))"
    if ok: "passesLimits cfg pos" and nodoc: "\<not> successDoc (id_pos pos) trader Buy (trades w)"
  proof -
    have b: "case executeBuy cfg env w pos trader 0 of (r, w') \<Rightarrow>
            orders w' = orders w @ replicate (nat (maxRetryAttempts cfg - int 0) + 1) (buyOrder cfg pos)
          \<and> sleeps w' = sleeps w @ waits (length (orders w)) (nat (maxRetryAttempts cfg - int 0)) (retryDelay cfg)
          \<and> \<not> success r \<and> trades w' = trades w \<and> int (retryCount r) = maxRetryAttempts cfg
          \<and> (\<exists>m. createAndPostOrder env (length (orders w) + nat (maxRetryAttempts cfg - int 0)) = Inl m
                 \<and> error r = Some (Msg (if m = [] then ''Unknown error'' else m)))"
      using tok ok live throws key nodoc le by (rule executeBuy_all_throw_key)
    show ?thesis using b n by (simp add: case_prod_beta)
  qed
  show ?thesis using sf bf by blast
qed

lemmas ex_defs2 = ex_cfg_def ex_env_def ex_world_def ex_p_def ex_position_def

text \<open>
  With three retries and an exchange that always throws: four orders, and a wait after the
  first, the second and the third.
\<close>

theorem retry_bound_witness:
  "id_pos ex_p \<noteq> [] \<and> \<not> dryRun ex_cfg \<and> apiKeyCreated (ex_world [])
   \<and> maxRetryAttempts ex_cfg = int 3
   \<and> (\<forall>k. \<exists>m. createAndPostOrder ex_env_reject k = Inl m)
   \<and> passesLimits ex_cfg ex_p
   \<and> \<not> successDoc (id_pos ex_p) ''0xT'' Buy (trades (ex_world []))
   \<and> length (orders (snd (executeSell ex_cfg ex_env_reject (ex_world []) ex_p ''0xT'' 0))) = 4
   \<and> sleeps (snd (executeSell ex_cfg ex_env_reject (ex_world []) ex_p ''0xT'' 0))
       = [(1, 1000), (2, 1000), (3, 1000)]
   \<and> error (fst (executeSell ex_cfg ex_env_reject (ex_world []) ex_p ''0xT'' 0))
       = Some (Msg ''boom'')
   \<and> length (orders (snd (executeBuy ex_cfg ex_env_reject (ex_world []) ex_p ''0xT'' 0))) = 4
   \<and> sleeps (snd (executeBuy ex_cfg ex_env_reject (ex_world []) ex_p ''0xT'' 0))
       = [(1, 1000), (2, 1000), (3, 1000)]
   \<and> error (fst (executeBuy ex_cfg ex_env_reject (ex_world []) ex_p ''0xT'' 0))
       = Some (Msg ''boom'')"
proof -
  have h: "id_pos ex_p \<noteq> []" "\<not> dryRun ex_cfg"
    "apiKeyCreated (ex_world []) \<or> createOrDeriveApiKey ex_env_reject (keyCalls (ex_world [])) = None"
    "maxRetryAttempts ex_cfg = int 3"
    "\<forall>k. \<exists>m. createAndPostOrder ex_env_reject k = Inl m"
    by (simp_all add: ex_defs2 ex_env_reject_def)
  have g: "passesLimits ex_cfg ex_p" "\<not> successDoc (id_pos ex_p) ''0xT'' Buy (trades (ex_world []))"
    by code_simp+
  have c: "createAndPostOrder ex_env_reject k = Inl ''boom''" for k
    by (simp add: ex_env_def ex_env_reject_def)
  have r: "retryDelay ex_cfg = 1000" "orders (ex_world []) = []" "sleeps (ex_world []) = []"
    "apiKeyCreated (ex_world [])"
    by (simp_all add: ex_defs2)
  have w: "waits 0 3 1000 = [(1, 1000), (2, 1000), (3, 1000)]"
    by code_simp
  show ?thesis
    using retry_bound [OF h] h(1,2,4,5) g c r w by simp
qed

text \<open>
  C3 as stated fails, in an environment in which every submission throws and with
  \<^verbatim>\<open>maxRetryAttempts = 3\<close>. In dry-run mode both functions succeed without any order. A buy
  under the minimum, and a buy that the collection has on record, fail without any order
  and any wait. A position without identifier is retried, with three waits, and no order is
  ever submitted. When the derivation of the API key throws as well, it is the derivation
  that is attempted four times. With \<^verbatim>\<open>maxRetryAttempts = -1\<close> one order is submitted.
\<close>

theorem retry_bound_counterexample:
  "maxRetryAttempts ex_cfg_dry = 3
   \<and> orders (snd (executeBuy ex_cfg_dry ex_env_reject (ex_world []) ex_p ''0xT'' 0)) = []
   \<and> success (fst (executeBuy ex_cfg_dry ex_env_reject (ex_world []) ex_p ''0xT'' 0))
   \<and> orders (snd (executeSell ex_cfg_dry ex_env_reject (ex_world []) ex_p ''0xT'' 0)) = []
   \<and> success (fst (executeSell ex_cfg_dry ex_env_reject (ex_world []) ex_p ''0xT'' 0))
   \<and> maxRetryAttempts ex_cfg_min200 = 3
   \<and> orders (snd (executeBuy ex_cfg_min200 ex_env_reject (ex_world []) ex_p ''0xT'' 0)) = []
   \<and> sleeps (snd (executeBuy ex_cfg_min200 ex_env_reject (ex_world []) ex_p ''0xT'' 0)) = []
   \<and> maxRetryAttempts ex_cfg = 3
   \<and> orders (snd (executeBuy ex_cfg ex_env_reject (ex_world [ex_doc Buy]) ex_p ''0xT'' 0)) = []
   \<and> sleeps (snd (executeBuy ex_cfg ex_env_reject (ex_world [ex_doc Buy]) ex_p ''0xT'' 0)) = []
   \<and> orders (snd (executeBuy ex_cfg ex_env_reject (ex_world []) ex_noid ''0xT'' 0)) = []
   \<and> sleeps (snd (executeBuy ex_cfg ex_env_reject (ex_world []) ex_noid ''0xT'' 0))
       = [(0, 1000), (0, 1000), (0, 1000)]
   \<and> orders (snd (executeSell ex_cfg ex_env_reject (ex_world []) ex_noid ''0xT'' 0)) = []
   \<and> sleeps (snd (executeSell ex_cfg ex_env_reject (ex_world []) ex_noid ''0xT'' 0))
       = [(0, 1000), (0, 1000), (0, 1000)]
   \<and> orders (snd (executeSell ex_cfg ex_env_nokey ((ex_world [])\<lparr>apiKeyCreated := False\<rparr>) ex_p ''0xT'' 0)) = []
   \<and> keyCalls (snd (executeSell ex_cfg ex_env_nokey ((ex_world [])\<lparr>apiKeyCreated := False\<rparr>) ex_p ''0xT'' 0)) = 4
   \<and> maxRetryAttempts ex_cfg_neg = - 1
   \<and> length (orders (snd (executeSell ex_cfg_neg ex_env_reject (ex_world []) ex_p ''0xT'' 0))) = 1
   \<and> length (orders (snd (executeBuy ex_cfg_neg ex_env_reject (ex_world []) ex_p ''0xT'' 0))) = 1"
  by code_simp


subsection \<open>The branches of the \<^verbatim>\<open>try\<close> blocks\<close>

lemma dup_snd: "isDuplicateTrade env w i t sd = (fst (isDuplicateTrade env w i t sd), dupWorld w)"
  by (simp add: isDuplicateTrade_def Let_def dupWorld_def)

lemma try_dup:
  "fst (isDuplicateTrade env w (id_pos pos) trader Buy) \<Longrightarrow>
   executeBuyTry cfg env w pos trader res = Inr (res\<lparr>error := Some (Msg ''Duplicate trade'')\<rparr>, dupWorld w)"
  by (subst executeBuyTry_def, subst dup_snd) simp

lemma try_missing:
  "\<not> fst (isDuplicateTrade env w (id_pos pos) trader Buy) \<Longrightarrow> id_pos pos = [] \<Longrightarrow>
   executeBuyTry cfg env w pos trader res = Inl (''Position ID (token ID) is missing'', dupWorld w)"
  by (subst executeBuyTry_def, subst dup_snd) simp

lemma try_invalid:
  assumes nd: "\<not> fst (isDuplicateTrade env w (id_pos pos) trader Buy)"
    and tok: "id_pos pos \<noteq> []"
    and bad: "\<not> passesLimits cfg pos"
  shows "executeBuyTry cfg env w pos trader res = Inr (res\<lparr>error := Some (limitError cfg pos)\<rparr>, dupWorld w)"
proof -
  let ?n = "js_mul (js_mul (parseFloat (quantity pos)) (positionSizeMultiplier cfg)) (parseFloat (price pos))"
  let ?p = "js_mul (parseFloat (if value_pos pos = [] then ''0'' else value_pos pos)) (positionSizeMultiplier cfg)"
  consider (a) "js_lt ?n (minTradeSize cfg)"
    | (b) "\<not> js_lt ?n (minTradeSize cfg)" "js_gt ?n (maxTradeSize cfg)"
    | (c) "\<not> js_lt ?n (minTradeSize cfg)" "\<not> js_gt ?n (maxTradeSize cfg)" "js_gt ?p (maxPositionSize cfg)"
    using bad unfolding passesLimits_def Let_def by blast
  then show ?thesis
  proof cases
    case a
    show ?thesis
      by (subst executeBuyTry_def, subst dup_snd) (simp add: nd tok a limitError_def Let_def)
  next
    case b
    show ?thesis
      by (subst executeBuyTry_def, subst dup_snd) (simp add: nd tok b limitError_def Let_def)
  next
    case c
    show ?thesis
      by (subst executeBuyTry_def, subst dup_snd) (simp add: nd tok c limitError_def Let_def)
  qed
qed

lemma try_dry:
  "\<not> fst (isDuplicateTrade env w (id_pos pos) trader Buy) \<Longrightarrow> id_pos pos \<noteq> [] \<Longrightarrow>
   passesLimits cfg pos \<Longrightarrow> dryRun cfg \<Longrightarrow>
   executeBuyTry cfg env w pos trader res =
     Inr (filled cfg pos res (orderId res), saveTrade env (dupWorld w) (filled cfg pos res (orderId res)) trader)"
  by (subst executeBuyTry_def, subst dup_snd) (simp add: passesLimits_def Let_def filled_def)

lemma try_nokey:
  "\<not> fst (isDuplicateTrade env w (id_pos pos) trader Buy) \<Longrightarrow> id_pos pos \<noteq> [] \<Longrightarrow>
   passesLimits cfg pos \<Longrightarrow> \<not> dryRun cfg \<Longrightarrow> keyStep cfg env (dupWorld w) = Inl e \<Longrightarrow>
   executeBuyTry cfg env w pos trader res = Inl e"
  by (subst executeBuyTry_def, subst dup_snd) (simp add: passesLimits_def Let_def keyStep_def)

lemma try_live:
  "\<not> fst (isDuplicateTrade env w (id_pos pos) trader Buy) \<Longrightarrow> id_pos pos \<noteq> [] \<Longrightarrow>
   passesLimits cfg pos \<Longrightarrow> \<not> dryRun cfg \<Longrightarrow> keyStep cfg env (dupWorld w) = Inr (u, w2) \<Longrightarrow>
   executeBuyTry cfg env w pos trader res =
     (case createAndPostOrder env (length (orders w2)) of
        Inl m \<Rightarrow> Inl (m, w2\<lparr>orders := orders w2 @ [buyOrder cfg pos]\<rparr>)
      | Inr oid \<Rightarrow>
          Inr (filled cfg pos res (Some oid),
               saveTrade env (w2\<lparr>orders := orders w2 @ [buyOrder cfg pos]\<rparr>)
                 (filled cfg pos res (Some oid)) trader))"
  by (subst executeBuyTry_def, subst dup_snd)
     (simp add: passesLimits_def Let_def keyStep_def filled_def buyOrder_def split: sum.splits)

lemma keyStep_frame:
  "keyStep cfg env w = Inl (m, w1) \<Longrightarrow>
     trades w1 = trades w \<and> executions w1 = executions w \<and> orders w1 = orders w \<and> dbClock w1 = dbClock w
     \<and> sleeps w1 = sleeps w"
  "keyStep cfg env w = Inr (u, w1) \<Longrightarrow>
     trades w1 = trades w \<and> executions w1 = executions w \<and> orders w1 = orders w \<and> dbClock w1 = dbClock w
     \<and> sleeps w1 = sleeps w"
  by (auto simp: keyStep_def initialize_def Let_def split: if_splits option.splits)

lemma dupWorld_fields [simp]:
  "trades (dupWorld w) = trades w" "executions (dupWorld w) = executions w"
  "orders (dupWorld w) = orders w" "sleeps (dupWorld w) = sleeps w"
  "dbClock (dupWorld w) = dbClock w + 1" "apiKeyCreated (dupWorld w) = apiKeyCreated w"
  "keyCalls (dupWorld w) = keyCalls w"
  by (simp_all add: dupWorld_def)

lemma filled_fields [simp]:
  "success (filled cfg pos res oid)" "position (filled cfg pos res oid) = position res"
  "filledBy cfg pos (filled cfg pos res oid)"
  by (simp_all add: filled_def filledBy_def)

lemma frame_refl [simp]: "frame w w"
  by (simp add: frame_def)

lemma frame_trans: "frame a b \<Longrightarrow> frame b c \<Longrightarrow> frame a c"
  by (auto simp: frame_def)

lemma frame_dup [simp]: "frame w (dupWorld w)"
  by (simp add: frame_def)

lemma frame_orders: "frame w w1 \<Longrightarrow> frame w (w1\<lparr>orders := orders w1 @ ys\<rparr>)"
  by (auto simp: frame_def)

lemma frame_sleeps: "frame w w1 \<Longrightarrow> frame w (w1\<lparr>sleeps := sleeps w1 @ ds\<rparr>)"
  by (auto simp: frame_def)

lemma frame_save_failed: "frame w w1 \<Longrightarrow> \<not> success r \<Longrightarrow> frame w (saveTrade env w1 r t)"
  by (auto simp: frame_def)

lemma frame_key:
  "keyStep cfg env w = Inl (m, w1) \<Longrightarrow> frame w w1"
  "keyStep cfg env w = Inr (u, w1) \<Longrightarrow> frame w w1"
proof -
  assume "keyStep cfg env w = Inl (m, w1)"
  from keyStep_frame(1) [OF this] show "frame w w1" by (simp add: frame_def)
next
  assume "keyStep cfg env w = Inr (u, w1)"
  from keyStep_frame(2) [OF this] show "frame w w1" by (simp add: frame_def)
qed

lemma executeBuyTry_Inl:
  assumes "executeBuyTry cfg env w pos trader res = Inl (m, w1)"
  shows "frame w w1"
proof (cases "fst (isDuplicateTrade env w (id_pos pos) trader Buy)")
  case True
  then show ?thesis using assms try_dup [OF True] by simp
next
  case nd: False
  show ?thesis
  proof (cases "id_pos pos = []")
    case True
    then show ?thesis using assms try_missing [OF nd True] by auto
  next
    case tok: False
    show ?thesis
    proof (cases "passesLimits cfg pos")
      case False
      then show ?thesis using assms try_invalid [OF nd tok False] by auto
    next
      case ok: True
      show ?thesis
      proof (cases "dryRun cfg")
        case True
        then show ?thesis using assms try_dry [OF nd tok ok True] by simp
      next
        case live: False
        show ?thesis
        proof (cases "keyStep cfg env (dupWorld w)")
          case (Inl e)
          then have "Inl (m, w1) = (Inl e :: TradeExecutionResult attempt)"
            using assms try_nokey [OF nd tok ok live Inl] by simp
          then have e: "e = (m, w1)" by simp
          have "frame (dupWorld w) w1" using Inl e frame_key(1) by simp
          then show ?thesis using frame_trans [OF frame_dup] by blast
        next
          case (Inr b)
          obtain u w2 where b: "b = (u, w2)" by (cases b)
          have f2: "frame w w2"
            using frame_key(2) [OF Inr [unfolded b]] frame_trans [OF frame_dup] by blast
          have f3: "frame w (w2\<lparr>orders := orders w2 @ [buyOrder cfg pos]\<rparr>)"
            using f2 by (rule frame_orders)
          show ?thesis
          proof (cases "createAndPostOrder env (length (orders w2))")
            case (Inl m')
            have "executeBuyTry cfg env w pos trader res
                    = Inl (m', w2\<lparr>orders := orders w2 @ [buyOrder cfg pos]\<rparr>)"
              using try_live [OF nd tok ok live \<open>keyStep cfg env (dupWorld w) = Inr b\<close> [unfolded b]] Inl
              by simp
            then have "Inl (m, w1) = (Inl (m', w2\<lparr>orders := orders w2 @ [buyOrder cfg pos]\<rparr>)
                     :: TradeExecutionResult attempt)"
              using assms by (simp only:)
            then have "w1 = w2\<lparr>orders := orders w2 @ [buyOrder cfg pos]\<rparr>" by auto
            then show ?thesis using f3 by simp
          next
            case (Inr oid)
            then show ?thesis
              using assms try_live [OF nd tok ok live \<open>keyStep cfg env (dupWorld w) = Inr b\<close> [unfolded b]]
              by simp
          qed
        qed
      qed
    qed
  qed
qed

lemma executeBuyTry_Inr:
  assumes "executeBuyTry cfg env w pos trader res = Inr (r, w1)"
    and "\<not> success res" and "position res = pos"
  shows "position r = pos \<and> (success r \<longrightarrow> filledBy cfg pos r)
         \<and> (if success r then saved env trader w r w1 else frame w w1)"
proof (cases "fst (isDuplicateTrade env w (id_pos pos) trader Buy)")
  case True
  then show ?thesis using assms try_dup [OF True] by (auto simp: frame_def)
next
  case nd: False
  show ?thesis
  proof (cases "id_pos pos = []")
    case True
    then show ?thesis using assms try_missing [OF nd True] by auto
  next
    case tok: False
    show ?thesis
    proof (cases "passesLimits cfg pos")
      case False
      then show ?thesis using assms try_invalid [OF nd tok False] by auto
    next
      case ok: True
      show ?thesis
      proof (cases "dryRun cfg")
        case True
        then show ?thesis using assms try_dry [OF nd tok ok True]
          by (auto simp: saved_def intro!: exI [of _ "dupWorld w"])
      next
        case live: False
        show ?thesis
        proof (cases "keyStep cfg env (dupWorld w)")
          case (Inl e)
          then show ?thesis
            using assms try_nokey [OF nd tok ok live Inl] by simp
        next
          case (Inr b)
          obtain u w2 where b: "b = (u, w2)" by (cases b)
          have f2: "frame w w2"
            using frame_key(2) [OF Inr [unfolded b]] frame_trans [OF frame_dup] by blast
          have f3: "frame w (w2\<lparr>orders := orders w2 @ [buyOrder cfg pos]\<rparr>)"
            using f2 by (rule frame_orders)
          show ?thesis
          proof (cases "createAndPostOrder env (length (orders w2))")
            case (Inl m')
            then show ?thesis
              using assms(1) try_live [OF nd tok ok live Inr [unfolded b]] by simp
          next
            case (Inr oid)
            have "executeBuyTry cfg env w pos trader res = Inr (filled cfg pos res (Some oid),
                     saveTrade env (w2\<lparr>orders := orders w2 @ [buyOrder cfg pos]\<rparr>)
                       (filled cfg pos res (Some oid)) trader)"
              using try_live [OF nd tok ok live \<open>keyStep cfg env (dupWorld w) = Inr b\<close> [unfolded b]] Inr
              by simp
            then have "Inr (r, w1) = (Inr (filled cfg pos res (Some oid),
                     saveTrade env (w2\<lparr>orders := orders w2 @ [buyOrder cfg pos]\<rparr>)
                       (filled cfg pos res (Some oid)) trader) :: TradeExecutionResult attempt)"
              using assms(1) by (simp only:)
            then have r: "r = filled cfg pos res (Some oid)"
              and w1': "w1 = saveTrade env (w2\<lparr>orders := orders w2 @ [buyOrder cfg pos]\<rparr>)
                        (filled cfg pos res (Some oid)) trader"
              by simp_all
            have w1: "w1 = saveTrade env (w2\<lparr>orders := orders w2 @ [buyOrder cfg pos]\<rparr>) r trader"
              using w1' by (simp only: r)
            have "saved env trader w r w1"
              unfolding saved_def using f3 w1 by blast
            then show ?thesis using r assms(3) by simp
          qed
        qed
      qed
    qed
  qed
qed

lemma sell_missing:
  "id_pos pos = [] \<Longrightarrow>
   executeSellTry cfg env w pos trader res = Inl (''Position ID (token ID) is missing'', w)"
  by (simp add: executeSellTry_def)

lemma sell_dry:
  "id_pos pos \<noteq> [] \<Longrightarrow> dryRun cfg \<Longrightarrow>
   executeSellTry cfg env w pos trader res =
     Inr (filled cfg pos res (orderId res), saveTrade env w (filled cfg pos res (orderId res)) trader)"
  by (simp add: executeSellTry_def Let_def filled_def)

lemma sell_nokey:
  "id_pos pos \<noteq> [] \<Longrightarrow> \<not> dryRun cfg \<Longrightarrow> keyStep cfg env w = Inl e \<Longrightarrow>
   executeSellTry cfg env w pos trader res = Inl e"
  by (simp add: executeSellTry_def Let_def keyStep_def)

lemma sell_live:
  "id_pos pos \<noteq> [] \<Longrightarrow> \<not> dryRun cfg \<Longrightarrow> keyStep cfg env w = Inr (u, w2) \<Longrightarrow>
   executeSellTry cfg env w pos trader res =
     (case createAndPostOrder env (length (orders w2)) of
        Inl m \<Rightarrow> Inl (m, w2\<lparr>orders := orders w2 @ [sellOrder cfg pos]\<rparr>)
      | Inr oid \<Rightarrow>
          Inr (filled cfg pos res (Some oid),
               saveTrade env (w2\<lparr>orders := orders w2 @ [sellOrder cfg pos]\<rparr>)
                 (filled cfg pos res (Some oid)) trader))"
  by (simp add: executeSellTry_def Let_def keyStep_def filled_def sellOrder_def split: sum.splits)

lemma executeSellTry_Inl:
  assumes "executeSellTry cfg env w pos trader res = Inl (m, w1)"
  shows "frame w w1"
proof (cases "id_pos pos = []")
  case True
  then show ?thesis using assms sell_missing [OF True] by auto
next
  case tok: False
  show ?thesis
  proof (cases "dryRun cfg")
    case True
    then show ?thesis using assms sell_dry [OF tok True] by simp
  next
    case live: False
    show ?thesis
    proof (cases "keyStep cfg env w")
      case (Inl e)
      then have "Inl (m, w1) = (Inl e :: TradeExecutionResult attempt)"
        using assms sell_nokey [OF tok live Inl] by simp
      then have e: "e = (m, w1)" by simp
      show ?thesis using Inl e frame_key(1) by simp
    next
      case (Inr b)
      obtain u w2 where b: "b = (u, w2)" by (cases b)
      have f2: "frame w w2" using frame_key(2) [OF Inr [unfolded b]] .
      have f3: "frame w (w2\<lparr>orders := orders w2 @ [sellOrder cfg pos]\<rparr>)"
        using f2 by (rule frame_orders)
      show ?thesis
      proof (cases "createAndPostOrder env (length (orders w2))")
        case (Inl m')
        have "executeSellTry cfg env w pos trader res
                = Inl (m', w2\<lparr>orders := orders w2 @ [sellOrder cfg pos]\<rparr>)"
          using sell_live [OF tok live \<open>keyStep cfg env w = Inr b\<close> [unfolded b]] Inl by simp
        then have "Inl (m, w1) = (Inl (m', w2\<lparr>orders := orders w2 @ [sellOrder cfg pos]\<rparr>)
                     :: TradeExecutionResult attempt)"
          using assms by (simp only:)
        then have "w1 = w2\<lparr>orders := orders w2 @ [sellOrder cfg pos]\<rparr>" by auto
        then show ?thesis using f3 by simp
      next
        case (Inr oid)
        then show ?thesis
          using assms sell_live [OF tok live \<open>keyStep cfg env w = Inr b\<close> [unfolded b]] by simp
      qed
    qed
  qed
qed

lemma executeSellTry_Inr:
  assumes "executeSellTry cfg env w pos trader res = Inr (r, w1)"
    and "position res = pos"
  shows "position r = pos \<and> filledBy cfg pos r \<and> success r \<and> saved env trader w r w1"
proof (cases "id_pos pos = []")
  case True
  then show ?thesis using assms sell_missing [OF True] by auto
next
  case tok: False
  show ?thesis
  proof (cases "dryRun cfg")
    case True
    then show ?thesis using assms sell_dry [OF tok True]
      by (auto simp: saved_def intro!: exI [of _ w])
  next
    case live: False
    show ?thesis
    proof (cases "keyStep cfg env w")
      case (Inl e)
      then show ?thesis using assms sell_nokey [OF tok live Inl] by simp
    next
      case (Inr b)
      obtain u w2 where b: "b = (u, w2)" by (cases b)
      have f2: "frame w w2" using frame_key(2) [OF Inr [unfolded b]] .
      have f3: "frame w (w2\<lparr>orders := orders w2 @ [sellOrder cfg pos]\<rparr>)"
        using f2 by (rule frame_orders)
      show ?thesis
      proof (cases "createAndPostOrder env (length (orders w2))")
        case (Inl m')
        then show ?thesis
          using assms(1) sell_live [OF tok live \<open>keyStep cfg env w = Inr b\<close> [unfolded b]] by simp
      next
        case (Inr oid)
        have "executeSellTry cfg env w pos trader res = Inr (filled cfg pos res (Some oid),
                 saveTrade env (w2\<lparr>orders := orders w2 @ [sellOrder cfg pos]\<rparr>)
                   (filled cfg pos res (Some oid)) trader)"
          using sell_live [OF tok live \<open>keyStep cfg env w = Inr b\<close> [unfolded b]] Inr by simp
        then have "Inr (r, w1) = (Inr (filled cfg pos res (Some oid),
                 saveTrade env (w2\<lparr>orders := orders w2 @ [sellOrder cfg pos]\<rparr>)
                   (filled cfg pos res (Some oid)) trader) :: TradeExecutionResult attempt)"
          using assms(1) by (simp only:)
        then have r: "r = filled cfg pos res (Some oid)"
          and w1': "w1 = saveTrade env (w2\<lparr>orders := orders w2 @ [sellOrder cfg pos]\<rparr>)
                    (filled cfg pos res (Some oid)) trader"
          by simp_all
        have w1: "w1 = saveTrade env (w2\<lparr>orders := orders w2 @ [sellOrder cfg pos]\<rparr>) r trader"
          using w1' by (simp only: r)
        have "saved env trader w r w1"
          unfolding saved_def using f3 w1 by blast
        then show ?thesis using r assms(2) by simp
      qed
    qed
  qed
qed

subsection \<open>What a call returns and leaves behind\<close>

lemma saved_frame: "frame a b \<Longrightarrow> saved env t b r c \<Longrightarrow> saved env t a r c"
  unfolding saved_def using frame_trans by blast

lemma executeBuy_spec:
  "position (fst (executeBuy cfg env w pos trader rc)) = pos
   \<and> (success (fst (executeBuy cfg env w pos trader rc)) \<longrightarrow> filledBy cfg pos (fst (executeBuy cfg env w pos trader rc)))
   \<and> (if success (fst (executeBuy cfg env w pos trader rc))
       then saved env trader w (fst (executeBuy cfg env w pos trader rc)) (snd (executeBuy cfg env w pos trader rc))
       else frame w (snd (executeBuy cfg env w pos trader rc)))"
proof (induction cfg env w pos trader rc rule: executeBuy.induct)
  case (1 cfg env w pos trader rc)
  let ?res = "\<lparr>success = False, position = pos, orderId = None,
                executedQuantity = None, executedPrice = None, error = None,
                dryRun_res = dryRun cfg, retryCount = rc\<rparr>"
  show ?case
  proof (cases "executeBuyTry cfg env w pos trader ?res")
    case (Inr rw)
    obtain r w1 where rw: "rw = (r, w1)" by (cases rw)
    have unf: "executeBuy cfg env w pos trader rc = (r, w1)"
      by (subst executeBuy.simps) (simp add: Inr rw)
    show ?thesis
      unfolding unf using executeBuyTry_Inr [OF Inr [unfolded rw]] by simp
  next
    case (Inl e)
    obtain m w1 where e: "e = (m, w1)" by (cases e)
    have f1: "frame w w1" using executeBuyTry_Inl [OF Inl [unfolded e]] .
    show ?thesis
    proof (cases "int rc < maxRetryAttempts cfg")
      case True
      let ?w4 = "w1\<lparr>sleeps := sleeps w1 @ [(length (orders w1), retryDelay cfg)]\<rparr>"
      have f4: "frame w ?w4" using f1 by (rule frame_sleeps)
      have unf: "executeBuy cfg env w pos trader rc = executeBuy cfg env ?w4 pos trader (rc + 1)"
        by (subst executeBuy.simps) (simp add: Inl e True)
      have ih: "position (fst (executeBuy cfg env ?w4 pos trader (rc + 1))) = pos
         \<and> (success (fst (executeBuy cfg env ?w4 pos trader (rc + 1)))
               \<longrightarrow> filledBy cfg pos (fst (executeBuy cfg env ?w4 pos trader (rc + 1))))
         \<and> (if success (fst (executeBuy cfg env ?w4 pos trader (rc + 1)))
             then saved env trader ?w4 (fst (executeBuy cfg env ?w4 pos trader (rc + 1)))
                    (snd (executeBuy cfg env ?w4 pos trader (rc + 1)))
             else frame ?w4 (snd (executeBuy cfg env ?w4 pos trader (rc + 1))))"
        using "1.IH" [OF refl Inl [unfolded e] refl True] .
      show ?thesis
        unfolding unf using ih saved_frame [OF f4] frame_trans [OF f4]
        by (simp split: if_splits)
    next
      case False
      let ?r = "?res\<lparr>error := Some (Msg (if m = [] then ''Unknown error'' else m))\<rparr>"
      have unf: "executeBuy cfg env w pos trader rc = (?r, saveTrade env w1 ?r trader)"
        by (subst executeBuy.simps) (simp add: Inl e False Let_def)
      have "frame w (saveTrade env w1 ?r trader)"
        using f1 by (rule frame_save_failed) simp
      then show ?thesis unfolding unf by simp
    qed
  qed
qed

lemma executeSell_spec:
  "position (fst (executeSell cfg env w pos trader rc)) = pos
   \<and> (success (fst (executeSell cfg env w pos trader rc)) \<longrightarrow> filledBy cfg pos (fst (executeSell cfg env w pos trader rc)))
   \<and> (if success (fst (executeSell cfg env w pos trader rc))
       then saved env trader w (fst (executeSell cfg env w pos trader rc)) (snd (executeSell cfg env w pos trader rc))
       else frame w (snd (executeSell cfg env w pos trader rc)))"
proof (induction cfg env w pos trader rc rule: executeSell.induct)
  case (1 cfg env w pos trader rc)
  let ?res = "\<lparr>success = False, position = pos, orderId = None,
                executedQuantity = None, executedPrice = None, error = None,
                dryRun_res = dryRun cfg, retryCount = rc\<rparr>"
  show ?case
  proof (cases "executeSellTry cfg env w pos trader ?res")
    case (Inr rw)
    obtain r w1 where rw: "rw = (r, w1)" by (cases rw)
    have unf: "executeSell cfg env w pos trader rc = (r, w1)"
      by (subst executeSell.simps) (simp add: Inr rw)
    show ?thesis
      unfolding unf using executeSellTry_Inr [OF Inr [unfolded rw]] by simp
  next
    case (Inl e)
    obtain m w1 where e: "e = (m, w1)" by (cases e)
    have f1: "frame w w1" using executeSellTry_Inl [OF Inl [unfolded e]] .
    show ?thesis
    proof (cases "int rc < maxRetryAttempts cfg")
      case True
      let ?w4 = "w1\<lparr>sleeps := sleeps w1 @ [(length (orders w1), retryDelay cfg)]\<rparr>"
      have f4: "frame w ?w4" using f1 by (rule frame_sleeps)
      have unf: "executeSell cfg env w pos trader rc = executeSell cfg env ?w4 pos trader (rc + 1)"
        by (subst executeSell.simps) (simp add: Inl e True)
      have ih: "position (fst (executeSell cfg env ?w4 pos trader (rc + 1))) = pos
         \<and> (success (fst (executeSell cfg env ?w4 pos trader (rc + 1)))
               \<longrightarrow> filledBy cfg pos (fst (executeSell cfg env ?w4 pos trader (rc + 1))))
         \<and> (if success (fst (executeSell cfg env ?w4 pos trader (rc + 1)))
             then saved env trader ?w4 (fst (executeSell cfg env ?w4 pos trader (rc + 1)))
                    (snd (executeSell cfg env ?w4 pos trader (rc + 1)))
             else frame ?w4 (snd (executeSell cfg env ?w4 pos trader (rc + 1))))"
        using "1.IH" [OF refl Inl [unfolded e] refl True] .
      show ?thesis
        unfolding unf using ih saved_frame [OF f4] frame_trans [OF f4]
        by (simp split: if_splits)
    next
      case False
      let ?r = "?res\<lparr>error := Some (Msg (if m = [] then ''Unknown error'' else m))\<rparr>"
      have unf: "executeSell cfg env w pos trader rc = (?r, saveTrade env w1 ?r trader)"
        by (subst executeSell.simps) (simp add: Inl e False Let_def)
      have "frame w (saveTrade env w1 ?r trader)"
        using f1 by (rule frame_save_failed) simp
      then show ?thesis unfolding unf by simp
    qed
  qed
qed

subsection \<open>Persistence\<close>

lemma dup_saveThrows [simp]:
  "isDuplicateTrade (env\<lparr>saveThrows := f\<rparr>) w i t sd = isDuplicateTrade env w i t sd"
  by (simp add: isDuplicateTrade_def Let_def)

lemma initialize_saveThrows [simp]:
  "initialize cfg (env\<lparr>saveThrows := f\<rparr>) w = initialize cfg env w"
  by (simp add: initialize_def Let_def)

lemma executeBuyTry_saveThrows:
  "map_sum id fst (executeBuyTry cfg (env\<lparr>saveThrows := f\<rparr>) w pos trader res)
   = map_sum id fst (executeBuyTry cfg env w pos trader res)"
  by (simp add: executeBuyTry_def Let_def split: prod.splits sum.splits)

lemma executeSellTry_saveThrows:
  "map_sum id fst (executeSellTry cfg (env\<lparr>saveThrows := f\<rparr>) w pos trader res)
   = map_sum id fst (executeSellTry cfg env w pos trader res)"
  by (simp add: executeSellTry_def Let_def split: prod.splits sum.splits)

lemma executeBuy_saveThrows:
  "fst (executeBuy cfg (env\<lparr>saveThrows := f\<rparr>) w pos trader rc) = fst (executeBuy cfg env w pos trader rc)"
proof (induction cfg env w pos trader rc rule: executeBuy.induct)
  case (1 cfg env w pos trader rc)
  let ?res = "\<lparr>success = False, position = pos, orderId = None,
                executedQuantity = None, executedPrice = None, error = None,
                dryRun_res = dryRun cfg, retryCount = rc\<rparr>"
  let ?e = "env\<lparr>saveThrows := f\<rparr>"
  have ms: "map_sum id fst (executeBuyTry cfg ?e w pos trader ?res)
            = map_sum id fst (executeBuyTry cfg env w pos trader ?res)"
    by (rule executeBuyTry_saveThrows)
  show ?case
  proof (cases "executeBuyTry cfg env w pos trader ?res")
    case (Inr rw)
    obtain r w1 where rw: "rw = (r, w1)" by (cases rw)
    have "map_sum id fst (executeBuyTry cfg ?e w pos trader ?res) = Inr r"
      using ms Inr rw by simp
    then obtain w1' where other: "executeBuyTry cfg ?e w pos trader ?res = Inr (r, w1')"
      by (cases "executeBuyTry cfg ?e w pos trader ?res") auto
    have a: "executeBuy cfg env w pos trader rc = (r, w1)"
      by (subst executeBuy.simps) (simp add: Inr rw)
    have b: "executeBuy cfg ?e w pos trader rc = (r, w1')"
      by (subst executeBuy.simps) (simp add: other)
    show ?thesis by (simp add: a b)
  next
    case (Inl e)
    obtain m w1 where e: "e = (m, w1)" by (cases e)
    have "map_sum id fst (executeBuyTry cfg ?e w pos trader ?res) = Inl (m, w1)"
      using ms Inl e by simp
    then have other: "executeBuyTry cfg ?e w pos trader ?res = Inl (m, w1)"
      by (cases "executeBuyTry cfg ?e w pos trader ?res") auto
    show ?thesis
    proof (cases "int rc < maxRetryAttempts cfg")
      case True
      let ?w4 = "w1\<lparr>sleeps := sleeps w1 @ [(length (orders w1), retryDelay cfg)]\<rparr>"
      have a: "executeBuy cfg env w pos trader rc = executeBuy cfg env ?w4 pos trader (rc + 1)"
        by (subst executeBuy.simps) (simp add: Inl e True)
      have b: "executeBuy cfg ?e w pos trader rc = executeBuy cfg ?e ?w4 pos trader (rc + 1)"
        by (subst executeBuy.simps) (simp add: other True)
      show ?thesis
        unfolding a b using "1.IH" [OF refl Inl [unfolded e] refl True] .
    next
      case False
      have a: "fst (executeBuy cfg env w pos trader rc)
                 = ?res\<lparr>error := Some (Msg (if m = [] then ''Unknown error'' else m))\<rparr>"
        by (subst executeBuy.simps) (simp add: Inl e False Let_def)
      have b: "fst (executeBuy cfg ?e w pos trader rc)
                 = ?res\<lparr>error := Some (Msg (if m = [] then ''Unknown error'' else m))\<rparr>"
        by (subst executeBuy.simps) (simp add: other False Let_def)
      show ?thesis by (simp add: a b)
    qed
  qed
qed

lemma executeSell_saveThrows:
  "fst (executeSell cfg (env\<lparr>saveThrows := f\<rparr>) w pos trader rc) = fst (executeSell cfg env w pos trader rc)"
proof (induction cfg env w pos trader rc rule: executeSell.induct)
  case (1 cfg env w pos trader rc)
  let ?res = "\<lparr>success = False, position = pos, orderId = None,
                executedQuantity = None, executedPrice = None, error = None,
                dryRun_res = dryRun cfg, retryCount = rc\<rparr>"
  let ?e = "env\<lparr>saveThrows := f\<rparr>"
  have ms: "map_sum id fst (executeSellTry cfg ?e w pos trader ?res)
            = map_sum id fst (executeSellTry cfg env w pos trader ?res)"
    by (rule executeSellTry_saveThrows)
  show ?case
  proof (cases "executeSellTry cfg env w pos trader ?res")
    case (Inr rw)
    obtain r w1 where rw: "rw = (r, w1)" by (cases rw)
    have "map_sum id fst (executeSellTry cfg ?e w pos trader ?res) = Inr r"
      using ms Inr rw by simp
    then obtain w1' where other: "executeSellTry cfg ?e w pos trader ?res = Inr (r, w1')"
      by (cases "executeSellTry cfg ?e w pos trader ?res") auto
    have a: "executeSell cfg env w pos trader rc = (r, w1)"
      by (subst executeSell.simps) (simp add: Inr rw)
    have b: "executeSell cfg ?e w pos trader rc = (r, w1')"
      by (subst executeSell.simps) (simp add: other)
    show ?thesis by (simp add: a b)
  next
    case (Inl e)
    obtain m w1 where e: "e = (m, w1)" by (cases e)
    have "map_sum id fst (executeSellTry cfg ?e w pos trader ?res) = Inl (m, w1)"
      using ms Inl e by simp
    then have other: "executeSellTry cfg ?e w pos trader ?res = Inl (m, w1)"
      by (cases "executeSellTry cfg ?e w pos trader ?res") auto
    show ?thesis
    proof (cases "int rc < maxRetryAttempts cfg")
      case True
      let ?w4 = "w1\<lparr>sleeps := sleeps w1 @ [(length (orders w1), retryDelay cfg)]\<rparr>"
      have a: "executeSell cfg env w pos trader rc = executeSell cfg env ?w4 pos trader (rc + 1)"
        by (subst executeSell.simps) (simp add: Inl e True)
      have b: "executeSell cfg ?e w pos trader rc = executeSell cfg ?e ?w4 pos trader (rc + 1)"
        by (subst executeSell.simps) (simp add: other True)
      show ?thesis
        unfolding a b using "1.IH" [OF refl Inl [unfolded e] refl True] .
    next
      case False
      have a: "fst (executeSell cfg env w pos trader rc)
                 = ?res\<lparr>error := Some (Msg (if m = [] then ''Unknown error'' else m))\<rparr>"
        by (subst executeSell.simps) (simp add: Inl e False Let_def)
      have b: "fst (executeSell cfg ?e w pos trader rc)
                 = ?res\<lparr>error := Some (Msg (if m = [] then ''Unknown error'' else m))\<rparr>"
        by (subst executeSell.simps) (simp add: other False Let_def)
      show ?thesis by (simp add: a b)
    qed
  qed
qed

lemma frame_trades: "frame w w1 \<Longrightarrow> trades w1 = trades w"
  by (simp add: frame_def)

lemma saved_appends:
  assumes sv: "saved env trader w r w1"
    and ok: "success r"
    and up: "\<forall>k. isDatabaseConnected env k \<and> \<not> saveThrows env k"
    and fresh: "\<not> list_ex (sameKey (tradeDocument r trader)) (trades w)"
  shows "trades w1 = trades w @ [tradeDocument r trader]"
proof -
  from sv obtain w3 where f: "frame w w3" and w1: "w1 = saveTrade env w3 r trader"
    unfolding saved_def by blast
  have t: "trades w3 = trades w" using f by (rule frame_trades)
  show ?thesis
    unfolding w1 using ok up fresh t by (simp add: saveTrade_def Let_def)
qed

text \<open>
  C8 (as amended). \<^verbatim>\<open>executeBuy\<close> and \<^verbatim>\<open>executeSell\<close> persist successes only. A result with
  \<^verbatim>\<open>success = false\<close> (a failure or a duplicate skip) leaves the collection as it was.
  When the database is connected and no save throws, a successful buy of a position with a
  value, for which the collection holds no buy document yet, appends one document: a
  success on the buy side for the position and the trader. The result returned does not
  depend on whether a save throws.
\<close>

theorem persistence:
  assumes b: "b = executeBuy cfg env w pos trader rc"
    and s: "s = executeSell cfg env w pos trader rc"
  shows "(\<not> success (fst b) \<longrightarrow> trades (snd b) = trades w)
       \<and> (\<not> success (fst s) \<longrightarrow> trades (snd s) = trades w)
       \<and> ((\<forall>k. isDatabaseConnected env k \<and> \<not> saveThrows env k) \<and> success (fst b)
            \<and> value_pos pos \<noteq> []
            \<and> \<not> list_ex (\<lambda>d. positionId d = id_pos pos \<and> traderAddress d = trader \<and> side_doc d = Buy)
                         (trades w)
            \<longrightarrow> trades (snd b) = trades w @
                   [\<lparr>positionId = id_pos pos, traderAddress = trader,
                     marketId = id_mkt (market pos), outcome_doc = outcome pos, side_doc = Buy,
                     orderId_doc = orderId (fst b), dryRun_doc = dryRun_res (fst b),
                     success_doc = True, error_doc = error (fst b)\<rparr>])
       \<and> (\<forall>f. fst (executeBuy cfg (env\<lparr>saveThrows := f\<rparr>) w pos trader rc) = fst b)
       \<and> (\<forall>f. fst (executeSell cfg (env\<lparr>saveThrows := f\<rparr>) w pos trader rc) = fst s)"
proof -
  have sb: "if success (fst b) then saved env trader w (fst b) (snd b) else frame w (snd b)"
    unfolding b using executeBuy_spec [of cfg env w pos trader rc] by simp
  have ss: "if success (fst s) then saved env trader w (fst s) (snd s) else frame w (snd s)"
    unfolding s using executeSell_spec [of cfg env w pos trader rc] by simp
  have pb: "position (fst b) = pos"
    unfolding b using executeBuy_spec [of cfg env w pos trader rc] by simp
  have 1: "\<not> success (fst b) \<longrightarrow> trades (snd b) = trades w"
    using sb frame_trades by simp
  have 2: "\<not> success (fst s) \<longrightarrow> trades (snd s) = trades w"
    using ss frame_trades by simp
  have 3: "trades (snd b) = trades w @
                   [\<lparr>positionId = id_pos pos, traderAddress = trader,
                     marketId = id_mkt (market pos), outcome_doc = outcome pos, side_doc = Buy,
                     orderId_doc = orderId (fst b), dryRun_doc = dryRun_res (fst b),
                     success_doc = True, error_doc = error (fst b)\<rparr>]"
    if up: "\<forall>k. isDatabaseConnected env k \<and> \<not> saveThrows env k" and ok: "success (fst b)"
      and val: "value_pos pos \<noteq> []"
      and fresh: "\<not> list_ex (\<lambda>d. positionId d = id_pos pos \<and> traderAddress d = trader \<and> side_doc d = Buy)
                         (trades w)"
  proof -
    have doc: "tradeDocument (fst b) trader =
          \<lparr>positionId = id_pos pos, traderAddress = trader,
           marketId = id_mkt (market pos), outcome_doc = outcome pos, side_doc = Buy,
           orderId_doc = orderId (fst b), dryRun_doc = dryRun_res (fst b),
           success_doc = True, error_doc = error (fst b)\<rparr>"
      using pb ok val by (simp add: tradeDocument_def)
    have "\<not> list_ex (sameKey (tradeDocument (fst b) trader)) (trades w)"
      using fresh unfolding doc by (auto simp: sameKey_def list_ex_iff)
    with sb ok up have "trades (snd b) = trades w @ [tradeDocument (fst b) trader]"
      using saved_appends [of env trader w "fst b" "snd b"] by simp
    then show ?thesis unfolding doc .
  qed
  have 5: "\<forall>f. fst (executeBuy cfg (env\<lparr>saveThrows := f\<rparr>) w pos trader rc) = fst b"
    unfolding b by (simp add: executeBuy_saveThrows)
  have 6: "\<forall>f. fst (executeSell cfg (env\<lparr>saveThrows := f\<rparr>) w pos trader rc) = fst s"
    unfolding s by (simp add: executeSell_saveThrows)
  show ?thesis using 1 2 3 5 6 by blast
qed

subsection \<open>Limits\<close>

lemma executeSellTry_limits:
  "executeSellTry (cfg\<lparr>minTradeSize := a, maxTradeSize := b, maxPositionSize := c\<rparr>) env w pos trader res
   = executeSellTry cfg env w pos trader res"
  by (simp add: executeSellTry_def initialize_def Let_def)

lemma executeSell_limits:
  "executeSell (cfg\<lparr>minTradeSize := a, maxTradeSize := b, maxPositionSize := c\<rparr>) env w pos trader rc
   = executeSell cfg env w pos trader rc"
proof (induction cfg env w pos trader rc rule: executeSell.induct)
  case (1 cfg env w pos trader rc)
  let ?res = "\<lparr>success = False, position = pos, orderId = None,
                executedQuantity = None, executedPrice = None, error = None,
                dryRun_res = dryRun cfg, retryCount = rc\<rparr>"
  let ?c = "cfg\<lparr>minTradeSize := a, maxTradeSize := b, maxPositionSize := c\<rparr>"
  have body: "executeSellTry ?c env w pos trader ?res = executeSellTry cfg env w pos trader ?res"
    by (rule executeSellTry_limits)
  show ?case
  proof (cases "executeSellTry cfg env w pos trader ?res")
    case (Inr rw)
    have l: "executeSell cfg env w pos trader rc = rw"
      by (subst executeSell.simps) (simp add: Inr)
    have r: "executeSell ?c env w pos trader rc = rw"
      by (subst executeSell.simps) (simp add: body [simplified] Inr)
    show ?thesis by (simp only: l r)
  next
    case (Inl e)
    obtain m w1 where e: "e = (m, w1)" by (cases e)
    show ?thesis
    proof (cases "int rc < maxRetryAttempts cfg")
      case True
      let ?w4 = "w1\<lparr>sleeps := sleeps w1 @ [(length (orders w1), retryDelay cfg)]\<rparr>"
      have l: "executeSell cfg env w pos trader rc = executeSell cfg env ?w4 pos trader (rc + 1)"
        by (subst executeSell.simps) (simp add: Inl e True)
      have r: "executeSell ?c env w pos trader rc = executeSell ?c env ?w4 pos trader (rc + 1)"
        by (subst executeSell.simps) (simp add: body [simplified] Inl e True)
      show ?thesis
        unfolding l r using "1.IH" [OF refl Inl [unfolded e] refl True] .
    next
      case False
      have l: "executeSell cfg env w pos trader rc =
            (?res\<lparr>error := Some (Msg (if m = [] then ''Unknown error'' else m))\<rparr>,
             saveTrade env w1 (?res\<lparr>error := Some (Msg (if m = [] then ''Unknown error'' else m))\<rparr>) trader)"
        by (subst executeSell.simps) (simp add: Inl e False Let_def)
      have r: "executeSell ?c env w pos trader rc =
            (?res\<lparr>error := Some (Msg (if m = [] then ''Unknown error'' else m))\<rparr>,
             saveTrade env w1 (?res\<lparr>error := Some (Msg (if m = [] then ''Unknown error'' else m))\<rparr>) trader)"
        by (subst executeSell.simps) (simp add: body [simplified] Inl e False Let_def)
      show ?thesis by (simp only: l r)
    qed
  qed
qed

lemma executeBuy_invalid:
  assumes nd: "\<not> fst (isDuplicateTrade env w (id_pos pos) trader Buy)"
    and tok: "id_pos pos \<noteq> []"
    and bad: "\<not> passesLimits cfg pos"
  shows "executeBuy cfg env w pos trader rc =
          (\<lparr>success = False, position = pos, orderId = None,
            executedQuantity = None, executedPrice = None,
            error = Some (limitError cfg pos), dryRun_res = dryRun cfg, retryCount = rc\<rparr>,
           dupWorld w)"
  by (subst executeBuy.simps) (simp add: try_invalid [OF nd tok bad])

lemma executeBuy_dry:
  assumes nd: "\<not> fst (isDuplicateTrade env w (id_pos pos) trader Buy)"
    and tok: "id_pos pos \<noteq> []"
    and ok: "passesLimits cfg pos"
    and dry: "dryRun cfg"
  shows "success (fst (executeBuy cfg env w pos trader rc))
       \<and> orders (snd (executeBuy cfg env w pos trader rc)) = orders w"
  by (subst executeBuy.simps, subst (2) executeBuy.simps) (simp add: try_dry [OF nd tok ok dry] Let_def)

lemma spec_orders:
  "\<exists>ys. orders (snd (executeBuy cfg env w pos trader rc)) = orders w @ ys"
proof (cases "success (fst (executeBuy cfg env w pos trader rc))")
  case True
  then have "saved env trader w (fst (executeBuy cfg env w pos trader rc)) (snd (executeBuy cfg env w pos trader rc))"
    using executeBuy_spec [of cfg env w pos trader rc] by simp
  then show ?thesis by (auto simp: saved_def frame_def)
next
  case False
  then have "frame w (snd (executeBuy cfg env w pos trader rc))"
    using executeBuy_spec [of cfg env w pos trader rc] by simp
  then show ?thesis by (auto simp: frame_def)
qed

lemma executeBuy_live_first_order:
  assumes nd: "\<not> fst (isDuplicateTrade env w (id_pos pos) trader Buy)"
    and tok: "id_pos pos \<noteq> []"
    and ok: "passesLimits cfg pos"
    and live: "\<not> dryRun cfg"
    and key: "apiKeyCreated w"
  shows "\<exists>ys. orders (snd (executeBuy cfg env w pos trader rc)) = orders w @ buyOrder cfg pos # ys"
proof -
  let ?res = "\<lparr>success = False, position = pos, orderId = None,
                executedQuantity = None, executedPrice = None, error = None,
                dryRun_res = dryRun cfg, retryCount = rc\<rparr>"
  let ?w3 = "w\<lparr>dbClock := dbClock w + 1, orders := orders w @ [buyOrder cfg pos]\<rparr>"
  have nd': "isDuplicateTrade env w (id_pos pos) trader Buy = (False, dupWorld w)"
    using nd dup_snd [of env w "id_pos pos" trader Buy] by simp
  note body = executeBuyTry_submit [OF nd' tok ok live key, of ?res]
  show ?thesis
  proof (cases "createAndPostOrder env (length (orders w))")
    case (Inr oid)
    have "orders (snd (executeBuy cfg env w pos trader rc)) = orders w @ [buyOrder cfg pos]"
      by (subst executeBuy.simps) (simp add: body Inr)
    then show ?thesis by simp
  next
    case (Inl m)
    have b: "executeBuyTry cfg env w pos trader ?res = Inl (m, ?w3)"
      using body Inl by simp
    show ?thesis
    proof (cases "int rc < maxRetryAttempts cfg")
      case True
      let ?w4 = "?w3\<lparr>sleeps := sleeps ?w3 @ [(length (orders ?w3), retryDelay cfg)]\<rparr>"
      have unf: "executeBuy cfg env w pos trader rc = executeBuy cfg env ?w4 pos trader (rc + 1)"
        by (subst executeBuy.simps) (simp add: b True)
      obtain ys where "orders (snd (executeBuy cfg env ?w4 pos trader (rc + 1))) = orders ?w4 @ ys"
        using spec_orders by blast
      then show ?thesis unfolding unf by simp
    next
      case False
      have "orders (snd (executeBuy cfg env w pos trader rc)) = orders w @ [buyOrder cfg pos]"
        by (subst executeBuy.simps) (simp add: b False Let_def)
      then show ?thesis by simp
    qed
  qed
qed

lemma executeBuy_limits_fail:
  "\<not> passesLimits cfg pos \<Longrightarrow>
   \<not> success (fst (executeBuy cfg env w pos trader rc))
   \<and> orders (snd (executeBuy cfg env w pos trader rc)) = orders w"
proof (induction cfg env w pos trader rc rule: executeBuy.induct)
  case (1 cfg env w pos trader rc)
  let ?res = "\<lparr>success = False, position = pos, orderId = None,
                executedQuantity = None, executedPrice = None, error = None,
                dryRun_res = dryRun cfg, retryCount = rc\<rparr>"
  note bad = "1.prems"
  consider (dup) "fst (isDuplicateTrade env w (id_pos pos) trader Buy)"
    | (missing) "\<not> fst (isDuplicateTrade env w (id_pos pos) trader Buy)" "id_pos pos = []"
    | (invalid) "\<not> fst (isDuplicateTrade env w (id_pos pos) trader Buy)" "id_pos pos \<noteq> []"
    by blast
  then show ?case
  proof cases
    case dup
    have "executeBuy cfg env w pos trader rc
          = (?res\<lparr>error := Some (Msg ''Duplicate trade'')\<rparr>, dupWorld w)"
      by (subst executeBuy.simps) (simp add: try_dup [OF dup])
    then show ?thesis by simp
  next
    case missing
    have body: "executeBuyTry cfg env w pos trader ?res
                = Inl (''Position ID (token ID) is missing'', dupWorld w)"
      using missing by (rule try_missing)
    show ?thesis
    proof (cases "int rc < maxRetryAttempts cfg")
      case True
      let ?w4 = "(dupWorld w)\<lparr>sleeps := sleeps (dupWorld w) @ [(length (orders (dupWorld w)), retryDelay cfg)]\<rparr>"
      have ih: "\<not> success (fst (executeBuy cfg env ?w4 pos trader (rc + 1)))
                \<and> orders (snd (executeBuy cfg env ?w4 pos trader (rc + 1))) = orders ?w4"
        using "1.IH" [OF refl body refl True] bad by simp
      have unf: "executeBuy cfg env w pos trader rc = executeBuy cfg env ?w4 pos trader (rc + 1)"
        by (subst executeBuy.simps) (simp add: body True)
      show ?thesis unfolding unf using ih by simp
    next
      case False
      have unf: "executeBuy cfg env w pos trader rc =
            (?res\<lparr>error := Some (Msg ''Position ID (token ID) is missing'')\<rparr>,
             saveTrade env (dupWorld w) (?res\<lparr>error := Some (Msg ''Position ID (token ID) is missing'')\<rparr>) trader)"
        by (subst executeBuy.simps) (simp add: body False Let_def)
      show ?thesis unfolding unf by simp
    qed
  next
    case invalid
    show ?thesis by (simp add: executeBuy_invalid [OF invalid bad])
  qed
qed

text \<open>
  C4. For a buy candidate, with \<open>tradeQuantity = rawQuantity * positionSizeMultiplier\<close> and
  \<open>notional = tradeQuantity * price\<close>, the products being those of double arithmetic: if
  \<open>notional < minTradeSize\<close>, or \<open>notional > maxTradeSize\<close>, or
  \<open>positionValue * positionSizeMultiplier > maxPositionSize\<close>, the result is a failure and no
  order is submitted. When the candidate is not a duplicate and has an identifier, the
  failure is that of the first of the three checks that fails, in this order, each with
  its own message; otherwise a success carries \<open>tradeQuantity\<close>, a dry run succeeds without
  an order, and a live run submits an order for \<open>tradeQuantity\<close>. \<^verbatim>\<open>executeSell\<close> does not
  depend on the three limits.
\<close>

theorem open_validation:
  assumes tq: "tradeQuantity = js_mul (parseFloat (quantity pos)) (positionSizeMultiplier cfg)"
    and nv: "notional = js_mul tradeQuantity (parseFloat (price pos))"
    and pv: "positionValue =
               js_mul (parseFloat (if value_pos pos = [] then ''0'' else value_pos pos))
                      (positionSizeMultiplier cfg)"
    and r: "r = fst (executeBuy cfg env w pos trader rc)"
    and w': "w' = snd (executeBuy cfg env w pos trader rc)"
  shows "(js_lt notional (minTradeSize cfg) \<or> js_gt notional (maxTradeSize cfg)
            \<or> js_gt positionValue (maxPositionSize cfg) \<longrightarrow>
            \<not> success r \<and> orders w' = orders w)
       \<and> (\<not> fst (isDuplicateTrade env w (id_pos pos) trader Buy) \<and> id_pos pos \<noteq> [] \<longrightarrow>
           (js_lt notional (minTradeSize cfg) \<longrightarrow>
              \<not> success r \<and> error r = Some (BelowMinimum notional (minTradeSize cfg)) \<and> orders w' = orders w)
         \<and> (\<not> js_lt notional (minTradeSize cfg) \<and> js_gt notional (maxTradeSize cfg) \<longrightarrow>
              \<not> success r \<and> error r = Some (ExceedsMaximum notional (maxTradeSize cfg)) \<and> orders w' = orders w)
         \<and> (\<not> js_lt notional (minTradeSize cfg) \<and> \<not> js_gt notional (maxTradeSize cfg)
              \<and> js_gt positionValue (maxPositionSize cfg) \<longrightarrow>
              \<not> success r \<and> error r = Some (PositionExceedsMaximum positionValue (maxPositionSize cfg))
              \<and> orders w' = orders w)
         \<and> (\<not> js_lt notional (minTradeSize cfg) \<and> \<not> js_gt notional (maxTradeSize cfg)
              \<and> \<not> js_gt positionValue (maxPositionSize cfg) \<longrightarrow>
              (success r \<longrightarrow> executedQuantity r = Some tradeQuantity
                              \<and> executedPrice r = Some (parseFloat (price pos)))
              \<and> (dryRun cfg \<longrightarrow> success r \<and> orders w' = orders w)
              \<and> (\<not> dryRun cfg \<and> apiKeyCreated w \<longrightarrow>
                   (\<exists>ys. orders w' = orders w @
                      \<lparr>tokenID = id_pos pos, price_ord = parseFloat (price pos),
                        size_ord = tradeQuantity, side_ord = Buy\<rparr> # ys))))
       \<and> (\<forall>a b c. executeSell (cfg\<lparr>minTradeSize := a, maxTradeSize := b, maxPositionSize := c\<rparr>)
                      env w pos trader rc
                    = executeSell cfg env w pos trader rc)"
proof -
  have pl: "passesLimits cfg pos \<longleftrightarrow>
        \<not> js_lt notional (minTradeSize cfg) \<and> \<not> js_gt notional (maxTradeSize cfg)
        \<and> \<not> js_gt positionValue (maxPositionSize cfg)"
    by (simp add: passesLimits_def Let_def tq nv pv)
  have le: "limitError cfg pos =
        (if js_lt notional (minTradeSize cfg) then BelowMinimum notional (minTradeSize cfg)
         else if js_gt notional (maxTradeSize cfg) then ExceedsMaximum notional (maxTradeSize cfg)
         else PositionExceedsMaximum positionValue (maxPositionSize cfg))"
    by (simp add: limitError_def Let_def tq nv pv)
  have 0: "js_lt notional (minTradeSize cfg) \<or> js_gt notional (maxTradeSize cfg)
            \<or> js_gt positionValue (maxPositionSize cfg) \<longrightarrow>
            \<not> success r \<and> orders w' = orders w"
    unfolding r w' using executeBuy_limits_fail [of cfg pos env w trader rc] pl by blast
  have core: "(js_lt notional (minTradeSize cfg) \<longrightarrow>
              \<not> success r \<and> error r = Some (BelowMinimum notional (minTradeSize cfg)) \<and> orders w' = orders w)
         \<and> (\<not> js_lt notional (minTradeSize cfg) \<and> js_gt notional (maxTradeSize cfg) \<longrightarrow>
              \<not> success r \<and> error r = Some (ExceedsMaximum notional (maxTradeSize cfg)) \<and> orders w' = orders w)
         \<and> (\<not> js_lt notional (minTradeSize cfg) \<and> \<not> js_gt notional (maxTradeSize cfg)
              \<and> js_gt positionValue (maxPositionSize cfg) \<longrightarrow>
              \<not> success r \<and> error r = Some (PositionExceedsMaximum positionValue (maxPositionSize cfg))
              \<and> orders w' = orders w)
         \<and> (\<not> js_lt notional (minTradeSize cfg) \<and> \<not> js_gt notional (maxTradeSize cfg)
              \<and> \<not> js_gt positionValue (maxPositionSize cfg) \<longrightarrow>
              (success r \<longrightarrow> executedQuantity r = Some tradeQuantity
                              \<and> executedPrice r = Some (parseFloat (price pos)))
              \<and> (dryRun cfg \<longrightarrow> success r \<and> orders w' = orders w)
              \<and> (\<not> dryRun cfg \<and> apiKeyCreated w \<longrightarrow>
                   (\<exists>ys. orders w' = orders w @
                      \<lparr>tokenID = id_pos pos, price_ord = parseFloat (price pos),
                        size_ord = tradeQuantity, side_ord = Buy\<rparr> # ys)))"
    if nd: "\<not> fst (isDuplicateTrade env w (id_pos pos) trader Buy)" and tok: "id_pos pos \<noteq> []"
  proof -
    have bad: "\<not> passesLimits cfg pos \<Longrightarrow>
          \<not> success r \<and> error r = Some (limitError cfg pos) \<and> orders w' = orders w"
      unfolding r w' by (simp add: executeBuy_invalid [OF nd tok])
    have 1: "js_lt notional (minTradeSize cfg) \<longrightarrow>
              \<not> success r \<and> error r = Some (BelowMinimum notional (minTradeSize cfg)) \<and> orders w' = orders w"
      using bad pl le by simp
    have 2: "\<not> js_lt notional (minTradeSize cfg) \<and> js_gt notional (maxTradeSize cfg) \<longrightarrow>
              \<not> success r \<and> error r = Some (ExceedsMaximum notional (maxTradeSize cfg)) \<and> orders w' = orders w"
      using bad pl le by simp
    have 3: "\<not> js_lt notional (minTradeSize cfg) \<and> \<not> js_gt notional (maxTradeSize cfg)
              \<and> js_gt positionValue (maxPositionSize cfg) \<longrightarrow>
              \<not> success r \<and> error r = Some (PositionExceedsMaximum positionValue (maxPositionSize cfg))
              \<and> orders w' = orders w"
      using bad pl le by simp
    have d1: "success r \<longrightarrow> executedQuantity r = Some tradeQuantity
                              \<and> executedPrice r = Some (parseFloat (price pos))"
      unfolding r tq using executeBuy_spec [of cfg env w pos trader rc] by (simp add: filledBy_def)
    have d2: "passesLimits cfg pos \<Longrightarrow> dryRun cfg \<Longrightarrow> success r \<and> orders w' = orders w"
      unfolding r w' using executeBuy_dry [OF nd tok] by simp
    have d3: "passesLimits cfg pos \<Longrightarrow> \<not> dryRun cfg \<Longrightarrow> apiKeyCreated w \<Longrightarrow>
          \<exists>ys. orders w' = orders w @
                      \<lparr>tokenID = id_pos pos, price_ord = parseFloat (price pos),
                        size_ord = tradeQuantity, side_ord = Buy\<rparr> # ys"
      unfolding w' tq using executeBuy_live_first_order [OF nd tok, of cfg rc]
      by (simp add: buyOrder_def)
    have 4: "\<not> js_lt notional (minTradeSize cfg) \<and> \<not> js_gt notional (maxTradeSize cfg)
              \<and> \<not> js_gt positionValue (maxPositionSize cfg) \<longrightarrow>
              (success r \<longrightarrow> executedQuantity r = Some tradeQuantity
                              \<and> executedPrice r = Some (parseFloat (price pos)))
              \<and> (dryRun cfg \<longrightarrow> success r \<and> orders w' = orders w)
              \<and> (\<not> dryRun cfg \<and> apiKeyCreated w \<longrightarrow>
                   (\<exists>ys. orders w' = orders w @
                      \<lparr>tokenID = id_pos pos, price_ord = parseFloat (price pos),
                        size_ord = tradeQuantity, side_ord = Buy\<rparr> # ys))"
      using d1 d2 d3 pl by blast
    show ?thesis using 1 2 3 4 by blast
  qed
  have 5: "\<forall>a b c. executeSell (cfg\<lparr>minTradeSize := a, maxTradeSize := b, maxPositionSize := c\<rparr>)
                      env w pos trader rc
                    = executeSell cfg env w pos trader rc"
    by (simp add: executeSell_limits)
  show ?thesis using 0 core 5 by blast
qed

lemmas ex_defs3 = ex_defs2 ex_env_reject_def ex_env_accept_def ex_env_offline_def ex_doc_def

subsection \<open>Duplicates\<close>

lemma executeBuy_duplicate:
  assumes up: "isDatabaseConnected env (dbClock w)" "\<not> findOneThrows env (dbClock w)"
    and doc: "successDoc (id_pos pos) trader Buy (trades w)"
  shows "executeBuy cfg env w pos trader rc =
          (\<lparr>success = False, position = pos, orderId = None,
            executedQuantity = None, executedPrice = None,
            error = Some (Msg ''Duplicate trade''), dryRun_res = dryRun cfg, retryCount = rc\<rparr>,
           dupWorld w)"
proof -
  have "fst (isDuplicateTrade env w (id_pos pos) trader Buy)"
    using up doc by (simp add: isDuplicateTrade_def successDoc_def Let_def)
  then show ?thesis
    by (subst executeBuy.simps) (simp add: try_dup)
qed

text \<open>
  C2. \<^verbatim>\<open>executeBuy\<close> returns ``Duplicate trade'' without an order when the connected store
  holds a success document for the buy. \<^verbatim>\<open>executeSell\<close> makes no such check: with a success
  document for the sell in the connected store, it submits the order and succeeds.
\<close>

theorem dedup_sell_missing:
  "successDoc (id_pos ex_p) ''0xT'' Sell (trades (ex_world [ex_doc Sell]))
   \<and> isDatabaseConnected ex_env_accept 0
   \<and> success (fst (executeSell ex_cfg ex_env_accept (ex_world [ex_doc Sell]) ex_p ''0xT'' 0))
   \<and> orders (snd (executeSell ex_cfg ex_env_accept (ex_world [ex_doc Sell]) ex_p ''0xT'' 0))
       = [sellOrder ex_cfg ex_p]
   \<and> error (fst (executeBuy ex_cfg ex_env_accept (ex_world [ex_doc Buy]) ex_p ''0xT'' 0))
       = Some (Msg ''Duplicate trade'')
   \<and> orders (snd (executeBuy ex_cfg ex_env_accept (ex_world [ex_doc Buy]) ex_p ''0xT'' 0)) = []"
  by code_simp

text \<open>
  C8 as stated fails: with the store connected and an exchange that always throws, the
  failed result is returned after the last retry and no document is written.
\<close>

theorem persistence_counterexample:
  "isDatabaseConnected ex_env_reject 4
   \<and> \<not> success (fst (executeBuy ex_cfg ex_env_reject (ex_world []) ex_p ''0xT'' 0))
   \<and> error (fst (executeBuy ex_cfg ex_env_reject (ex_world []) ex_p ''0xT'' 0)) = Some (Msg ''boom'')
   \<and> dbClock (snd (executeBuy ex_cfg ex_env_reject (ex_world []) ex_p ''0xT'' 0)) = 5
   \<and> trades (snd (executeBuy ex_cfg ex_env_reject (ex_world []) ex_p ''0xT'' 0)) = []"
  by code_simp

lemmas ex_defs4 = ex_defs3 ex_cfg_min200_def ex_cfg_max50_def ex_cfg_pos50_def ex_cfg_dry_def
  ex_cfg_min29_def ex_q29_def

text \<open>
  The order for 50 units at price 2 has notional 100. It fails a minimum of 200, a
  maximum of 50 and a position limit of 50; within the limits it is copied. The order for
  100 units at price 0.29 has the notional 28.999999999999996 and fails a minimum of 29.
  The same position without identifier fails the minimum of 200 as well, without an order.
\<close>

theorem open_validation_witness:
  "\<not> fst (isDuplicateTrade ex_env_accept (ex_world []) (id_pos ex_p) ''0xT'' Buy)
   \<and> id_pos ex_p \<noteq> []
   \<and> js_mul (js_mul (parseFloat (quantity ex_p)) (Fin (1 / 2))) (parseFloat (price ex_p)) = Fin 100
   \<and> js_mul (parseFloat (value_pos ex_p)) (Fin (1 / 2)) = Fin 100
   \<and> error (fst (executeBuy ex_cfg_min200 ex_env_accept (ex_world []) ex_p ''0xT'' 0))
       = Some (BelowMinimum (Fin 100) (Fin 200))
   \<and> error (fst (executeBuy ex_cfg_max50 ex_env_accept (ex_world []) ex_p ''0xT'' 0))
       = Some (ExceedsMaximum (Fin 100) (Fin 50))
   \<and> orders (snd (executeBuy ex_cfg_max50 ex_env_accept (ex_world []) ex_p ''0xT'' 0)) = []
   \<and> error (fst (executeBuy ex_cfg_pos50 ex_env_accept (ex_world []) ex_p ''0xT'' 0))
       = Some (PositionExceedsMaximum (Fin 100) (Fin 50))
   \<and> executedQuantity (fst (executeBuy ex_cfg_dry ex_env_accept (ex_world []) ex_p ''0xT'' 0))
       = Some (Fin 50)
   \<and> orders (snd (executeBuy ex_cfg_dry ex_env_accept (ex_world []) ex_p ''0xT'' 0)) = []
   \<and> (\<exists>ys. orders (snd (executeBuy ex_cfg ex_env_accept (ex_world []) ex_p ''0xT'' 0))
             = \<lparr>tokenID = ''tok'', price_ord = Fin 2, size_ord = Fin 50, side_ord = Buy\<rparr> # ys)
   \<and> \<not> fst (isDuplicateTrade ex_env_accept (ex_world []) (id_pos ex_q29) ''0xT'' Buy)
   \<and> id_pos ex_q29 \<noteq> []
   \<and> js_mul (js_mul (parseFloat (quantity ex_q29)) (Fin (1 / 2))) (parseFloat (price ex_q29))
       = Fin (8162774324609023 / 2 ^ 48)
   \<and> error (fst (executeBuy ex_cfg_min29 ex_env_accept (ex_world []) ex_q29 ''0xT'' 0))
       = Some (BelowMinimum (Fin (8162774324609023 / 2 ^ 48)) (Fin 29))
   \<and> orders (snd (executeBuy ex_cfg_min29 ex_env_accept (ex_world []) ex_q29 ''0xT'' 0)) = []
   \<and> id_pos ex_noid = []
   \<and> \<not> success (fst (executeBuy ex_cfg_min200 ex_env_accept (ex_world []) ex_noid ''0xT'' 0))
   \<and> orders (snd (executeBuy ex_cfg_min200 ex_env_accept (ex_world []) ex_noid ''0xT'' 0)) = []"
proof -
  have nd: "\<not> fst (isDuplicateTrade ex_env_accept (ex_world []) (id_pos ex_p) ''0xT'' Buy)"
    by (simp add: isDuplicateTrade_def ex_defs4)
  have tok: "id_pos ex_p \<noteq> []" by (simp add: ex_defs4)
  have q: "js_mul (parseFloat (quantity ex_p)) (Fin (1 / 2)) = Fin 50"
    and n: "js_mul (Fin 50) (parseFloat (price ex_p)) = Fin 100"
    and p: "parseFloat (price ex_p) = Fin 2"
    and v: "js_mul (parseFloat (if value_pos ex_p = [] then ''0'' else value_pos ex_p)) (Fin (1 / 2)) = Fin 100"
    and v': "js_mul (parseFloat (value_pos ex_p)) (Fin (1 / 2)) = Fin 100"
    and n': "js_mul (js_mul (parseFloat (quantity ex_p)) (Fin (1 / 2))) (parseFloat (price ex_p)) = Fin 100"
    by code_simp+
  have dv: "dbl 100 = Fin 100" "dbl 50 = Fin 50" "dbl 2 = Fin 2" "dbl 200 = Fin 200"
    by code_simp+
  have nd29: "\<not> fst (isDuplicateTrade ex_env_accept (ex_world []) (id_pos ex_q29) ''0xT'' Buy)"
    by (simp add: isDuplicateTrade_def ex_defs4)
  have tok29: "id_pos ex_q29 \<noteq> []" by (simp add: ex_defs4)
  have n29: "js_mul (js_mul (parseFloat (quantity ex_q29)) (Fin (1 / 2))) (parseFloat (price ex_q29))
       = Fin (8162774324609023 / 2 ^ 48)"
    and lt29: "js_lt (Fin (8162774324609023 / 2 ^ 48)) (Fin 29)"
    by code_simp+
  have c29: "positionSizeMultiplier ex_cfg_min29 = Fin (1 / 2)" "minTradeSize ex_cfg_min29 = Fin 29"
    by (simp_all add: ex_defs4)
  have g: "error (fst (executeBuy ex_cfg_min29 ex_env_accept (ex_world []) ex_q29 ''0xT'' 0))
       = Some (BelowMinimum (Fin (8162774324609023 / 2 ^ 48)) (Fin 29))
     \<and> orders (snd (executeBuy ex_cfg_min29 ex_env_accept (ex_world []) ex_q29 ''0xT'' 0)) = []"
    using open_validation [OF refl refl refl refl refl, where cfg = ex_cfg_min29 and env = ex_env_accept
        and w = "ex_world []" and pos = ex_q29 and trader = "''0xT''" and rc = 0] lt29 nd29 tok29
    unfolding c29 n29 by (simp add: ex_world_def)
  have c: "positionSizeMultiplier ex_cfg_min200 = Fin (1 / 2)" "minTradeSize ex_cfg_min200 = Fin 200"
    "positionSizeMultiplier ex_cfg_max50 = Fin (1 / 2)" "minTradeSize ex_cfg_max50 = Fin 1"
    "maxTradeSize ex_cfg_max50 = Fin 50"
    "positionSizeMultiplier ex_cfg_pos50 = Fin (1 / 2)" "minTradeSize ex_cfg_pos50 = Fin 1"
    "maxTradeSize ex_cfg_pos50 = Fin 5000" "maxPositionSize ex_cfg_pos50 = Fin 50"
    "positionSizeMultiplier ex_cfg_dry = Fin (1 / 2)" "minTradeSize ex_cfg_dry = Fin 1"
    "maxTradeSize ex_cfg_dry = Fin 5000" "maxPositionSize ex_cfg_dry = Fin 10000" "dryRun ex_cfg_dry"
    "positionSizeMultiplier ex_cfg = Fin (1 / 2)" "minTradeSize ex_cfg = Fin 1"
    "maxTradeSize ex_cfg = Fin 5000" "maxPositionSize ex_cfg = Fin 10000" "\<not> dryRun ex_cfg"
    by (simp_all add: ex_defs4)
  have w: "orders (ex_world []) = []" "apiKeyCreated (ex_world [])" "id_pos ex_p = ''tok''"
    by (simp_all add: ex_defs4)
  have a: "error (fst (executeBuy ex_cfg_min200 ex_env_accept (ex_world []) ex_p ''0xT'' 0))
       = Some (BelowMinimum (Fin 100) (Fin 200))"
    using open_validation [OF refl refl refl refl refl, where cfg = ex_cfg_min200 and env = ex_env_accept
        and w = "ex_world []" and pos = ex_p and trader = "''0xT''" and rc = 0] nd tok
    by (simp add: c q n v js_gt_def dv)
  have b: "error (fst (executeBuy ex_cfg_max50 ex_env_accept (ex_world []) ex_p ''0xT'' 0))
       = Some (ExceedsMaximum (Fin 100) (Fin 50))
     \<and> orders (snd (executeBuy ex_cfg_max50 ex_env_accept (ex_world []) ex_p ''0xT'' 0)) = []"
    using open_validation [OF refl refl refl refl refl, where cfg = ex_cfg_max50 and env = ex_env_accept
        and w = "ex_world []" and pos = ex_p and trader = "''0xT''" and rc = 0] nd tok
    by (simp add: c q n v w js_gt_def dv)
  have d: "error (fst (executeBuy ex_cfg_pos50 ex_env_accept (ex_world []) ex_p ''0xT'' 0))
       = Some (PositionExceedsMaximum (Fin 100) (Fin 50))"
    using open_validation [OF refl refl refl refl refl, where cfg = ex_cfg_pos50 and env = ex_env_accept
        and w = "ex_world []" and pos = ex_p and trader = "''0xT''" and rc = 0] nd tok
    by (simp add: c q n v js_gt_def dv)
  have e: "executedQuantity (fst (executeBuy ex_cfg_dry ex_env_accept (ex_world []) ex_p ''0xT'' 0))
       = Some (Fin 50)
     \<and> orders (snd (executeBuy ex_cfg_dry ex_env_accept (ex_world []) ex_p ''0xT'' 0)) = []"
    using open_validation [OF refl refl refl refl refl, where cfg = ex_cfg_dry and env = ex_env_accept
        and w = "ex_world []" and pos = ex_p and trader = "''0xT''" and rc = 0] nd tok
    by (simp add: c q n v w js_gt_def dv)
  have f: "\<exists>ys. orders (snd (executeBuy ex_cfg ex_env_accept (ex_world []) ex_p ''0xT'' 0))
             = \<lparr>tokenID = ''tok'', price_ord = Fin 2, size_ord = Fin 50, side_ord = Buy\<rparr> # ys"
    using open_validation [OF refl refl refl refl refl, where cfg = ex_cfg and env = ex_env_accept
        and w = "ex_world []" and pos = ex_p and trader = "''0xT''" and rc = 0] nd tok
    by (simp add: c q n v w p js_gt_def dv)
  have noid: "id_pos ex_noid = []" by (simp add: ex_noid_def ex_position_def)
  have lt: "js_lt (js_mul (js_mul (parseFloat (quantity ex_noid)) (positionSizeMultiplier ex_cfg_min200))
                          (parseFloat (price ex_noid)))
                  (minTradeSize ex_cfg_min200)"
    by code_simp
  have h: "\<not> success (fst (executeBuy ex_cfg_min200 ex_env_accept (ex_world []) ex_noid ''0xT'' 0))
     \<and> orders (snd (executeBuy ex_cfg_min200 ex_env_accept (ex_world []) ex_noid ''0xT'' 0)) = []"
    using open_validation [OF refl refl refl refl refl, where cfg = ex_cfg_min200 and env = ex_env_accept
        and w = "ex_world []" and pos = ex_noid and trader = "''0xT''" and rc = 0] lt
    by (simp add: ex_world_def)
  show ?thesis using nd tok n' v' a b d e f nd29 tok29 n29 g noid h by simp
qed

text \<open>
  With the store connected: an accepted buy appends its document; a rejected buy and a
  rejected sell leave the collection as it was.
\<close>

theorem persistence_witness:
  "(\<forall>k. isDatabaseConnected ex_env_accept k \<and> \<not> saveThrows ex_env_accept k)
   \<and> success (fst (executeBuy ex_cfg ex_env_accept (ex_world []) ex_p ''0xT'' 0))
   \<and> value_pos ex_p \<noteq> []
   \<and> trades (snd (executeBuy ex_cfg ex_env_accept (ex_world []) ex_p ''0xT'' 0))
       = [\<lparr>positionId = ''tok'', traderAddress = ''0xT'', marketId = ''m1'', outcome_doc = ''Yes'',
           side_doc = Buy, orderId_doc = Some ''order-1'', dryRun_doc = False,
           success_doc = True, error_doc = None\<rparr>]
   \<and> \<not> success (fst (executeBuy ex_cfg ex_env_reject (ex_world [ex_doc Sell]) ex_p ''0xT'' 0))
   \<and> trades (snd (executeBuy ex_cfg ex_env_reject (ex_world [ex_doc Sell]) ex_p ''0xT'' 0)) = [ex_doc Sell]
   \<and> \<not> success (fst (executeSell ex_cfg ex_env_reject (ex_world [ex_doc Sell]) ex_p ''0xT'' 0))
   \<and> trades (snd (executeSell ex_cfg ex_env_reject (ex_world [ex_doc Sell]) ex_p ''0xT'' 0)) = [ex_doc Sell]"
proof -
  have up: "\<forall>k. isDatabaseConnected ex_env_accept k \<and> \<not> saveThrows ex_env_accept k"
    by (simp add: ex_defs4)
  have sb: "success (fst (executeBuy ex_cfg ex_env_accept (ex_world []) ex_p ''0xT'' 0))"
    and fb: "\<not> success (fst (executeBuy ex_cfg ex_env_reject (ex_world [ex_doc Sell]) ex_p ''0xT'' 0))"
    and fs: "\<not> success (fst (executeSell ex_cfg ex_env_reject (ex_world [ex_doc Sell]) ex_p ''0xT'' 0))"
    and ob: "orderId (fst (executeBuy ex_cfg ex_env_accept (ex_world []) ex_p ''0xT'' 0)) = Some ''order-1''"
    and db: "\<not> dryRun_res (fst (executeBuy ex_cfg ex_env_accept (ex_world []) ex_p ''0xT'' 0))"
    and eb: "error (fst (executeBuy ex_cfg ex_env_accept (ex_world []) ex_p ''0xT'' 0)) = None"
    by code_simp+
  have t: "trades (ex_world []) = []" "trades (ex_world [ex_doc Sell]) = [ex_doc Sell]"
    "value_pos ex_p \<noteq> []" "id_pos ex_p = ''tok''" "id_mkt (market ex_p) = ''m1''"
    "outcome ex_p = ''Yes''"
    by (simp_all add: ex_defs4)
  note ok = persistence [OF refl refl, of ex_cfg ex_env_accept "ex_world []" ex_p "''0xT''" 0]
  note ko = persistence [OF refl refl, of ex_cfg ex_env_reject "ex_world [ex_doc Sell]" ex_p "''0xT''" 0]
  show ?thesis
    using ok ko up sb fb fs ob db eb t by simp
qed

section \<open>Properties of the monitor\<close>

subsection \<open>The calls of one status update\<close>

lemma handleStatusUpdate_unfold:
  "handleStatusUpdate cfg env mon w status trader =
     (let acc1 = foldl (\<lambda>acc pos. buyStep cfg env trader pos acc)
                       (w, stats mon, executedOf mon trader) (newPositions mon status trader);
          acc2 = foldl (\<lambda>acc pos. sellStep cfg env trader pos acc) acc1 (closedPositions mon status trader);
          targetPositions2 = AList.update trader (positionsMap (openPositions status)) (targetPositions mon)
      in (mon\<lparr>stats := (fst (snd acc2))\<lparr>activePositions := sum_list (map (\<lambda>(a, ps). length ps) targetPositions2)\<rparr>,
               executedPositions := (case executedPositions mon trader of
                                       None \<Rightarrow> executedPositions mon
                                     | Some ex \<Rightarrow> (executedPositions mon)(trader \<mapsto> snd (snd acc2))),
               targetPositions := targetPositions2\<rparr>,
          fst acc2))"
  by (simp add: handleStatusUpdate_def Let_def executedOf_def lastOf_def newPositions_def
      closedPositions_def case_prod_beta)

lemma executeBuy_frame:
  "position (fst (executeBuy cfg env w pos trader rc)) = pos"
  "executions (snd (executeBuy cfg env w pos trader rc)) = executions w"
  using executeBuy_spec [of cfg env w pos trader rc]
  by (auto simp: saved_def frame_def split: if_splits)

lemma executeSell_frame:
  "position (fst (executeSell cfg env w pos trader rc)) = pos"
  "executions (snd (executeSell cfg env w pos trader rc)) = executions w"
  using executeSell_spec [of cfg env w pos trader rc]
  by (auto simp: saved_def frame_def split: if_splits)

lemma buyStep_eq:
  "buyStep cfg env trader pos (w, st, ex) =
     (let r = fst (executeBuy cfg env w pos trader 0);
          w1 = snd (executeBuy cfg env w pos trader 0)
      in (w1\<lparr>executions := executions w @ [(Buy, trader, r)]\<rparr>,
          if success r then st\<lparr>totalTradesExecuted := totalTradesExecuted st + 1\<rparr>
          else st\<lparr>totalTradesFailed := totalTradesFailed st + 1\<rparr>,
          if success r then insert (id_pos pos) ex else ex))"
  by (simp add: buyStep_def Let_def case_prod_beta executeBuy_frame)

lemma sellStep_eq:
  "sellStep cfg env trader pos (w, st, ex) =
     (let r = fst (executeSell cfg env w pos trader 0);
          w1 = snd (executeSell cfg env w pos trader 0)
      in (w1\<lparr>executions := executions w @ [(Sell, trader, r)]\<rparr>,
          if success r then st\<lparr>totalTradesExecuted := totalTradesExecuted st + 1\<rparr>
          else st\<lparr>totalTradesFailed := totalTradesFailed st + 1\<rparr>,
          if success r then ex - {id_pos pos} else ex))"
  by (simp add: sellStep_def Let_def case_prod_beta executeSell_frame)

lemma buyLoop_calls:
  "calls (executions (fst (foldl (\<lambda>acc pos. buyStep cfg env trader pos acc) acc ps)))
   = calls (executions (fst acc)) @ map (\<lambda>p. (Buy, trader, p)) ps"
proof (induction ps arbitrary: acc)
  case Nil
  then show ?case by simp
next
  case (Cons p ps)
  obtain w st ex where acc: "acc = (w, st, ex)" by (cases acc)
  have "calls (executions (fst (buyStep cfg env trader p acc)))
        = calls (executions (fst acc)) @ [(Buy, trader, p)]"
    by (simp add: acc buyStep_eq Let_def calls_def executeBuy_frame)
  then show ?case using Cons.IH [of "buyStep cfg env trader p acc"] by simp
qed

lemma sellLoop_calls:
  "calls (executions (fst (foldl (\<lambda>acc pos. sellStep cfg env trader pos acc) acc ps)))
   = calls (executions (fst acc)) @ map (\<lambda>p. (Sell, trader, p)) ps"
proof (induction ps arbitrary: acc)
  case Nil
  then show ?case by simp
next
  case (Cons p ps)
  obtain w st ex where acc: "acc = (w, st, ex)" by (cases acc)
  have "calls (executions (fst (sellStep cfg env trader p acc)))
        = calls (executions (fst acc)) @ [(Sell, trader, p)]"
    by (simp add: acc sellStep_eq Let_def calls_def executeSell_frame)
  then show ?case using Cons.IH [of "sellStep cfg env trader p acc"] by simp
qed

lemma handle_calls:
  "calls (executions (snd (handleStatusUpdate cfg env mon w status trader)))
   = calls (executions w) @ map (\<lambda>p. (Buy, trader, p)) (newPositions mon status trader)
       @ map (\<lambda>p. (Sell, trader, p)) (closedPositions mon status trader)"
  by (simp add: handleStatusUpdate_unfold Let_def sellLoop_calls buyLoop_calls)

lemma foldl_invariant:
  "P acc \<Longrightarrow> (\<And>a x. x \<in> set xs \<Longrightarrow> P a \<Longrightarrow> P (f a x)) \<Longrightarrow> P (foldl f acc xs)"
  by (induction xs arbitrary: acc) auto

lemma set_update_subset: "set (AList.update k v al) \<subseteq> insert (k, v) (set al)"
  by (induction al) auto

lemma keyed_update: "keyed m \<Longrightarrow> keyed (AList.update (id_pos p) p m)"
  using set_update_subset [of "id_pos p" p m] by (auto simp: keyed_def)

lemma keyed_positionsMap: "keyed (positionsMap ps)"
  unfolding positionsMap_def
  by (rule foldl_invariant) (simp_all add: keyed_def keyed_update [unfolded keyed_def])

lemma keys_foldl_update:
  "fst ` set (foldl (\<lambda>m p. AList.update (id_pos p) p m) m ps) = fst ` set m \<union> id_pos ` set ps"
  by (induction ps arbitrary: m) (auto simp: AList.dom_update)

lemma has_positionsMap: "has (positionsMap ps) i \<longleftrightarrow> i \<in> id_pos ` set ps"
  using keys_foldl_update [of "[]" ps] by (simp add: has_def positionsMap_def)

lemma values_foldl_update:
  "snd ` set (foldl (\<lambda>m p. AList.update (id_pos p) p m) m ps) \<subseteq> snd ` set m \<union> set ps"
proof (induction ps arbitrary: m)
  case Nil
  then show ?case by simp
next
  case (Cons p ps)
  have "snd ` set (AList.update (id_pos p) p m) \<subseteq> insert p (snd ` set m)"
    using set_update_subset [of "id_pos p" p m] by auto
  moreover have "snd ` set (foldl (\<lambda>m p. AList.update (id_pos p) p m) (AList.update (id_pos p) p m) ps)
        \<subseteq> snd ` set (AList.update (id_pos p) p m) \<union> set ps"
    by (rule Cons.IH)
  ultimately show ?case unfolding foldl_Cons list.set(2) by blast
qed

lemma values_positionsMap: "snd ` set (positionsMap ps) \<subseteq> set ps"
  using values_foldl_update [of "[]" ps] by (simp add: positionsMap_def)

lemma lastOf_handle:
  "lastOf (fst (handleStatusUpdate cfg env mon w status trader)) trader
   = positionsMap (openPositions status)"
  by (simp add: handleStatusUpdate_unfold Let_def lastOf_def AList.update_conv')

lemma newPositions_ids:
  "p \<in> set (newPositions mon status trader) \<Longrightarrow>
   id_pos p \<in> id_pos ` set (openPositions status) \<and> \<not> has (lastOf mon trader) (id_pos p)
   \<and> id_pos p \<notin> executedOf mon trader \<and> p \<in> set (openPositions status)"
proof -
  assume "p \<in> set (newPositions mon status trader)"
  then obtain i where e: "(i, p) \<in> set (positionsMap (openPositions status))"
    and c: "\<not> has (lastOf mon trader) i" "i \<notin> executedOf mon trader"
    by (auto simp: newPositions_def)
  have k: "id_pos p = i" using keyed_positionsMap e by (auto simp: keyed_def)
  have "has (positionsMap (openPositions status)) i" using e by (force simp: has_def)
  then have "i \<in> id_pos ` set (openPositions status)" by (simp add: has_positionsMap)
  moreover have "p \<in> set (openPositions status)"
    using values_positionsMap [of "openPositions status"] e by force
  ultimately show ?thesis using k c by simp
qed

lemma closedPositions_ids:
  "keyed (lastOf mon trader) \<Longrightarrow> p \<in> set (closedPositions mon status trader) \<Longrightarrow>
   id_pos p \<notin> id_pos ` set (openPositions status) \<and> has (lastOf mon trader) (id_pos p)
   \<and> id_pos p \<in> executedOf mon trader"
proof -
  assume kl: "keyed (lastOf mon trader)" and "p \<in> set (closedPositions mon status trader)"
  then obtain i where e: "(i, p) \<in> set (lastOf mon trader)"
    and c: "\<not> has (positionsMap (openPositions status)) i" "i \<in> executedOf mon trader"
    by (auto simp: closedPositions_def)
  have k: "id_pos p = i" using kl e by (auto simp: keyed_def)
  have "has (lastOf mon trader) i" using e by (force simp: has_def)
  then show ?thesis using k c by (simp add: has_positionsMap)
qed

lemma attempts_calls:
  "attempts sd t i lg = length (filter (\<lambda>(s, t', p). s = sd \<and> t' = t \<and> id_pos p = i) (calls lg))"
  by (simp add: attempts_def calls_def filter_map comp_def case_prod_unfold)

lemma attempts_handle:
  "attempts sd trader i (executions (snd (handleStatusUpdate cfg env mon w status trader)))
   = attempts sd trader i (executions w)
     + (if sd = Buy then length (filter (\<lambda>p. id_pos p = i) (newPositions mon status trader))
        else length (filter (\<lambda>p. id_pos p = i) (closedPositions mon status trader)))"
  by (cases sd) (simp_all add: attempts_calls handle_calls filter_map comp_def)

lemma no_filter: "(\<forall>x \<in> set xs. \<not> P x) \<Longrightarrow> length (filter P xs) = 0"
  by (induction xs) auto

lemma some_filter: "0 < length (filter P xs) \<Longrightarrow> \<exists>x \<in> set xs. P x"
  by (induction xs) (auto split: if_splits)

text \<open>
  C5. In one status update for a trader, a sell is attempted for an identifier only if it
  is in the trader's executed set, in the previous position map and absent from the
  current status; and an identifier of the previous map that is absent from the current
  status and not in the executed set gets no execution at all, neither sell nor buy.
\<close>

theorem close_requires_open:
  assumes kl: "keyed (lastOf mon trader)"
    and w': "w' = snd (handleStatusUpdate cfg env mon w status trader)"
  shows "(\<forall>i. attempts Sell trader i (executions w) < attempts Sell trader i (executions w') \<longrightarrow>
            i \<in> executedOf mon trader \<and> has (lastOf mon trader) i
            \<and> i \<notin> id_pos ` set (openPositions status))
       \<and> (\<forall>i. has (lastOf mon trader) i \<and> i \<notin> id_pos ` set (openPositions status)
               \<and> i \<notin> executedOf mon trader \<longrightarrow>
            attempts Sell trader i (executions w') = attempts Sell trader i (executions w)
            \<and> attempts Buy trader i (executions w') = attempts Buy trader i (executions w))"
proof (intro conjI allI impI)
  fix i
  assume "attempts Sell trader i (executions w) < attempts Sell trader i (executions w')"
  then have "0 < length (filter (\<lambda>p. id_pos p = i) (closedPositions mon status trader))"
    unfolding w' attempts_handle by simp
  then obtain p where p: "p \<in> set (closedPositions mon status trader)" "id_pos p = i"
    using some_filter [of "\<lambda>p. id_pos p = i" "closedPositions mon status trader"] by blast
  have "id_pos p \<notin> id_pos ` set (openPositions status) \<and> has (lastOf mon trader) (id_pos p)
        \<and> id_pos p \<in> executedOf mon trader"
    using kl p(1) by (rule closedPositions_ids)
  then show "i \<in> executedOf mon trader" "has (lastOf mon trader) i"
    "i \<notin> id_pos ` set (openPositions status)"
    unfolding p(2) by blast+
next
  fix i
  assume a: "has (lastOf mon trader) i \<and> i \<notin> id_pos ` set (openPositions status)
               \<and> i \<notin> executedOf mon trader"
  have "\<forall>p \<in> set (closedPositions mon status trader). \<not> id_pos p = i"
    using closedPositions_ids [OF kl] a by blast
  then have c0: "length (filter (\<lambda>p. id_pos p = i) (closedPositions mon status trader)) = 0"
    by (rule no_filter)
  show "attempts Sell trader i (executions w') = attempts Sell trader i (executions w)"
    unfolding w' attempts_handle using c0 by simp
  have "\<forall>p \<in> set (newPositions mon status trader). \<not> id_pos p = i"
    using newPositions_ids a by blast
  then have n0: "length (filter (\<lambda>p. id_pos p = i) (newPositions mon status trader)) = 0"
    by (rule no_filter)
  show "attempts Buy trader i (executions w') = attempts Buy trader i (executions w)"
    unfolding w' attempts_handle using n0 by simp
qed

subsection \<open>The collection and the log along the loops\<close>

lemma saveTrade_trades:
  "trades (saveTrade env w r t) = trades w
   \<or> (success r \<and> trades (saveTrade env w r t) = trades w @ [tradeDocument r t])"
  by (simp add: saveTrade_def Let_def)

lemma successDoc_append: "successDoc i t sd ts \<Longrightarrow> successDoc i t sd (ts @ us)"
  by (auto simp: successDoc_def list_ex_iff)

lemma allSuccess_append:
  "allSuccess ts \<Longrightarrow> success_doc d \<Longrightarrow> allSuccess (ts @ [d])"
  by (auto simp: allSuccess_def)

lemma tradeDocument_success [simp]: "success_doc (tradeDocument r t) = success r"
  by (simp add: tradeDocument_def)

lemma grows_refl [simp]: "grows ts ts"
  by (simp add: grows_def)

lemma grows_successDoc: "grows ts ts' \<Longrightarrow> successDoc i t sd ts \<Longrightarrow> successDoc i t sd ts'"
  by (auto simp: grows_def successDoc_append)


lemma saved_grows: "saved env t w r w1 \<Longrightarrow> grows (trades w) (trades w1)"
proof -
  assume "saved env t w r w1"
  then obtain w3 where f: "frame w w3" and w1: "w1 = saveTrade env w3 r t"
    unfolding saved_def by blast
  have t3: "trades w3 = trades w" using f by (rule frame_trades)
  show ?thesis
    using saveTrade_trades [of env w3 r t] unfolding w1 t3 grows_def by auto
qed

lemma executeBuy_grows: "grows (trades w) (trades (snd (executeBuy cfg env w pos trader rc)))"
  using executeBuy_spec [of cfg env w pos trader rc] saved_grows frame_trades
  by (cases "success (fst (executeBuy cfg env w pos trader rc))") auto

lemma executeSell_grows: "grows (trades w) (trades (snd (executeSell cfg env w pos trader rc)))"
  using executeSell_spec [of cfg env w pos trader rc] saved_grows frame_trades
  by (cases "success (fst (executeSell cfg env w pos trader rc))") auto




lemma successes_snoc:
  "successes sd t i (lg @ [(s, t', r)]) =
     successes sd t i lg + (if s = sd \<and> t' = t \<and> id_pos (position r) = i \<and> success r then 1 else 0)"
  by (simp add: successes_def)

lemma attempts_snoc:
  "attempts sd t i (lg @ [(s, t', r)]) =
     attempts sd t i lg + (if s = sd \<and> t' = t \<and> id_pos (position r) = i then 1 else 0)"
  by (simp add: attempts_def)

lemma failures_snoc:
  "failures sd t i (lg @ [(s, t', r)]) =
     failures sd t i lg + (if s = sd \<and> t' = t \<and> id_pos (position r) = i \<and> \<not> success r then 1 else 0)"
  by (simp add: failures_def)

lemma attempts_split: "attempts sd t i lg = successes sd t i lg + failures sd t i lg"
  by (induction lg) (auto simp: attempts_def successes_def failures_def)

lemma successes_append:
  "successes sd t i (a @ b) = successes sd t i a + successes sd t i b"
  by (simp add: successes_def)

lemma attempts_append:
  "attempts sd t i (a @ b) = attempts sd t i a + attempts sd t i b"
  by (simp add: attempts_def)

lemma successes_le_attempts: "successes sd t i lg \<le> attempts sd t i lg"
  by (simp add: attempts_split)

lemma buyStep_world:
  "fst (buyStep cfg env trader pos (w, st, ex)) =
     (snd (executeBuy cfg env w pos trader 0))
       \<lparr>executions := executions w @ [(Buy, trader, fst (executeBuy cfg env w pos trader 0))]\<rparr>"
  by (simp add: buyStep_eq Let_def)

lemma sellStep_world:
  "fst (sellStep cfg env trader pos (w, st, ex)) =
     (snd (executeSell cfg env w pos trader 0))
       \<lparr>executions := executions w @ [(Sell, trader, fst (executeSell cfg env w pos trader 0))]\<rparr>"
  by (simp add: sellStep_eq Let_def)

lemma buyStep_executed:
  "snd (snd (buyStep cfg env trader pos (w, st, ex))) =
     (if success (fst (executeBuy cfg env w pos trader 0)) then insert (id_pos pos) ex else ex)"
  by (simp add: buyStep_eq Let_def)

lemma sellStep_executed:
  "snd (snd (sellStep cfg env trader pos (w, st, ex))) =
     (if success (fst (executeSell cfg env w pos trader 0)) then ex - {id_pos pos} else ex)"
  by (simp add: sellStep_eq Let_def)

lemma buyStep_stats:
  "fst (snd (buyStep cfg env trader pos (w, st, ex))) =
     (if success (fst (executeBuy cfg env w pos trader 0))
      then st\<lparr>totalTradesExecuted := totalTradesExecuted st + 1\<rparr>
      else st\<lparr>totalTradesFailed := totalTradesFailed st + 1\<rparr>)"
  by (simp add: buyStep_eq Let_def)

lemma sellStep_stats:
  "fst (snd (sellStep cfg env trader pos (w, st, ex))) =
     (if success (fst (executeSell cfg env w pos trader 0))
      then st\<lparr>totalTradesExecuted := totalTradesExecuted st + 1\<rparr>
      else st\<lparr>totalTradesFailed := totalTradesFailed st + 1\<rparr>)"
  by (simp add: sellStep_eq Let_def)

subsection \<open>At most one successful buy\<close>



lemma handle_world:
  "snd (handleStatusUpdate cfg env mon w status trader) =
     fst (foldl (\<lambda>acc pos. sellStep cfg env trader pos acc)
           (foldl (\<lambda>acc pos. buyStep cfg env trader pos acc)
                  (w, stats mon, executedOf mon trader) (newPositions mon status trader))
           (closedPositions mon status trader))"
  by (simp add: handleStatusUpdate_unfold Let_def)



lemma handle_log:
  "\<exists>new. executions (snd (handleStatusUpdate cfg env mon w status trader)) = executions w @ new"
proof -
  let ?P = "\<lambda>acc :: World \<times> CopyTradingStatus \<times> string set. \<exists>new. executions (fst acc) = executions w @ new"
  let ?acc1 = "foldl (\<lambda>acc pos. buyStep cfg env trader pos acc)
                  (w, stats mon, executedOf mon trader) (newPositions mon status trader)"
  have b: "?P ?acc1"
  proof (rule foldl_invariant [where P = ?P])
    show "?P (w, stats mon, executedOf mon trader)" by simp
  next
    fix a :: "World \<times> CopyTradingStatus \<times> string set" and x
    assume a: "?P a"
    obtain w0 st0 ex0 where e: "a = (w0, st0, ex0)" by (cases a)
    show "?P (buyStep cfg env trader x a)"
      using a unfolding e by (auto simp: buyStep_world)
  qed
  have s: "?P (foldl (\<lambda>acc pos. sellStep cfg env trader pos acc) ?acc1
                 (closedPositions mon status trader))"
  proof (rule foldl_invariant [where P = ?P])
    show "?P ?acc1" by (rule b)
  next
    fix a :: "World \<times> CopyTradingStatus \<times> string set" and x
    assume a: "?P a"
    obtain w0 st0 ex0 where e: "a = (w0, st0, ex0)" by (cases a)
    show "?P (sellStep cfg env trader x a)"
      using a unfolding e by (auto simp: sellStep_world)
  qed
  show ?thesis unfolding handle_world by (rule s)
qed

lemma successes_handle_same:
  assumes "attempts sd trader i (executions (snd (handleStatusUpdate cfg env mon w status trader)))
           = attempts sd trader i (executions w)"
  shows "successes sd trader i (executions (snd (handleStatusUpdate cfg env mon w status trader)))
         = successes sd trader i (executions w)"
proof -
  obtain new where n: "executions (snd (handleStatusUpdate cfg env mon w status trader)) = executions w @ new"
    using handle_log by blast
  have "attempts sd trader i new = 0" using assms unfolding n by (simp add: attempts_append)
  then have "successes sd trader i new = 0"
    using successes_le_attempts [of sd trader i new] by simp
  then show ?thesis unfolding n by (simp add: successes_append)
qed

lemma executed_after:
  assumes j: "j \<in> executedOf (fst (handleStatusUpdate cfg env mon w status trader)) trader"
  shows "j \<in> executedOf mon trader
       \<or> successes Buy trader j (executions w)
           < successes Buy trader j (executions (snd (handleStatusUpdate cfg env mon w status trader)))"
proof -
  let ?P = "\<lambda>acc :: World \<times> CopyTradingStatus \<times> string set.
              successes Buy trader j (executions w) \<le> successes Buy trader j (executions (fst acc))
              \<and> (j \<in> snd (snd acc) \<longrightarrow> j \<in> executedOf mon trader
                    \<or> successes Buy trader j (executions w) < successes Buy trader j (executions (fst acc)))"
  let ?acc1 = "foldl (\<lambda>acc pos. buyStep cfg env trader pos acc)
                  (w, stats mon, executedOf mon trader) (newPositions mon status trader)"
  let ?acc2 = "foldl (\<lambda>acc pos. sellStep cfg env trader pos acc) ?acc1
                 (closedPositions mon status trader)"
  have b: "?P ?acc1"
  proof (rule foldl_invariant [where P = ?P])
    show "?P (w, stats mon, executedOf mon trader)" by simp
  next
    fix a :: "World \<times> CopyTradingStatus \<times> string set" and x
    assume a: "?P a"
    obtain w0 st0 ex0 where e: "a = (w0, st0, ex0)" by (cases a)
    have p: "position (fst (executeBuy cfg env w0 x trader 0)) = x" by (rule executeBuy_frame)
    show "?P (buyStep cfg env trader x a)"
      using a p unfolding e by (auto simp: buyStep_world buyStep_executed successes_snoc)
  qed
  have s: "?P ?acc2"
  proof (rule foldl_invariant [where P = ?P])
    show "?P ?acc1" by (rule b)
  next
    fix a :: "World \<times> CopyTradingStatus \<times> string set" and x
    assume a: "?P a"
    obtain w0 st0 ex0 where e: "a = (w0, st0, ex0)" by (cases a)
    show "?P (sellStep cfg env trader x a)"
      using a unfolding e by (auto simp: sellStep_world sellStep_executed successes_snoc)
  qed
  have ex: "executedOf (fst (handleStatusUpdate cfg env mon w status trader)) trader \<subseteq> snd (snd ?acc2)"
    by (simp add: handleStatusUpdate_unfold Let_def executedOf_def split: option.splits)
  show ?thesis
    using s j ex unfolding handle_world by blast
qed

lemma buy_attempt_new:
  assumes "attempts Buy trader j (executions w)
           < attempts Buy trader j (executions (snd (handleStatusUpdate cfg env mon w status trader)))"
  shows "j \<notin> executedOf mon trader \<and> \<not> has (lastOf mon trader) j
         \<and> j \<in> id_pos ` set (openPositions status)"
proof -
  have "0 < length (filter (\<lambda>p. id_pos p = j) (newPositions mon status trader))"
    using assms unfolding attempts_handle by simp
  then obtain p where p: "p \<in> set (newPositions mon status trader)" "id_pos p = j"
    using some_filter [of "\<lambda>p. id_pos p = j" "newPositions mon status trader"] by blast
  show ?thesis using newPositions_ids [OF p(1)] unfolding p(2) by simp
qed


subsection \<open>A position that was never bought\<close>

lemma parked_step:
  assumes pk: "parked trader i mon"
  shows "attempts Buy trader i (executions (snd (handleStatusUpdate cfg env mon w status trader)))
           = attempts Buy trader i (executions w)
       \<and> attempts Sell trader i (executions (snd (handleStatusUpdate cfg env mon w status trader)))
           = attempts Sell trader i (executions w)
       \<and> (i \<in> id_pos ` set (openPositions status) \<longrightarrow>
            parked trader i (fst (handleStatusUpdate cfg env mon w status trader)))"
proof -
  let ?mw = "handleStatusUpdate cfg env mon w status trader"
  have kl: "keyed (lastOf mon trader)" and hl: "has (lastOf mon trader) i"
    and ne: "i \<notin> executedOf mon trader"
    using pk by (simp_all add: parked_def)
  have nb: "\<forall>p \<in> set (newPositions mon status trader). \<not> id_pos p = i"
    using newPositions_ids hl by blast
  have ns: "\<forall>p \<in> set (closedPositions mon status trader). \<not> id_pos p = i"
    using closedPositions_ids [OF kl] ne by blast
  have b: "attempts Buy trader i (executions (snd ?mw)) = attempts Buy trader i (executions w)"
    unfolding attempts_handle using no_filter [OF nb] by simp
  have s: "attempts Sell trader i (executions (snd ?mw)) = attempts Sell trader i (executions w)"
    unfolding attempts_handle using no_filter [OF ns] by simp
  have same: "successes Buy trader i (executions (snd ?mw)) = successes Buy trader i (executions w)"
    using b by (rule successes_handle_same)
  have ne': "i \<notin> executedOf (fst ?mw) trader"
    using executed_after [of i cfg env mon w status trader] ne same by auto
  have "i \<in> id_pos ` set (openPositions status) \<Longrightarrow> parked trader i (fst ?mw)"
    unfolding parked_def lastOf_handle using ne' keyed_positionsMap has_positionsMap by simp
  then show ?thesis using b s by blast
qed

lemma parked_run:
  "parked trader i (fst mw) \<Longrightarrow> \<forall>s \<in> set ss. i \<in> id_pos ` set (openPositions s) \<Longrightarrow>
   parked trader i (fst (handleInTurn cfg env trader mw ss))
   \<and> attempts Buy trader i (executions (snd (handleInTurn cfg env trader mw ss)))
       = attempts Buy trader i (executions (snd mw))
   \<and> attempts Sell trader i (executions (snd (handleInTurn cfg env trader mw ss)))
       = attempts Sell trader i (executions (snd mw))"
proof (induction ss arbitrary: mw)
  case Nil
  then show ?case by simp
next
  case (Cons s ss)
  let ?mw1 = "handleStatusUpdate cfg env (fst mw) (snd mw) s trader"
  have st: "attempts Buy trader i (executions (snd ?mw1)) = attempts Buy trader i (executions (snd mw))
       \<and> attempts Sell trader i (executions (snd ?mw1)) = attempts Sell trader i (executions (snd mw))
       \<and> (i \<in> id_pos ` set (openPositions s) \<longrightarrow> parked trader i (fst ?mw1))"
    using Cons.prems(1) by (rule parked_step)
  have pk1: "parked trader i (fst ?mw1)" using st Cons.prems(2) by simp
  have rest: "\<forall>s \<in> set ss. i \<in> id_pos ` set (openPositions s)" using Cons.prems(2) by simp
  show ?case using Cons.IH [OF pk1 rest] st by simp
qed

lemma handleInTurn_append:
  "handleInTurn cfg env trader mw (ss @ [s])
   = handleStatusUpdate cfg env (fst (handleInTurn cfg env trader mw ss))
       (snd (handleInTurn cfg env trader mw ss)) s trader"
  by (induction ss arbitrary: mw) simp_all

text \<open>
  Handlers that run one after the other. Suppose a status update attempts the buy of a
  position and produces no successful buy for it. Then the identifier is in
  \<^verbatim>\<open>targetPositions\<close> after that update and not in the executed set; while the later statuses
  keep listing the position no buy is attempted again; and the status that follows them,
  in which the position may have disappeared, triggers neither a buy nor a sell for it.
\<close>

theorem failed_open_not_retried:
  assumes first: "mw1 = handleStatusUpdate cfg env mon w status trader"
    and attempted: "attempts Buy trader i (executions w) < attempts Buy trader i (executions (snd mw1))"
    and failed: "successes Buy trader i (executions (snd mw1)) = successes Buy trader i (executions w)"
    and present: "\<forall>s \<in> set later. i \<in> id_pos ` set (openPositions s)"
    and final: "mw2 = handleInTurn cfg env trader mw1 (later @ [gone])"
  shows "has (lastOf (fst mw1) trader) i
       \<and> i \<notin> executedOf (fst mw1) trader
       \<and> attempts Buy trader i (executions (snd (handleInTurn cfg env trader mw1 later)))
           = attempts Buy trader i (executions (snd mw1))
       \<and> attempts Buy trader i (executions (snd mw2)) = attempts Buy trader i (executions (snd mw1))
       \<and> attempts Sell trader i (executions (snd mw2)) = attempts Sell trader i (executions (snd mw1))"
proof -
  have new: "i \<notin> executedOf mon trader \<and> \<not> has (lastOf mon trader) i
         \<and> i \<in> id_pos ` set (openPositions status)"
    using attempted unfolding first by (rule buy_attempt_new)
  have hl: "has (lastOf (fst mw1) trader) i"
    unfolding first lastOf_handle using new by (simp add: has_positionsMap)
  have ne: "i \<notin> executedOf (fst mw1) trader"
    using executed_after [of i cfg env mon w status trader] new failed unfolding first by auto
  have pk: "parked trader i (fst mw1)"
    unfolding parked_def using hl ne unfolding first lastOf_handle
    by (simp add: keyed_positionsMap)
  let ?mid = "handleInTurn cfg env trader mw1 later"
  have run: "parked trader i (fst ?mid)
   \<and> attempts Buy trader i (executions (snd ?mid)) = attempts Buy trader i (executions (snd mw1))
   \<and> attempts Sell trader i (executions (snd ?mid)) = attempts Sell trader i (executions (snd mw1))"
    using pk present by (rule parked_run)
  have last: "attempts Buy trader i (executions (snd mw2)) = attempts Buy trader i (executions (snd ?mid))
       \<and> attempts Sell trader i (executions (snd mw2)) = attempts Sell trader i (executions (snd ?mid))"
    unfolding final handleInTurn_append using parked_step [of trader i "fst ?mid"] run by blast
  show ?thesis using hl ne run last by simp
qed

lemma handle_stats:
  "totalTradesFailed (stats (fst (handleStatusUpdate cfg env mon w status trader)))
   = totalTradesFailed (fst (snd
       (foldl (\<lambda>acc pos. sellStep cfg env trader pos acc)
           (foldl (\<lambda>acc pos. buyStep cfg env trader pos acc)
                  (w, stats mon, executedOf mon trader) (newPositions mon status trader))
           (closedPositions mon status trader))))"
  by (simp add: handleStatusUpdate_unfold Let_def)

text \<open>
  C10. When the connected store holds a success document for the buy, \<^verbatim>\<open>executeBuy\<close>
  returns at once a result with \<^verbatim>\<open>success = false\<close> and the error ``Duplicate trade'', and
  a status update in which the position is new counts it in \<^verbatim>\<open>totalTradesFailed\<close> and leaves
  its identifier out of the executed set.
\<close>

theorem duplicate_skip_is_failure:
  assumes up: "\<forall>k. isDatabaseConnected env k \<and> \<not> findOneThrows env k"
    and doc: "successDoc (id_pos pos) trader Buy (trades w)"
    and mw: "mw = handleStatusUpdate cfg env mon w status trader"
  shows "executeBuy cfg env w pos trader 0 =
           (\<lparr>success = False, position = pos, orderId = None,
             executedQuantity = None, executedPrice = None,
             error = Some (Msg ''Duplicate trade''), dryRun_res = dryRun cfg, retryCount = 0\<rparr>,
            w\<lparr>dbClock := dbClock w + 1\<rparr>)
       \<and> (pos \<in> set (newPositions mon status trader) \<longrightarrow>
            totalTradesFailed (stats mon) + 1 \<le> totalTradesFailed (stats (fst mw))
            \<and> id_pos pos \<notin> executedOf (fst mw) trader)"
proof -
  let ?i = "id_pos pos"
  have c: "isDatabaseConnected env k" "\<not> findOneThrows env k" for k
    using up by simp_all
  have one: "executeBuy cfg env w pos trader 0 =
           (\<lparr>success = False, position = pos, orderId = None,
             executedQuantity = None, executedPrice = None,
             error = Some (Msg ''Duplicate trade''), dryRun_res = dryRun cfg, retryCount = 0\<rparr>,
            w\<lparr>dbClock := dbClock w + 1\<rparr>)"
    using executeBuy_duplicate [OF c doc, of cfg 0] by (simp add: dupWorld_def)
  let ?P = "\<lambda>acc :: World \<times> CopyTradingStatus \<times> string set.
      successDoc ?i trader Buy (trades (fst acc))
      \<and> successes Buy trader ?i (executions (fst acc)) = successes Buy trader ?i (executions w)
      \<and> totalTradesFailed (stats mon) + failures Buy trader ?i (executions (fst acc))
          \<le> totalTradesFailed (fst (snd acc)) + failures Buy trader ?i (executions w)"
  let ?acc1 = "foldl (\<lambda>acc pos. buyStep cfg env trader pos acc)
                  (w, stats mon, executedOf mon trader) (newPositions mon status trader)"
  let ?acc2 = "foldl (\<lambda>acc pos. sellStep cfg env trader pos acc) ?acc1
                 (closedPositions mon status trader)"
  have b: "?P ?acc1"
  proof (rule foldl_invariant [where P = ?P])
    show "?P (w, stats mon, executedOf mon trader)" using doc by simp
  next
    fix a :: "World \<times> CopyTradingStatus \<times> string set" and x
    assume a: "?P a"
    obtain w0 st0 ex0 where e: "a = (w0, st0, ex0)" by (cases a)
    have d0: "successDoc ?i trader Buy (trades w0)" using a e by simp
    have p: "position (fst (executeBuy cfg env w0 x trader 0)) = x" by (rule executeBuy_frame)
    have g: "successDoc ?i trader Buy (trades (snd (executeBuy cfg env w0 x trader 0)))"
      using executeBuy_grows d0 by (rule grows_successDoc)
    show "?P (buyStep cfg env trader x a)"
    proof (cases "id_pos x = ?i")
      case True
      have "\<not> success (fst (executeBuy cfg env w0 x trader 0))"
        using executeBuy_duplicate [OF c, of x trader w0 cfg 0] d0 True by simp
      then show ?thesis
        using a g p True unfolding e
        by (simp add: buyStep_world buyStep_stats successes_snoc failures_snoc)
    next
      case False
      then show ?thesis
        using a g p unfolding e
        by (simp add: buyStep_world buyStep_stats successes_snoc failures_snoc)
    qed
  qed
  have s: "?P ?acc2"
  proof (rule foldl_invariant [where P = ?P])
    show "?P ?acc1" by (rule b)
  next
    fix a :: "World \<times> CopyTradingStatus \<times> string set" and x
    assume a: "?P a"
    obtain w0 st0 ex0 where e: "a = (w0, st0, ex0)" by (cases a)
    have d0: "successDoc ?i trader Buy (trades w0)" using a e by simp
    have g: "successDoc ?i trader Buy (trades (snd (executeSell cfg env w0 x trader 0)))"
      using executeSell_grows d0 by (rule grows_successDoc)
    show "?P (sellStep cfg env trader x a)"
      using a g unfolding e
      by (simp add: sellStep_world sellStep_stats successes_snoc failures_snoc)
  qed
  have two: "totalTradesFailed (stats mon) + 1 \<le> totalTradesFailed (stats (fst mw))
            \<and> id_pos pos \<notin> executedOf (fst mw) trader"
    if new: "pos \<in> set (newPositions mon status trader)"
  proof -
    have same: "successes Buy trader ?i (executions (snd mw)) = successes Buy trader ?i (executions w)"
      using s unfolding mw handle_world by simp
    have "0 < length (filter (\<lambda>p. id_pos p = ?i) (newPositions mon status trader))"
      using new by (auto simp: filter_empty_conv)
    then have att: "attempts Buy trader ?i (executions w) < attempts Buy trader ?i (executions (snd mw))"
      unfolding mw attempts_handle by simp
    have fl: "failures Buy trader ?i (executions w) < failures Buy trader ?i (executions (snd mw))"
      using att same by (simp add: attempts_split)
    have "totalTradesFailed (stats mon) + failures Buy trader ?i (executions (snd mw))
          \<le> totalTradesFailed (stats (fst mw)) + failures Buy trader ?i (executions w)"
      using s unfolding mw handle_world handle_stats by simp
    then have f: "totalTradesFailed (stats mon) + 1 \<le> totalTradesFailed (stats (fst mw))"
      using fl by simp
    have "?i \<notin> executedOf mon trader" using newPositions_ids [OF new] by simp
    then have "?i \<notin> executedOf (fst mw) trader"
      using executed_after [of ?i cfg env mon w status trader] same unfolding mw by auto
    then show ?thesis using f by simp
  qed
  show ?thesis using one two by blast
qed

subsection \<open>Position maps of the monitor are keyed by identifier\<close>

lemma keyed_newMonitor: "keyed (lastOf (newMonitor addrs) trader)"
proof -
  let ?P = "\<lambda>m :: (string, (string, Position) jsmap) jsmap. \<forall>(t, lp) \<in> set m. lp = []"
  have "?P (foldl (\<lambda>m a. AList.update a [] m) [] addrs)"
  proof (rule foldl_invariant [where P = ?P])
    show "?P []" by simp
  next
    fix a :: "(string, (string, Position) jsmap) jsmap" and x :: string
    assume "?P a"
    then show "?P (AList.update x [] a)"
      using set_update_subset [of x "[]" a] by auto
  qed
  then have "map_of (targetPositions (newMonitor addrs)) trader = Some lp \<Longrightarrow> lp = []" for lp
    by (auto simp: newMonitor_def dest!: map_of_SomeD)
  then have "lastOf (newMonitor addrs) trader = []"
    by (cases "map_of (targetPositions (newMonitor addrs)) trader") (simp_all add: lastOf_def)
  then show ?thesis by (simp add: keyed_def)
qed

lemma keyed_handle:
  assumes "keyed (lastOf mon trader)"
  shows "keyed (lastOf (fst (handleStatusUpdate cfg env mon w status t)) trader)"
proof (cases "t = trader")
  case True
  then show ?thesis by (simp add: lastOf_handle keyed_positionsMap)
next
  case False
  then have "lastOf (fst (handleStatusUpdate cfg env mon w status t)) trader = lastOf mon trader"
    by (simp add: handleStatusUpdate_unfold Let_def lastOf_def AList.update_conv')
  then show ?thesis using assms by simp
qed


lemmas ex_defs5 = ex_defs4 ex_status_def ex_mon0_def ex_open_def ex_empty_def


text \<open>
  After an accepted buy the disappearance of the position triggers a sell; after a
  rejected buy it triggers none.
\<close>

theorem close_requires_open_witness:
  "attempts Sell ''0xT'' ''tok'' (executions (snd ex_after_buy))
       < attempts Sell ''0xT'' ''tok''
           (executions (snd (handleStatusUpdate ex_cfg ex_env_accept (fst ex_after_buy)
                               (snd ex_after_buy) ex_empty ''0xT'')))
   \<and> ''tok'' \<in> executedOf (fst ex_after_buy) ''0xT''
   \<and> has (lastOf (fst ex_after_fail) ''0xT'') ''tok''
   \<and> ''tok'' \<notin> id_pos ` set (openPositions ex_empty)
   \<and> ''tok'' \<notin> executedOf (fst ex_after_fail) ''0xT''
   \<and> attempts Sell ''0xT'' ''tok''
        (executions (snd (handleStatusUpdate ex_cfg ex_env_accept (fst ex_after_fail)
                            (snd ex_after_fail) ex_empty ''0xT'')))
       = attempts Sell ''0xT'' ''tok'' (executions (snd ex_after_fail))"
proof -
  have k1: "keyed (lastOf (fst ex_after_buy) ''0xT'')"
    unfolding ex_after_buy_def lastOf_handle by (rule keyed_positionsMap)
  have k2: "keyed (lastOf (fst ex_after_fail) ''0xT'')"
    unfolding ex_after_fail_def lastOf_handle by (rule keyed_positionsMap)
  have a: "attempts Sell ''0xT'' ''tok'' (executions (snd ex_after_buy))
       < attempts Sell ''0xT'' ''tok''
           (executions (snd (handleStatusUpdate ex_cfg ex_env_accept (fst ex_after_buy)
                               (snd ex_after_buy) ex_empty ''0xT'')))"
    by code_simp
  have h: "has (lastOf (fst ex_after_fail) ''0xT'') ''tok''"
    and g: "''tok'' \<notin> id_pos ` set (openPositions ex_empty)"
    and n: "''tok'' \<notin> executedOf (fst ex_after_fail) ''0xT''"
    by code_simp+
  note sold = close_requires_open [OF k1 refl, where cfg = ex_cfg and env = ex_env_accept
      and w = "snd ex_after_buy" and status = ex_empty]
  note kept = close_requires_open [OF k2 refl, where cfg = ex_cfg and env = ex_env_accept
      and w = "snd ex_after_fail" and status = ex_empty]
  have s: "''tok'' \<in> executedOf (fst ex_after_buy) ''0xT''"
    using sold a by blast
  have e: "attempts Sell ''0xT'' ''tok''
        (executions (snd (handleStatusUpdate ex_cfg ex_env_accept (fst ex_after_fail)
                            (snd ex_after_fail) ex_empty ''0xT'')))
       = attempts Sell ''0xT'' ''tok'' (executions (snd ex_after_fail))"
    using kept h g n by blast
  show ?thesis using a s h g n e by blast
qed

text \<open>
  The exchange rejects the buy; two more statuses list the position and a last one does
  not: one buy attempt in all, and no sell.
\<close>

theorem failed_open_not_retried_witness:
  "attempts Buy ''0xT'' ''tok'' (executions (ex_world []))
     < attempts Buy ''0xT'' ''tok'' (executions (snd ex_after_fail))
   \<and> successes Buy ''0xT'' ''tok'' (executions (snd ex_after_fail))
       = successes Buy ''0xT'' ''tok'' (executions (ex_world []))
   \<and> ''tok'' \<in> id_pos ` set (openPositions ex_open)
   \<and> has (lastOf (fst ex_after_fail) ''0xT'') ''tok''
   \<and> ''tok'' \<notin> executedOf (fst ex_after_fail) ''0xT''
   \<and> attempts Buy ''0xT'' ''tok''
        (executions (snd (handleInTurn ex_cfg ex_env_reject ''0xT'' ex_after_fail
                           ([ex_open, ex_open] @ [ex_empty])))) = 1
   \<and> attempts Sell ''0xT'' ''tok''
        (executions (snd (handleInTurn ex_cfg ex_env_reject ''0xT'' ex_after_fail
                           ([ex_open, ex_open] @ [ex_empty])))) = 0"
proof -
  have a: "attempts Buy ''0xT'' ''tok'' (executions (ex_world []))
     < attempts Buy ''0xT'' ''tok'' (executions (snd ex_after_fail))"
    and f: "successes Buy ''0xT'' ''tok'' (executions (snd ex_after_fail))
       = successes Buy ''0xT'' ''tok'' (executions (ex_world []))"
    and p: "\<forall>s \<in> set [ex_open, ex_open]. ''tok'' \<in> id_pos ` set (openPositions s)"
    by code_simp+
  have b1: "attempts Buy ''0xT'' ''tok'' (executions (snd ex_after_fail)) = 1"
    and s0: "attempts Sell ''0xT'' ''tok'' (executions (snd ex_after_fail)) = 0"
    by code_simp+
  have "ex_after_fail = handleStatusUpdate ex_cfg ex_env_reject ex_mon0 (ex_world []) ex_open ''0xT''"
    by (rule ex_after_fail_def)
  moreover have "''tok'' \<in> id_pos ` set (openPositions ex_open)"
    using p by simp
  ultimately show ?thesis
    using failed_open_not_retried [OF _ a f p refl, where gone = ex_empty] a f b1 s0 by simp
qed

subsection \<open>Handlers that overlap\<close>

text \<open>
  \<^verbatim>\<open>handleStatusUpdate\<close> is the computation of its arrays followed by \<open>executeTrades\<close> on the
  same monitor.
\<close>

lemma handleStatusUpdate_split:
  "handleStatusUpdate cfg env mon w status trader =
     executeTrades cfg env mon w trader (positionsMap (openPositions status))
       (newPositions mon status trader) (closedPositions mon status trader)"
  by (simp add: handleStatusUpdate_def executeTrades_def Let_def executedOf_def lastOf_def
      newPositions_def closedPositions_def)

text \<open>
  C9. The exchange rejects every order, with three retries a second apart. The first
  status lists the position \<open>ex_p\<close>; the second one, which \<^verbatim>\<open>detectChanges\<close> lets through
  because the total value has moved, still lists it and is delivered while the handler of
  the first one is retrying. \<^verbatim>\<open>targetPositions\<close> is written at the end of a handler only, so
  the second handler finds the position new as well: the buy that failed is attempted a
  second time, with four more orders. The order in which the awaited operations of the two
  handlers complete does not change these counts: every order is rejected and nothing is
  written to the store. Handled one after the other, the same two statuses give one
  attempt.
\<close>

theorem failed_open_retried_overlapping:
  "detectChanges ex_open2 (Some ex_open)
   \<and> id_pos ex_p \<in> id_pos ` set (openPositions ex_open)
   \<and> id_pos ex_p \<in> id_pos ` set (openPositions ex_open2)
   \<and> attempts Buy ''0xT'' (id_pos ex_p)
        (executions (snd (handleOverlapping ex_cfg ex_env_reject ex_mon0 (ex_world []) ''0xT''
                            ex_open ex_open2))) = 2
   \<and> successes Buy ''0xT'' (id_pos ex_p)
        (executions (snd (handleOverlapping ex_cfg ex_env_reject ex_mon0 (ex_world []) ''0xT''
                            ex_open ex_open2))) = 0
   \<and> length (orders (snd (handleOverlapping ex_cfg ex_env_reject ex_mon0 (ex_world []) ''0xT''
                            ex_open ex_open2))) = 8
   \<and> attempts Buy ''0xT'' (id_pos ex_p)
        (executions (snd (handleInTurn ex_cfg ex_env_reject ''0xT'' (ex_mon0, ex_world [])
                            [ex_open, ex_open2]))) = 1"
  by code_simp

subsection \<open>A buy that the store has on record\<close>

text \<open>The store already holds the buy of \<open>ex_p\<close> when the monitor first sees it.\<close>

theorem duplicate_skip_is_failure_witness:
  "(\<forall>k. isDatabaseConnected ex_env_accept k \<and> \<not> findOneThrows ex_env_accept k)
   \<and> successDoc (id_pos ex_p) ''0xT'' Buy (trades (ex_world [ex_doc Buy]))
   \<and> ex_p \<in> set (newPositions ex_mon0 ex_open ''0xT'')
   \<and> error (fst (executeBuy ex_cfg ex_env_accept (ex_world [ex_doc Buy]) ex_p ''0xT'' 0))
       = Some (Msg ''Duplicate trade'')
   \<and> \<not> success (fst (executeBuy ex_cfg ex_env_accept (ex_world [ex_doc Buy]) ex_p ''0xT'' 0))
   \<and> totalTradesFailed (stats ex_mon0) + 1
       \<le> totalTradesFailed (stats (fst (handleStatusUpdate ex_cfg ex_env_accept ex_mon0
                                            (ex_world [ex_doc Buy]) ex_open ''0xT'')))
   \<and> id_pos ex_p \<notin> executedOf (fst (handleStatusUpdate ex_cfg ex_env_accept ex_mon0
                                            (ex_world [ex_doc Buy]) ex_open ''0xT'')) ''0xT''"
proof -
  have up: "\<forall>k. isDatabaseConnected ex_env_accept k \<and> \<not> findOneThrows ex_env_accept k"
    by (simp add: ex_defs5)
  have doc: "successDoc (id_pos ex_p) ''0xT'' Buy (trades (ex_world [ex_doc Buy]))"
    by (simp add: ex_defs5 successDoc_def)
  have new: "ex_p \<in> set (newPositions ex_mon0 ex_open ''0xT'')"
    by code_simp
  from duplicate_skip_is_failure [OF up doc refl, where cfg = ex_cfg and mon = ex_mon0
      and status = ex_open] up doc new
  show ?thesis by simp
qed

end
